theory Spec2Isabelle
  imports Main "HOL-Library.Word" "HOL-Library.Sublist" "HOL-Library.Code_Target_Nat"
begin

section \<open>UGC Ad Director Assistant: the generation pipeline\<close>

text \<open>
  A shallow embedding of the browser application's core: the audio container helper and the
  service functions of \<^verbatim>\<open>services/geminiService.ts\<close>, the form submission of
  \<^verbatim>\<open>components/InputForm.tsx\<close> and the pipeline \<^verbatim>\<open>handleGenerateAd\<close> of the
  application component.
\<close>

subsection \<open>Bytes and the audio container header\<close>

type_synonym byte = "8 word"

text \<open>\<^verbatim>\<open>'R'.charCodeAt(0)\<close>: the code unit of a one-character literal.\<close>

definition charCodeAt0 :: "char \<Rightarrow> nat" where
  "charCodeAt0 c = of_char c"

text \<open>
  \<^verbatim>\<open>DataView.setUint8 / setUint16 / setUint32\<close> with \<^verbatim>\<open>littleEndian = true\<close>. The
  value is reduced modulo the field width (conversion to \<^verbatim>\<open>byte\<close> reduces modulo 256) and
  stored least significant byte first. Every offset used by \<^verbatim>\<open>getWavHeader\<close> lies inside
  its 44-byte buffer, so the \<^verbatim>\<open>RangeError\<close> of an out-of-bounds write has no branch here.
\<close>

definition setUint8 :: "nat \<Rightarrow> nat \<Rightarrow> byte list \<Rightarrow> byte list" where
  "setUint8 byteOffset v buf = buf[byteOffset := of_nat v]"

definition setUint16 :: "nat \<Rightarrow> nat \<Rightarrow> byte list \<Rightarrow> byte list" where
  "setUint16 byteOffset v buf =
     buf[byteOffset := of_nat v, byteOffset + 1 := of_nat (v div 256)]"

definition setUint32 :: "nat \<Rightarrow> nat \<Rightarrow> byte list \<Rightarrow> byte list" where
  "setUint32 byteOffset v buf =
     buf[byteOffset := of_nat v, byteOffset + 1 := of_nat (v div 256),
         byteOffset + 2 := of_nat (v div 65536), byteOffset + 3 := of_nat (v div 16777216)]"

text \<open>
  \<^verbatim>\<open>getWavHeader(dataLength, sampleRate, numChannels, bitsPerSample)\<close>. The source
  computes \<^verbatim>\<open>blockAlign = numChannels * bitsPerSample / 8\<close> and
  \<^verbatim>\<open>byteRate = sampleRate * blockAlign\<close> on JavaScript numbers; the integer conversion of
  the setters truncates the fraction, which is the \<open>div\<close> below.
\<close>

definition getWavHeader :: "nat \<Rightarrow> nat \<Rightarrow> nat \<Rightarrow> nat \<Rightarrow> byte list" where
  "getWavHeader dataLength sampleRate numChannels bitsPerSample =
    (let blockAlign = numChannels * bitsPerSample div 8;
         byteRate = sampleRate * numChannels * bitsPerSample div 8;
         view = replicate 44 (0 :: byte);
         view = setUint8 0 (charCodeAt0 CHR ''R'') view;
         view = setUint8 1 (charCodeAt0 CHR ''I'') view;
         view = setUint8 2 (charCodeAt0 CHR ''F'') view;
         view = setUint8 3 (charCodeAt0 CHR ''F'') view;
         view = setUint32 4 (36 + dataLength) view;
         view = setUint8 8 (charCodeAt0 CHR ''W'') view;
         view = setUint8 9 (charCodeAt0 CHR ''A'') view;
         view = setUint8 10 (charCodeAt0 CHR ''V'') view;
         view = setUint8 11 (charCodeAt0 CHR ''E'') view;
         view = setUint8 12 (charCodeAt0 CHR ''f'') view;
         view = setUint8 13 (charCodeAt0 CHR ''m'') view;
         view = setUint8 14 (charCodeAt0 CHR ''t'') view;
         view = setUint8 15 (charCodeAt0 CHR '' '') view;
         view = setUint32 16 16 view;
         view = setUint16 20 1 view;
         view = setUint16 22 numChannels view;
         view = setUint32 24 sampleRate view;
         view = setUint32 28 byteRate view;
         view = setUint16 32 blockAlign view;
         view = setUint16 34 bitsPerSample view;
         view = setUint8 36 (charCodeAt0 CHR ''d'') view;
         view = setUint8 37 (charCodeAt0 CHR ''a'') view;
         view = setUint8 38 (charCodeAt0 CHR ''t'') view;
         view = setUint8 39 (charCodeAt0 CHR ''a'') view;
         view = setUint32 40 dataLength view
     in view)"

text \<open>
  \<^verbatim>\<open>Uint8Array.prototype.set(source, offset)\<close> for a source that fits, and the container
  assembled by \<^verbatim>\<open>generateSpeech\<close>: a zero-filled array of the joint length, the header
  copied to offset 0 and the samples copied behind it.
\<close>

definition u8set :: "byte list \<Rightarrow> nat \<Rightarrow> byte list \<Rightarrow> byte list" where
  "u8set source off target = take off target @ source @ drop (off + length source) target"

definition wavBytes :: "byte list \<Rightarrow> byte list" where
  "wavBytes audioBytes =
    (let sampleRate = 24000; numChannels = 1; bitsPerSample = 16;
         header = getWavHeader (length audioBytes) sampleRate numChannels bitsPerSample;
         wav = replicate (length header + length audioBytes) (0 :: byte);
         wav = u8set header 0 wav;
         wav = u8set audioBytes (length header) wav
     in wav)"

text \<open>Readers used to state what a consumer of the container sees at a byte offset.\<close>

definition getUint16 :: "byte list \<Rightarrow> nat \<Rightarrow> nat" where
  "getUint16 buf off = unat (buf ! off) + 256 * unat (buf ! (off + 1))"

definition getUint32 :: "byte list \<Rightarrow> nat \<Rightarrow> nat" where
  "getUint32 buf off = unat (buf ! off) + 256 * unat (buf ! (off + 1))
     + 65536 * unat (buf ! (off + 2)) + 16777216 * unat (buf ! (off + 3))"

definition ascii :: "string \<Rightarrow> byte list" where
  "ascii s = map (\<lambda>c. of_nat (charCodeAt0 c)) s"

subsection \<open>Data model (\<^verbatim>\<open>types.ts\<close>)\<close>

text \<open>
  A browser \<^verbatim>\<open>File\<close>: its name, its media type (\<^verbatim>\<open>file.type\<close>) and its content. The
  two enumerations of \<^verbatim>\<open>UserInput\<close> are string literal unions in the source; the
  functions below give the string each value is.
\<close>

record File =
  file_name :: string
  file_type :: string
  file_content :: "byte list"

datatype Platform = TikTok | Reels | YouTubeShorts | Meta

datatype AspectRatio = Portrait_9_16 | Landscape_16_9

fun platformString :: "Platform \<Rightarrow> string" where
  "platformString TikTok = ''TikTok''"
| "platformString Reels = ''Reels''"
| "platformString YouTubeShorts = ''YouTube Shorts''"
| "platformString Meta = ''Meta''"

fun aspectRatioString :: "AspectRatio \<Rightarrow> string" where
  "aspectRatioString Portrait_9_16 = ''9:16''"
| "aspectRatioString Landscape_16_9 = ''16:9''"

record UserInput =
  productImage :: "File option"
  actorImage :: "File option"
  productDescription :: string
  cta :: string
  platform :: Platform
  aspectRatio :: AspectRatio
  videoLength :: int
  tone :: string
  generateVoiceover :: bool

record ImageData =
  base64 :: string
  mimeType :: string

record AdConcept =
  adTitle :: string
  adIdea :: string
  adDescription :: string
  openingFramePrompt :: string

record ImageValidationResult =
  isValid :: bool
  suggestion :: string

text \<open>
  \<^verbatim>\<open>FinalOutput\<close>. Its fields \<^verbatim>\<open>platform\<close> and \<^verbatim>\<open>tone\<close> carry a suffix here, since
  \<^verbatim>\<open>UserInput\<close> has fields of the same names.
\<close>

record FinalOutput =
  ad_title :: string
  ad_idea :: string
  ad_description :: string
  platform_out :: string
  aspect_ratio :: string
  cta_line :: string
  tone_out :: string
  opening_frame_prompt :: string
  opening_frame_image_url :: string
  veo_prompt :: string
  veo_video_url :: string
  qc_notes :: string
  ad_copy_variations :: "string list"
  hashtags :: "string list"
  voiceover_audio_url :: "string option"

record ProgressUpdate =
  step :: nat
  message :: string

subsection \<open>Thrown values and provider responses\<close>

text \<open>
  A thrown or rejected value, with its \<^verbatim>\<open>message\<close> property (\<open>None\<close> when the value
  has none, as the event a \<^verbatim>\<open>FileReader\<close> rejects with). \<^verbatim>\<open>new Error(m)\<close> is
  \<open>Thrown (Some m)\<close>.
\<close>

datatype exn = Thrown "string option"

fun messageOf :: "exn \<Rightarrow> string option" where
  "messageOf (Thrown m) = m"

definition newError :: "string \<Rightarrow> exn" where
  "newError m = Thrown (Some m)"

text \<open>
  The responses of the provider binding, as far as the service reads them.
  \<^item> An image-generating \<^verbatim>\<open>generateContent\<close> response: the service reads
    \<^verbatim>\<open>candidates?.[0]?.content?.parts\<close>, each part's \<^verbatim>\<open>inlineData\<close> and
    \<^verbatim>\<open>candidates?.[0]?.finishReason\<close>.
  \<^item> A video operation: \<^verbatim>\<open>done\<close>, \<^verbatim>\<open>error\<close> with its optional message, and the value
    of \<^verbatim>\<open>response?.generatedVideos?.[0]?.video?.uri\<close> (\<open>None\<close> for undefined).
  \<^item> A \<^verbatim>\<open>fetch\<close> response: \<^verbatim>\<open>ok\<close>, \<^verbatim>\<open>statusText\<close> and the outcome of \<^verbatim>\<open>blob()\<close>.
  \<^item> The structured responses (\<^verbatim>\<open>JSON.parse(result.text)\<close>) have the types the service
    declares for them; unparsable text is a thrown value of the call.
\<close>

record Part =
  part_text :: "string option"
  part_inlineData :: "ImageData option"

record Candidate =
  cand_parts :: "Part list option"
  cand_finishReason :: "string option"

record GenerateContentResponse =
  candidates :: "Candidate list option"

record Operation =
  op_name :: string
  op_done :: bool
  op_error :: "string option option"
  op_videoUri :: "string option"

record Blob =
  blob_bytes :: "byte list"
  blob_type :: string

record FetchResponse =
  resp_ok :: bool
  resp_statusText :: string
  resp_blob :: "exn + Blob"

record AdAssets =
  adCopyVariations :: "string list"
  hashtags_assets :: "string list"

subsection \<open>Observable events and the state of a run\<close>

text \<open>
  Every effect of the code that leaves the function is recorded, in order, in a trace:
  progress updates, the alert of the form, the delay of the polling loop, and every call to
  the provider or the browser together with what it returned or threw.
\<close>

datatype event =
    SetProgress ProgressUpdate
  | Alert string
  | PreventDefault
  | Sleep nat
  | HasSelectedApiKey "exn + bool"
  | OpenSelectKey "exn + unit"
  | ReadAsDataURL File "exn + string"
  | AnalyzeContent ImageData "exn + string"
  | ConceptContent string string string "exn + AdConcept"
  | ActorFrameContent string ImageData "exn + GenerateContentResponse"
  | GenerateImages string AspectRatio "exn + string list option"
  | ValidateContent ImageData "exn + ImageValidationResult"
  | DirectorContent AdConcept UserInput "exn + string"
  | GenerateVideos string ImageData AspectRatio "exn + Operation"
  | GetVideosOperation Operation "exn + Operation"
  | Fetch string "exn + FetchResponse"
  | CreateObjectURL Blob string
  | SpeechContent string "exn + string option"
  | AssetsContent string string string "exn + AdAssets"

text \<open>The React state of the \<^verbatim>\<open>App\<close> component.\<close>

record AppState =
  isLoading :: bool
  progress :: ProgressUpdate
  error :: "string option"
  result :: "FinalOutput option"
  apiKeySelected :: "bool option"

text \<open>
  The state threaded through a run: the component state, the state \<open>'w\<close> of the outside
  world (provider and browser), and the trace.
\<close>

record 'w state =
  app :: AppState
  world :: 'w
  trace :: "event list"

text \<open>
  The binary string that \<^verbatim>\<open>atob\<close> returns is a JavaScript string: a sequence of code units
  whose length the engine bounds. The bound differs between engines; none of the current
  ones allows more than \<open>2^31 - 1\<close> code units (JavaScriptCore; V8 and SpiderMonkey allow
  less), and this largest bound is taken here. This is the only string of the program
  whose length reaches a computation: it becomes the \<^verbatim>\<open>dataLength\<close> of
  \<^verbatim>\<open>getWavHeader\<close>.
\<close>

definition maxStringLength :: nat where
  "maxStringLength = 2147483647"

typedef jsString = "{units :: nat list. length units \<le> maxStringLength}"
  by (rule exI [of _ "[]"]) simp

setup_lifting type_definition_jsString

text \<open>
  The code units of a string, and the string of given code units (for writing down an
  example; code units beyond the bound are dropped).
\<close>

lift_definition codeUnits :: "jsString \<Rightarrow> nat list" is "\<lambda>units. units" .

lift_definition jsStringOf :: "nat list \<Rightarrow> jsString" is "take maxStringLength"
  by simp

text \<open>
  The outside world. Each field is one call site of the provider binding or of the browser;
  a call takes the world's state and returns a value or a thrown value, and the next state.
  Where the service builds a prompt from parameters by a fixed template, the call takes the
  parameters: a provider that answers to the prompt text is a special case of one that
  answers to the parameters.

  \<^verbatim>\<open>clientError\<close> is what the constructor \<^verbatim>\<open>new GoogleGenAI({ apiKey: process.env.API_KEY })\<close>
  of the provider library throws, if it throws (in a browser it does so when no key is
  set). \<^verbatim>\<open>atob\<close> yields the binary string.
\<close>

record 'w env =
  aistudio :: bool
  hasSelectedApiKey :: "'w \<Rightarrow> (exn + bool) \<times> 'w"
  openSelectKey :: "'w \<Rightarrow> (exn + unit) \<times> 'w"
  readAsDataURL :: "File \<Rightarrow> 'w \<Rightarrow> (exn + string) \<times> 'w"
  readNullError :: exn
  analyzeContent :: "ImageData \<Rightarrow> 'w \<Rightarrow> (exn + string) \<times> 'w"
  conceptContent :: "string \<Rightarrow> string \<Rightarrow> string \<Rightarrow> 'w \<Rightarrow> (exn + AdConcept) \<times> 'w"
  actorFrameContent :: "string \<Rightarrow> ImageData \<Rightarrow> 'w \<Rightarrow> (exn + GenerateContentResponse) \<times> 'w"
  generateImages :: "string \<Rightarrow> AspectRatio \<Rightarrow> 'w \<Rightarrow> (exn + string list option) \<times> 'w"
  validateContent :: "ImageData \<Rightarrow> 'w \<Rightarrow> (exn + ImageValidationResult) \<times> 'w"
  directorContent :: "AdConcept \<Rightarrow> UserInput \<Rightarrow> 'w \<Rightarrow> (exn + string) \<times> 'w"
  generateVideos :: "string \<Rightarrow> ImageData \<Rightarrow> AspectRatio \<Rightarrow> 'w \<Rightarrow> (exn + Operation) \<times> 'w"
  getVideosOperation :: "Operation \<Rightarrow> 'w \<Rightarrow> (exn + Operation) \<times> 'w"
  fetch :: "string \<Rightarrow> 'w \<Rightarrow> (exn + FetchResponse) \<times> 'w"
  createObjectURL :: "Blob \<Rightarrow> 'w \<Rightarrow> string \<times> 'w"
  speechContent :: "string \<Rightarrow> 'w \<Rightarrow> (exn + string option) \<times> 'w"
  atob :: "string \<Rightarrow> exn + jsString"
  assetsContent :: "string \<Rightarrow> string \<Rightarrow> string \<Rightarrow> 'w \<Rightarrow> (exn + AdAssets) \<times> 'w"
  apiKey :: "string option"
  clientError :: "'w \<Rightarrow> exn option"

subsection \<open>Plumbing: calls, sequencing, state setters\<close>

definition call :: "('w \<Rightarrow> (exn + 'a) \<times> 'w) \<Rightarrow> ((exn + 'a) \<Rightarrow> event)
    \<Rightarrow> 'w state \<Rightarrow> (exn + 'a) \<times> 'w state" where
  "call f ev s = (case f (world s) of (r, w) \<Rightarrow> (r, s\<lparr>world := w, trace := trace s @ [ev r]\<rparr>))"

text \<open>An awaited call either throws, which ends the enclosing function, or yields a value.\<close>

definition bindE :: "('s \<Rightarrow> (exn + 'a) \<times> 's) \<Rightarrow> ('a \<Rightarrow> 's \<Rightarrow> (exn + 'b) \<times> 's)
    \<Rightarrow> 's \<Rightarrow> (exn + 'b) \<times> 's" where
  "bindE m f s = (case m s of (Inl e, s') \<Rightarrow> (Inl e, s') | (Inr a, s') \<Rightarrow> f a s')"

definition returnE :: "'a \<Rightarrow> 's \<Rightarrow> (exn + 'a) \<times> 's" where
  "returnE a s = (Inr a, s)"

definition throwE :: "exn \<Rightarrow> 's \<Rightarrow> (exn + 'a) \<times> 's" where
  "throwE e s = (Inl e, s)"

text \<open>The same for code that may not return: \<open>None\<close> is a run that never ends.\<close>

definition bindO :: "('s \<Rightarrow> ((exn + 'a) \<times> 's) option)
    \<Rightarrow> ('a \<Rightarrow> 's \<Rightarrow> ((exn + 'b) \<times> 's) option) \<Rightarrow> 's \<Rightarrow> ((exn + 'b) \<times> 's) option" where
  "bindO m f s = (case m s of None \<Rightarrow> None | Some (Inl e, s') \<Rightarrow> Some (Inl e, s')
     | Some (Inr a, s') \<Rightarrow> f a s')"

definition liftO :: "('s \<Rightarrow> (exn + 'a) \<times> 's) \<Rightarrow> 's \<Rightarrow> ((exn + 'a) \<times> 's) option" where
  "liftO m s = Some (m s)"

definition setIsLoading :: "bool \<Rightarrow> 'w state \<Rightarrow> 'w state" where
  "setIsLoading b s = s\<lparr>app := (app s)\<lparr>isLoading := b\<rparr>\<rparr>"

definition setError :: "string option \<Rightarrow> 'w state \<Rightarrow> 'w state" where
  "setError e s = s\<lparr>app := (app s)\<lparr>error := e\<rparr>\<rparr>"

definition setResult :: "FinalOutput option \<Rightarrow> 'w state \<Rightarrow> 'w state" where
  "setResult r s = s\<lparr>app := (app s)\<lparr>result := r\<rparr>\<rparr>"

definition setApiKeySelected :: "bool option \<Rightarrow> 'w state \<Rightarrow> 'w state" where
  "setApiKeySelected b s = s\<lparr>app := (app s)\<lparr>apiKeySelected := b\<rparr>\<rparr>"

definition setProgress :: "ProgressUpdate \<Rightarrow> 'w state \<Rightarrow> 'w state" where
  "setProgress p s = s\<lparr>app := (app s)\<lparr>progress := p\<rparr>, trace := trace s @ [SetProgress p]\<rparr>"

definition updateProgress :: "nat \<Rightarrow> string \<Rightarrow> 'w state \<Rightarrow> 'w state" where
  "updateProgress n m s = setProgress \<lparr>step = n, message = m\<rparr> s"

definition emit :: "event \<Rightarrow> 'w state \<Rightarrow> 'w state" where
  "emit e s = s\<lparr>trace := trace s @ [e]\<rparr>"

subsection \<open>JavaScript string helpers\<close>

text \<open>A number in a template literal: its decimal digits.\<close>

fun showNat :: "nat \<Rightarrow> string" where
  "showNat n = (if n < 10 then [''0123456789'' ! n]
     else showNat (n div 10) @ [''0123456789'' ! (n mod 10)])"

declare showNat.simps [simp del]

text \<open>\<^verbatim>\<open>x || fallback\<close> on an optional string: undefined and the empty string are falsy.\<close>

fun orElse :: "string option \<Rightarrow> string \<Rightarrow> string" where
  "orElse None d = d"
| "orElse (Some m) d = (if m = [] then d else m)"

text \<open>\<^verbatim>\<open>String.prototype.includes\<close>: the pattern occurs at some position.\<close>

fun includesStr :: "string \<Rightarrow> string \<Rightarrow> bool" where
  "includesStr [] pat = (pat = [])"
| "includesStr (c # cs) pat = (prefix pat (c # cs) \<or> includesStr cs pat)"

text \<open>\<^verbatim>\<open>String.prototype.split(',')\<close>: the pieces between the commas.\<close>

fun splitComma :: "string \<Rightarrow> string list" where
  "splitComma [] = [[]]"
| "splitComma (c # cs) =
     (if c = CHR '','' then [] # splitComma cs
      else (case splitComma cs of [] \<Rightarrow> [[c]] | p # ps \<Rightarrow> (c # p) # ps))"

text \<open>An optional string inside a template literal: undefined prints as that word.\<close>

fun templateString :: "string option \<Rightarrow> string" where
  "templateString None = ''undefined''"
| "templateString (Some x) = x"

subsection \<open>The service functions (\<^verbatim>\<open>services/geminiService.ts\<close>)\<close>

definition POLLING_INTERVAL :: nat where
  "POLLING_INTERVAL = 10000"

text \<open>
  \<^verbatim>\<open>getAiClient()\<close>, the first statement of every service function: the constructor of
  the provider library, which returns the client or throws. The client itself carries no
  data that the code reads.
\<close>

definition getAiClient :: "'w env \<Rightarrow> 'w state \<Rightarrow> (exn + unit) \<times> 'w state" where
  "getAiClient P s = (case clientError P (world s) of None \<Rightarrow> returnE () s
     | Some e \<Rightarrow> throwE e s)"

definition analyzeImage :: "'w env \<Rightarrow> ImageData \<Rightarrow> 'w state \<Rightarrow> (exn + string) \<times> 'w state" where
  "analyzeImage P imageData =
     bindE (getAiClient P)
     (\<lambda>ai. call (analyzeContent P imageData) (AnalyzeContent imageData))"

definition generateAdConcept :: "'w env \<Rightarrow> string \<Rightarrow> string \<Rightarrow> string
    \<Rightarrow> 'w state \<Rightarrow> (exn + AdConcept) \<times> 'w state" where
  "generateAdConcept P imageAnalysis description toneText =
     bindE (getAiClient P)
     (\<lambda>ai. call (conceptContent P imageAnalysis description toneText)
       (ConceptContent imageAnalysis description toneText))"

text \<open>\<^verbatim>\<open>result.candidates?.[0]\<close> and the first part that carries inline data.\<close>

fun firstCandidate :: "GenerateContentResponse \<Rightarrow> Candidate option" where
  "firstCandidate r = (case candidates r of None \<Rightarrow> None | Some [] \<Rightarrow> None
     | Some (c # cs) \<Rightarrow> Some c)"

fun firstInlineData :: "Part list \<Rightarrow> ImageData option" where
  "firstInlineData [] = None"
| "firstInlineData (p # ps) =
     (case part_inlineData p of Some d \<Rightarrow> Some d | None \<Rightarrow> firstInlineData ps)"

definition generateOpeningFrameWithActor :: "'w env \<Rightarrow> string \<Rightarrow> ImageData
    \<Rightarrow> 'w state \<Rightarrow> (exn + ImageData) \<times> 'w state" where
  "generateOpeningFrameWithActor P prompt actorImageData =
     bindE (getAiClient P)
     (\<lambda>ai.
     bindE (call (actorFrameContent P prompt actorImageData)
              (ActorFrameContent prompt actorImageData))
     (\<lambda>res.
       case (case firstCandidate res of None \<Rightarrow> None | Some c \<Rightarrow> cand_parts c) of
         None \<Rightarrow>
           (let finishReason =
                  (case firstCandidate res of None \<Rightarrow> None | Some c \<Rightarrow> cand_finishReason c)
            in throwE (newError
                 (''Image generation with actor failed. The request may have been blocked due to safety settings (Finish Reason: ''
                  @ orElse finishReason ''Not specified''
                  @ ''). Please try using a different actor image.'')))
       | Some parts \<Rightarrow>
           (case firstInlineData parts of
              Some d \<Rightarrow> returnE \<lparr>base64 = base64 d, mimeType = mimeType d\<rparr>
            | None \<Rightarrow> throwE (newError
                 ''Image generation with actor failed: No image data found in the response.''))))"

definition generateImage :: "'w env \<Rightarrow> string \<Rightarrow> AspectRatio
    \<Rightarrow> 'w state \<Rightarrow> (exn + string) \<times> 'w state" where
  "generateImage P prompt ratio =
     bindE (getAiClient P)
     (\<lambda>ai.
     bindE (call (generateImages P prompt ratio) (GenerateImages prompt ratio))
     (\<lambda>generatedImages.
       case generatedImages of
         None \<Rightarrow> throwE (newError ''Image generation failed to produce an image.'')
       | Some [] \<Rightarrow> throwE (newError ''Image generation failed to produce an image.'')
       | Some (imageBytes # rest) \<Rightarrow> returnE imageBytes))"

definition validateImage :: "'w env \<Rightarrow> ImageData
    \<Rightarrow> 'w state \<Rightarrow> (exn + ImageValidationResult) \<times> 'w state" where
  "validateImage P imageData =
     bindE (getAiClient P)
     (\<lambda>ai. call (validateContent P imageData) (ValidateContent imageData))"

definition generateVideoDirectorPrompt :: "'w env \<Rightarrow> AdConcept \<Rightarrow> UserInput
    \<Rightarrow> 'w state \<Rightarrow> (exn + string) \<times> 'w state" where
  "generateVideoDirectorPrompt P concept userInput =
     bindE (getAiClient P)
     (\<lambda>ai. call (directorContent P concept userInput) (DirectorContent concept userInput))"

text \<open>
  The polling loop of \<^verbatim>\<open>generateVideo\<close>: while the operation is not done, wait for the
  polling interval, report the attempt number, and ask for the operation again. The loop has
  no bound, so it is a partial function: \<open>None\<close> is a job that never reports done.
\<close>

partial_function (option) pollLoop :: "'w env \<Rightarrow> (string \<Rightarrow> 'w state \<Rightarrow> 'w state)
    \<Rightarrow> Operation \<Rightarrow> nat \<Rightarrow> 'w state \<Rightarrow> ((exn + Operation) \<times> 'w state) option" where
  "pollLoop P onProgress operation pollCount s =
    (if \<not> op_done operation then
       (case call (getVideosOperation P operation) (GetVideosOperation operation)
               (onProgress (''Polling for video status (Attempt #'' @ showNat pollCount
                              @ '')...'')
                  (emit (Sleep POLLING_INTERVAL) s)) of
          (Inl e, s') \<Rightarrow> Some (Inl e, s')
        | (Inr operation', s') \<Rightarrow> pollLoop P onProgress operation' (pollCount + 1) s')
     else Some (Inr operation, s))"

declare pollLoop.simps [code]

text \<open>
  \<^verbatim>\<open>URL.createObjectURL(blob)\<close>, a browser call that does not throw.
\<close>

definition objectURL :: "'w env \<Rightarrow> Blob \<Rightarrow> 'w state \<Rightarrow> (exn + string) \<times> 'w state" where
  "objectURL P blob s = (case createObjectURL P blob (world s) of
     (url, w) \<Rightarrow> (Inr url, s\<lparr>world := w, trace := trace s @ [CreateObjectURL blob url]\<rparr>))"

text \<open>
  The end of \<^verbatim>\<open>generateVideo\<close>, after the polling loop: the checks of the completed
  operation, the success message and the download.
\<close>

definition fetchVideo :: "'w env \<Rightarrow> (string \<Rightarrow> 'w state \<Rightarrow> 'w state) \<Rightarrow> Operation
    \<Rightarrow> 'w state \<Rightarrow> (exn + string) \<times> 'w state" where
  "fetchVideo P onProgress operation s =
    (case op_error operation of
       Some m \<Rightarrow> throwE (newError (''Video generation failed: '' @ orElse m ''Unknown error'')) s
     | None \<Rightarrow>
        if orElse (op_videoUri operation) [] = [] then
          throwE (newError ''Video generation completed, but no video URI was found.'') s
        else
          bindE (call (fetch P (orElse (op_videoUri operation) [] @ ''&key=''
                                 @ templateString (apiKey P)))
                   (Fetch (orElse (op_videoUri operation) [] @ ''&key=''
                                 @ templateString (apiKey P))))
          (\<lambda>videoResponse.
            if \<not> resp_ok videoResponse then
              throwE (newError
                (''Failed to download video. Status: '' @ resp_statusText videoResponse))
            else (case resp_blob videoResponse of
                    Inl e \<Rightarrow> throwE e
                  | Inr videoBlob \<Rightarrow> objectURL P videoBlob))
          (onProgress ''Video generated successfully! Fetching video data...'' s))"

definition generateVideo :: "'w env \<Rightarrow> string \<Rightarrow> ImageData \<Rightarrow> AspectRatio
    \<Rightarrow> (string \<Rightarrow> 'w state \<Rightarrow> 'w state) \<Rightarrow> 'w state \<Rightarrow> ((exn + string) \<times> 'w state) option" where
  "generateVideo P prompt openingFrame ratio onProgress =
    bindO (liftO (getAiClient P))
    (\<lambda>ai s.
      bindO (liftO (call (generateVideos P prompt openingFrame ratio)
                      (GenerateVideos prompt openingFrame ratio)))
      (\<lambda>operation s.
        bindO (pollLoop P onProgress operation 1)
        (\<lambda>operation. liftO (fetchVideo P onProgress operation))
        (onProgress
          ''Video processing initiated. This can take several minutes. Polling for status...''
          s))
      (onProgress ''Starting video generation with Veo...'' s))"

definition generateAdAssets :: "'w env \<Rightarrow> string \<Rightarrow> string \<Rightarrow> string
    \<Rightarrow> 'w state \<Rightarrow> (exn + AdAssets) \<times> 'w state" where
  "generateAdAssets P description ctaText toneText =
     bindE (getAiClient P)
     (\<lambda>ai. call (assetsContent P description ctaText toneText)
       (AssetsContent description ctaText toneText))"

text \<open>
  \<^verbatim>\<open>decode\<close>: the binary string of \<^verbatim>\<open>atob\<close>, one byte per code unit (storing into a
  \<^verbatim>\<open>Uint8Array\<close> reduces modulo 256).
\<close>

definition decode :: "'w env \<Rightarrow> string \<Rightarrow> exn + byte list" where
  "decode P b64 = (case atob P b64 of Inl e \<Rightarrow> Inl e
     | Inr binaryString \<Rightarrow> Inr (map of_nat (codeUnits binaryString)))"

definition generateSpeech :: "'w env \<Rightarrow> string \<Rightarrow> 'w state \<Rightarrow> (exn + string) \<times> 'w state" where
  "generateSpeech P text =
     bindE (getAiClient P)
     (\<lambda>ai.
     bindE (call (speechContent P text) (SpeechContent text))
     (\<lambda>base64Audio.
       if orElse base64Audio [] = [] then throwE (newError ''TTS generation failed.'')
       else (case decode P (orElse base64Audio []) of
               Inl e \<Rightarrow> throwE e
             | Inr audioBytes \<Rightarrow>
                 objectURL P \<lparr>blob_bytes = wavBytes audioBytes, blob_type = ''audio/wav''\<rparr>)))"

subsection \<open>The pipeline (\<^verbatim>\<open>handleGenerateAd\<close> of the application component)\<close>

text \<open>
  \<^verbatim>\<open>fileToBase64\<close>: the data URL of the file, cut at its commas, and the file's type. A
  data URL always has a comma; for a result without one the source's \<^verbatim>\<open>[1]\<close> is
  undefined, shown here as the empty payload. Reading a null file throws in the browser.
\<close>

definition fileToBase64 :: "'w env \<Rightarrow> File option \<Rightarrow> 'w state \<Rightarrow> (exn + ImageData) \<times> 'w state"
  where
  "fileToBase64 P file =
    (case file of
       None \<Rightarrow> throwE (readNullError P)
     | Some f \<Rightarrow>
        bindE (call (readAsDataURL P f) (ReadAsDataURL f))
        (\<lambda>res. returnE \<lparr>base64 = (case splitComma res of a # b # rest \<Rightarrow> b | _ \<Rightarrow> []),
                        mimeType = file_type f\<rparr>))"

text \<open>
  Stage 1 of the try block: the image analyses and the ad concept. It yields the actor
  image data, if any, and the concept.
\<close>

definition analysisStage :: "'w env \<Rightarrow> UserInput
    \<Rightarrow> 'w state \<Rightarrow> (exn + ImageData option \<times> AdConcept) \<times> 'w state" where
  "analysisStage P data s =
    bindE (fileToBase64 P (productImage data))
    (\<lambda>productImageData.
      bindE (analyzeImage P productImageData)
      (\<lambda>imageAnalysis.
        bindE (case actorImage data of
                 None \<Rightarrow> returnE None
               | Some f \<Rightarrow> bindE (fileToBase64 P (Some f)) (\<lambda>d. returnE (Some d)))
        (\<lambda>actorImageData.
          bindE (case actorImageData of
                   None \<Rightarrow> returnE imageAnalysis
                 | Some a \<Rightarrow>
                     bindE (analyzeImage P a)
                     (\<lambda>actorAnalysis. returnE
                        (imageAnalysis @ CHR 0x0A # ''Actor Analysis: '' @ actorAnalysis)))
          (\<lambda>imageAnalysis s.
            bindE (generateAdConcept P imageAnalysis (productDescription data) (tone data))
            (\<lambda>concept. returnE (actorImageData, concept))
            (updateProgress 2 ''Generating ad concept...'' s)))))
    (updateProgress 1 ''Analyzing images...'' s)"

text \<open>
  The variables the retry loop reads and writes: the concept, whose opening-frame prompt it
  extends, the last frame and the QC note.
\<close>

record LoopVars =
  concept :: AdConcept
  openingFrameData :: "ImageData option"
  qcNotes :: string

datatype 'a flow = Break 'a | Continue 'a

text \<open>
  The branch on the verdict inside the loop body: a valid frame ends the loop (\<open>Break\<close>), an
  invalid one records a note, extends the prompt by the suggestion and goes on (\<open>Continue\<close>).
\<close>

definition qcVerdict :: "nat \<Rightarrow> LoopVars \<Rightarrow> ImageData \<Rightarrow> ImageValidationResult
    \<Rightarrow> LoopVars flow" where
  "qcVerdict i v frame validationResult =
    (if isValid validationResult then
       Break (v\<lparr>openingFrameData := Some frame,
         qcNotes := (if i > 1 then ''QC passed on attempt '' @ showNat i @ ''.''
                     else qcNotes v)\<rparr>)
     else
       Continue (v\<lparr>openingFrameData := Some frame,
         qcNotes :=
           (if i = 3 then
              ''QC failed after 3 attempts. Using best available image. Final issue: ''
                @ suggestion validationResult
            else ''Attempt '' @ showNat i @ '' failed QC: '' @ suggestion validationResult
                @ ''. Refining prompt.''),
         concept := (concept v)\<lparr>openingFramePrompt :=
           openingFramePrompt (concept v) @ ''. IMPORTANT FIX: ''
             @ suggestion validationResult\<rparr>\<rparr>))"

text \<open>One pass through the body of the \<^verbatim>\<open>for\<close> loop, for attempt \<open>i\<close>.\<close>

definition qcAttempt :: "'w env \<Rightarrow> UserInput \<Rightarrow> ImageData option \<Rightarrow> nat \<Rightarrow> LoopVars
    \<Rightarrow> 'w state \<Rightarrow> (exn + LoopVars flow) \<times> 'w state" where
  "qcAttempt P data actorImageData i v s =
    bindE (case actorImageData of
             Some a \<Rightarrow> generateOpeningFrameWithActor P (openingFramePrompt (concept v)) a
           | None \<Rightarrow>
               bindE (generateImage P (openingFramePrompt (concept v)) (aspectRatio data))
               (\<lambda>openingFrameB64.
                  returnE \<lparr>base64 = openingFrameB64, mimeType = ''image/jpeg''\<rparr>))
    (\<lambda>frame s.
      bindE (validateImage P frame)
      (\<lambda>validationResult. returnE (qcVerdict i v frame validationResult))
      (updateProgress 4 (''Validating frame (Attempt '' @ showNat i @ ''/3)...'') s))
    (updateProgress 3 (''Generating opening frame (Attempt '' @ showNat i @ ''/3)...'') s)"

text \<open>\<^verbatim>\<open>for (let i = 1; i <= 3; i++)\<close>, entered with the counter at \<open>i\<close>.\<close>

function qcLoop :: "'w env \<Rightarrow> UserInput \<Rightarrow> ImageData option \<Rightarrow> nat \<Rightarrow> LoopVars
    \<Rightarrow> 'w state \<Rightarrow> (exn + LoopVars) \<times> 'w state" where
  "qcLoop P data actorImageData i v s =
    (if i \<le> 3 then
       (case qcAttempt P data actorImageData i v s of
          (Inl e, s') \<Rightarrow> (Inl e, s')
        | (Inr (Break v'), s') \<Rightarrow> (Inr v', s')
        | (Inr (Continue v'), s') \<Rightarrow> qcLoop P data actorImageData (i + 1) v' s')
     else (Inr v, s))"
  by pat_completeness auto
termination
  by (relation "measure (\<lambda>(P, data, actorImageData, i, v, s). 4 - i)") auto

declare qcLoop.simps [simp del]

text \<open>
  The end of the try block, after the video: the optional voiceover, the ad assets, and
  the \<^verbatim>\<open>FinalOutput\<close> given to \<^verbatim>\<open>setResult\<close>.
\<close>

definition finishStage :: "'w env \<Rightarrow> UserInput \<Rightarrow> LoopVars \<Rightarrow> ImageData \<Rightarrow> string \<Rightarrow> string
    \<Rightarrow> 'w state \<Rightarrow> (exn + unit) \<times> 'w state" where
  "finishStage P data v frame veoPrompt videoUrl =
    bindE (if generateVoiceover data then
             (\<lambda>s. bindE (generateSpeech P
                      (''Say with a '' @ tone data @ '' tone: '' @ cta data))
                    (\<lambda>url. returnE (Some url))
                    (updateProgress 7 ''Generating voiceover...'' s))
           else returnE None)
    (\<lambda>voiceoverUrl s.
      bindE (generateAdAssets P (productDescription data) (cta data) (tone data))
      (\<lambda>adAssets s. (Inr (),
         setResult (Some
           \<lparr>ad_title = adTitle (concept v),
            ad_idea = adIdea (concept v),
            ad_description = adDescription (concept v),
            platform_out = platformString (platform data),
            aspect_ratio = aspectRatioString (aspectRatio data),
            cta_line = cta data,
            tone_out = tone data,
            opening_frame_prompt = openingFramePrompt (concept v),
            opening_frame_image_url =
              ''data:'' @ mimeType frame @ '';base64,'' @ base64 frame,
            veo_prompt = veoPrompt,
            veo_video_url = videoUrl,
            qc_notes = qcNotes v,
            ad_copy_variations = adCopyVariations adAssets,
            hashtags = hashtags_assets adAssets,
            voiceover_audio_url = voiceoverUrl\<rparr>) s))
      (updateProgress 8 ''Generating ad assets...'' s))"

text \<open>
  Stage 2 of the try block, from the check of the frame on: script, video, and the end
  above.
\<close>

definition renderStage :: "'w env \<Rightarrow> UserInput \<Rightarrow> LoopVars
    \<Rightarrow> 'w state \<Rightarrow> ((exn + unit) \<times> 'w state) option" where
  "renderStage P data v s =
    (case openingFrameData v of
       None \<Rightarrow> Some (Inl (newError ''Failed to generate a valid opening frame.''), s)
     | Some frame \<Rightarrow>
        bindO (liftO (generateVideoDirectorPrompt P (concept v) data))
        (\<lambda>veoPrompt s.
          bindO (generateVideo P veoPrompt frame (aspectRatio data) (updateProgress 6))
          (\<lambda>videoUrl. liftO (finishStage P data v frame veoPrompt videoUrl))
          (updateProgress 6 ''Generating video (this may take a few minutes)...'' s))
        (updateProgress 5 ''Writing video script...'' s))"

text \<open>The loop variables on entry: no frame yet, and the note of a first-attempt pass.\<close>

definition loopEntry :: "AdConcept \<Rightarrow> LoopVars" where
  "loopEntry c = \<lparr>concept = c, openingFrameData = None,
     qcNotes = ''QC passed on first attempt.''\<rparr>"

definition tryBlock :: "'w env \<Rightarrow> UserInput \<Rightarrow> 'w state \<Rightarrow> ((exn + unit) \<times> 'w state) option"
  where
  "tryBlock P data =
    bindO (liftO (analysisStage P data))
    (\<lambda>(actorImageData, concept0).
      bindO (liftO (qcLoop P data actorImageData 1 (loopEntry concept0)))
      (\<lambda>v. renderStage P data v))"

definition catchBlock :: "exn \<Rightarrow> 'w state \<Rightarrow> 'w state" where
  "catchBlock e s =
    (if (case messageOf e of None \<Rightarrow> False
         | Some m \<Rightarrow> includesStr m ''Requested entity was not found'')
     then setError
            (Some ''API Key not found or invalid. Please select a valid API key and try again.'')
            (setApiKeySelected (Some False) s)
     else setError (Some (orElse (messageOf e) ''An unknown error occurred.'')) s)"

definition finallyBlock :: "'w state \<Rightarrow> 'w state" where
  "finallyBlock s = setProgress \<lparr>step = 0, message = []\<rparr> (setIsLoading False s)"

text \<open>
  The API key check in front of the try block. Its awaits are outside the try: a thrown
  value here leaves \<^verbatim>\<open>handleGenerateAd\<close> as a rejection.
\<close>

definition apiKeyCheck :: "'w env \<Rightarrow> 'w state \<Rightarrow> (exn + unit) \<times> 'w state" where
  "apiKeyCheck P =
    (if aistudio P then
       bindE (call (hasSelectedApiKey P) HasSelectedApiKey)
       (\<lambda>hasKey.
         if \<not> hasKey then
           bindE (call (openSelectKey P) OpenSelectKey)
           (\<lambda>u s. returnE () (setApiKeySelected (Some True) s))
         else returnE ())
     else returnE ())"

definition handleGenerateAd :: "'w env \<Rightarrow> UserInput
    \<Rightarrow> 'w state \<Rightarrow> ((exn + unit) \<times> 'w state) option" where
  "handleGenerateAd P data s =
    bindO (liftO (apiKeyCheck P))
    (\<lambda>u s.
      case tryBlock P data s of
        None \<Rightarrow> None
      | Some (Inl e, s') \<Rightarrow> Some (Inr (), finallyBlock (catchBlock e s'))
      | Some (Inr u, s') \<Rightarrow> Some (Inr (), finallyBlock s'))
    (setResult None (setError None (setIsLoading True s)))"

subsection \<open>Form submission (\<^verbatim>\<open>components/InputForm.tsx\<close>)\<close>

text \<open>
  \<^verbatim>\<open>handleSubmit\<close> of the input form; \<^verbatim>\<open>onSubmit\<close> is the property the form is given,
  which the application sets to \<^verbatim>\<open>handleGenerateAd\<close>.
\<close>

definition handleSubmit :: "(UserInput \<Rightarrow> 'w state \<Rightarrow> ((exn + unit) \<times> 'w state) option)
    \<Rightarrow> UserInput \<Rightarrow> 'w state \<Rightarrow> ((exn + unit) \<times> 'w state) option" where
  "handleSubmit onSubmit formData s =
    (if productImage formData = None then
       Some (Inr (), emit (Alert ''Please upload a product image.'') (emit PreventDefault s))
     else onSubmit formData (emit PreventDefault s))"

definition submitForm :: "'w env \<Rightarrow> UserInput \<Rightarrow> 'w state \<Rightarrow> ((exn + unit) \<times> 'w state) option"
  where
  "submitForm P = handleSubmit (handleGenerateAd P)"

subsection \<open>Reading a trace\<close>

text \<open>
  The calls that generate an opening frame and the calls that validate one; the step
  indices of the progress updates; the prompts given to frame generation; the frames given
  to validation and the verdicts it returned; the concepts and the ad assets the provider
  returned.
\<close>

fun isFrameCall :: "event \<Rightarrow> bool" where
  "isFrameCall (ActorFrameContent prompt a r) = True"
| "isFrameCall (GenerateImages prompt ratio r) = True"
| "isFrameCall e = False"

fun isValidateCall :: "event \<Rightarrow> bool" where
  "isValidateCall (ValidateContent img r) = True"
| "isValidateCall e = False"

fun isProgress :: "event \<Rightarrow> bool" where
  "isProgress (SetProgress p) = True"
| "isProgress e = False"

fun isProviderCall :: "event \<Rightarrow> bool" where
  "isProviderCall (SetProgress p) = False"
| "isProviderCall (Alert m) = False"
| "isProviderCall PreventDefault = False"
| "isProviderCall (Sleep n) = False"
| "isProviderCall e = True"

fun steps :: "event list \<Rightarrow> nat list" where
  "steps [] = []"
| "steps (SetProgress p # es) = step p # steps es"
| "steps (e # es) = steps es"

fun framePrompts :: "event list \<Rightarrow> string list" where
  "framePrompts [] = []"
| "framePrompts (ActorFrameContent prompt a r # es) = prompt # framePrompts es"
| "framePrompts (GenerateImages prompt ratio r # es) = prompt # framePrompts es"
| "framePrompts (e # es) = framePrompts es"

fun validatedFrames :: "event list \<Rightarrow> ImageData list" where
  "validatedFrames [] = []"
| "validatedFrames (ValidateContent img r # es) = img # validatedFrames es"
| "validatedFrames (e # es) = validatedFrames es"

fun verdicts :: "event list \<Rightarrow> ImageValidationResult list" where
  "verdicts [] = []"
| "verdicts (ValidateContent img (Inr res) # es) = res # verdicts es"
| "verdicts (e # es) = verdicts es"

fun concepts :: "event list \<Rightarrow> AdConcept list" where
  "concepts [] = []"
| "concepts (ConceptContent a d t (Inr c) # es) = c # concepts es"
| "concepts (e # es) = concepts es"

fun assets :: "event list \<Rightarrow> AdAssets list" where
  "assets [] = []"
| "assets (AssetsContent d c t (Inr a) # es) = a # assets es"
| "assets (e # es) = assets es"

text \<open>The text a failed validation adds to the opening-frame prompt.\<close>

definition promptFix :: "ImageValidationResult \<Rightarrow> string" where
  "promptFix res = ''. IMPORTANT FIX: '' @ suggestion res"

text \<open>
  The events that follow the first validation that returned a valid verdict, and the
  verdicts that rejected a frame.
\<close>

fun afterValid :: "event list \<Rightarrow> event list" where
  "afterValid [] = []"
| "afterValid (ValidateContent img (Inr res) # es) = (if isValid res then es else afterValid es)"
| "afterValid (e # es) = afterValid es"

definition rejections :: "event list \<Rightarrow> ImageValidationResult list" where
  "rejections evs = filter (\<lambda>res. \<not> isValid res) (verdicts evs)"

definition noQc :: "event list \<Rightarrow> bool" where
  "noQc evs = (\<forall>e \<in> set evs. \<not> isFrameCall e \<and> \<not> isValidateCall e)"

text \<open>
  For the video stage: the operation states the provider reported (at submission and at
  each poll), and the progress updates and delays in the order they happened.
\<close>

fun reports :: "event list \<Rightarrow> Operation list" where
  "reports [] = []"
| "reports (GenerateVideos p f r (Inr operation) # es) = operation # reports es"
| "reports (GetVideosOperation operation0 (Inr operation) # es) = operation # reports es"
| "reports (e # es) = reports es"

fun isTick :: "event \<Rightarrow> bool" where
  "isTick (SetProgress p) = True"
| "isTick (Sleep n) = True"
| "isTick e = False"

definition ticks :: "event list \<Rightarrow> event list" where
  "ticks evs = filter isTick evs"

definition pollTick :: "nat \<Rightarrow> event list" where
  "pollTick k = [Sleep POLLING_INTERVAL,
     SetProgress \<lparr>step = 6,
       message = ''Polling for video status (Attempt #'' @ showNat k @ '')...''\<rparr>]"

definition usable :: "Operation \<Rightarrow> bool" where
  "usable operation \<longleftrightarrow> op_done operation \<and> op_error operation = None
     \<and> orElse (op_videoUri operation) [] \<noteq> []"

text \<open>What the catch block shows for a thrown value, and its test for a credential failure.\<close>

definition credentialFailure :: "exn \<Rightarrow> bool" where
  "credentialFailure e = (case messageOf e of None \<Rightarrow> False
     | Some m \<Rightarrow> includesStr m ''Requested entity was not found'')"

definition surfaced :: "exn \<Rightarrow> string" where
  "surfaced e = (if credentialFailure e
     then ''API Key not found or invalid. Please select a valid API key and try again.''
     else orElse (messageOf e) ''An unknown error occurred.'')"

subsection \<open>The behaviours of the two loops, as event sequences\<close>

text \<open>
  \<open>qcRun i v evs r\<close>: entered with counter \<open>i\<close> and variables \<open>v\<close>, the retry loop may emit
  the events \<open>evs\<close> and end with \<open>r\<close> (a thrown value, or the variables at its exit). Each
  attempt reports step 3, calls frame generation with the current prompt, and, if that
  yields a frame, reports step 4 and calls validation. A service that cannot build its
  client throws before its call.
\<close>

inductive qcRun :: "nat \<Rightarrow> LoopVars \<Rightarrow> event list \<Rightarrow> exn + LoopVars \<Rightarrow> bool" where
  exhausted: "3 < i \<Longrightarrow> qcRun i v [] (Inr v)"
| noFrameClient: "i \<le> 3 \<Longrightarrow> qcRun i v [SetProgress \<lparr>step = 3, message = m3\<rparr>] (Inl e)"
| noFrame: "i \<le> 3 \<Longrightarrow> isFrameCall f \<Longrightarrow> framePrompts [f] = [openingFramePrompt (concept v)]
    \<Longrightarrow> qcRun i v [SetProgress \<lparr>step = 3, message = m3\<rparr>, f] (Inl e)"
| noVerdictClient: "i \<le> 3 \<Longrightarrow> isFrameCall f
    \<Longrightarrow> framePrompts [f] = [openingFramePrompt (concept v)]
    \<Longrightarrow> qcRun i v [SetProgress \<lparr>step = 3, message = m3\<rparr>, f,
          SetProgress \<lparr>step = 4, message = m4\<rparr>] (Inl e)"
| noVerdict: "i \<le> 3 \<Longrightarrow> isFrameCall f \<Longrightarrow> framePrompts [f] = [openingFramePrompt (concept v)]
    \<Longrightarrow> qcRun i v [SetProgress \<lparr>step = 3, message = m3\<rparr>, f,
          SetProgress \<lparr>step = 4, message = m4\<rparr>, ValidateContent img (Inl e)] (Inl e)"
| passed: "i \<le> 3 \<Longrightarrow> isFrameCall f \<Longrightarrow> framePrompts [f] = [openingFramePrompt (concept v)]
    \<Longrightarrow> qcVerdict i v img res = Break v'
    \<Longrightarrow> qcRun i v [SetProgress \<lparr>step = 3, message = m3\<rparr>, f,
          SetProgress \<lparr>step = 4, message = m4\<rparr>, ValidateContent img (Inr res)] (Inr v')"
| retry: "i \<le> 3 \<Longrightarrow> isFrameCall f \<Longrightarrow> framePrompts [f] = [openingFramePrompt (concept v)]
    \<Longrightarrow> qcVerdict i v img res = Continue v' \<Longrightarrow> qcRun (i + 1) v' evs r
    \<Longrightarrow> qcRun i v ([SetProgress \<lparr>step = 3, message = m3\<rparr>, f,
          SetProgress \<lparr>step = 4, message = m4\<rparr>, ValidateContent img (Inr res)] @ evs) r"

text \<open>
  \<open>pollRun k operation evs r\<close>: entered with poll counter \<open>k\<close> and the last reported
  operation, the polling loop may emit \<open>evs\<close> and end with \<open>r\<close>.
\<close>

inductive pollRun :: "nat \<Rightarrow> Operation \<Rightarrow> event list \<Rightarrow> exn + Operation \<Rightarrow> bool" where
  finished: "op_done operation \<Longrightarrow> pollRun k operation [] (Inr operation)"
| pollThrows: "\<not> op_done operation
    \<Longrightarrow> pollRun k operation (pollTick k @ [GetVideosOperation operation (Inl e)]) (Inl e)"
| pollAgain: "\<not> op_done operation \<Longrightarrow> pollRun (k + 1) operation' evs r
    \<Longrightarrow> pollRun k operation
          (pollTick k @ [GetVideosOperation operation (Inr operation')] @ evs) r"

text \<open>
  \<open>pollAnswers P operation w answers\<close>: asked for \<open>operation\<close> in the world state \<open>w\<close>,
  and then each time for the operation it last returned, the provider returns the
  operations of \<open>answers\<close> in turn, each with the world state it leaves.
\<close>

fun pollAnswers :: "'w env \<Rightarrow> Operation \<Rightarrow> 'w \<Rightarrow> (Operation \<times> 'w) list \<Rightarrow> bool" where
  "pollAnswers P operation w [] = True"
| "pollAnswers P operation w ((operation', w') # rest) =
     (getVideosOperation P operation w = (Inr operation', w') \<and> pollAnswers P operation' w' rest)"

text \<open>
  \<open>emits s s' evs\<close>: from \<open>s\<close> to \<open>s'\<close> the trace grew by \<open>evs\<close> and, of the component
  state, at most the progress changed.
\<close>

definition emits :: "'w state \<Rightarrow> 'w state \<Rightarrow> event list \<Rightarrow> bool" where
  "emits s s' evs \<longleftrightarrow> trace s' = trace s @ evs
     \<and> isLoading (app s') = isLoading (app s) \<and> error (app s') = error (app s)
     \<and> result (app s') = result (app s) \<and> apiKeySelected (app s') = apiKeySelected (app s)"

text \<open>
  \<open>yields s r s' evs ro\<close>: from \<open>s\<close> to \<open>s'\<close> the trace grew by \<open>evs\<close>; the code ended
  with \<open>r\<close>, which is the thrown value of \<open>ro\<close> or a normal return after storing the
  \<^verbatim>\<open>FinalOutput\<close> of \<open>ro\<close> as the result; the other flags did not change.
\<close>

definition yields :: "'w state \<Rightarrow> exn + unit \<Rightarrow> 'w state \<Rightarrow> event list \<Rightarrow> exn + FinalOutput
    \<Rightarrow> bool" where
  "yields s r s' evs ro \<longleftrightarrow> trace s' = trace s @ evs
     \<and> isLoading (app s') = isLoading (app s) \<and> error (app s') = error (app s)
     \<and> apiKeySelected (app s') = apiKeySelected (app s)
     \<and> (case ro of Inl e \<Rightarrow> r = Inl e \<and> result (app s') = result (app s)
         | Inr out \<Rightarrow> r = Inr () \<and> result (app s') = Some out)"

text \<open>The progress state of a component that is not running.\<close>

definition idle :: ProgressUpdate where
  "idle = \<lparr>step = 0, message = []\<rparr>"

text \<open>
  The order of two consecutive progress steps: not decreasing, or back from validation
  (step 4) to the generation of the next attempt (step 3).
\<close>

definition stepOrder :: "nat \<Rightarrow> nat \<Rightarrow> bool" where
  "stepOrder a b \<longleftrightarrow> a \<le> b \<or> (a = 4 \<and> b = 3)"

subsection \<open>The behaviours of the stages, as event sequences\<close>

text \<open>
  Calls that none of the readings above looks at: the key dialogue, file reads, image
  analysis, the script, the download and the speech synthesis.
\<close>

fun silent :: "event \<Rightarrow> bool" where
  "silent (HasSelectedApiKey r) = True"
| "silent (OpenSelectKey r) = True"
| "silent (ReadAsDataURL f r) = True"
| "silent (AnalyzeContent img r) = True"
| "silent (DirectorContent c u r) = True"
| "silent (Fetch url r) = True"
| "silent (CreateObjectURL b url) = True"
| "silent (SpeechContent t r) = True"
| "silent e = False"

definition silently :: "('w state \<Rightarrow> (exn + 'a) \<times> 'w state) \<Rightarrow> bool" where
  "silently m \<longleftrightarrow> (\<forall>s r s'. m s = (r, s')
     \<longrightarrow> (\<exists>evs. emits s s' evs \<and> (\<forall>e \<in> set evs. silent e)))"

text \<open>
  Events of the stages around the retry loop, with progress steps between \<open>lo\<close> and \<open>hi\<close>
  in non-decreasing order and no call for a frame, a verdict, a concept or the ad assets.
\<close>

definition quiet :: "nat \<Rightarrow> nat \<Rightarrow> event list \<Rightarrow> bool" where
  "quiet lo hi evs \<longleftrightarrow> noQc evs \<and> concepts evs = [] \<and> assets evs = []
     \<and> sorted (steps evs) \<and> (\<forall>n \<in> set (steps evs). lo \<le> n \<and> n \<le> hi)"

text \<open>The fixed progress updates of the video stage and of the script stage.\<close>

definition videoStarting :: event where
  "videoStarting = SetProgress \<lparr>step = 6, message = ''Starting video generation with Veo...''\<rparr>"

definition videoInitiated :: event where
  "videoInitiated = SetProgress \<lparr>step = 6, message =
     ''Video processing initiated. This can take several minutes. Polling for status...''\<rparr>"

definition videoSucceeded :: event where
  "videoSucceeded = SetProgress \<lparr>step = 6, message =
     ''Video generated successfully! Fetching video data...''\<rparr>"

definition writingScript :: event where
  "writingScript = SetProgress \<lparr>step = 5, message = ''Writing video script...''\<rparr>"

text \<open>
  \<open>videoRun p f a evs r\<close>: the events of \<^verbatim>\<open>generateVideo\<close> with the progress callback of
  the pipeline. If the client cannot be built nothing is reported. Otherwise the job is
  submitted; if that succeeds the polling loop runs; if it ends with an operation that has
  no error and a result URI, success is reported and the video is downloaded.
\<close>

inductive videoRun :: "string \<Rightarrow> ImageData \<Rightarrow> AspectRatio \<Rightarrow> event list \<Rightarrow> exn + string
    \<Rightarrow> bool" where
  clientThrows: "videoRun p f a [] (Inl e)"
| submitThrows: "videoRun p f a
      [videoStarting,
       GenerateVideos p f a (Inl e)] (Inl e)"
| unusable: "pollRun 1 operation0 pevs rp
    \<Longrightarrow> (\<And>operation. rp = Inr operation \<Longrightarrow> \<not> usable operation)
    \<Longrightarrow> videoRun p f a
      ([videoStarting,
        GenerateVideos p f a (Inr operation0),
        videoInitiated]
       @ pevs) (Inl e)"
| downloading: "pollRun 1 operation0 pevs (Inr operation) \<Longrightarrow> usable operation
    \<Longrightarrow> \<forall>e \<in> set dl. silent e
    \<Longrightarrow> videoRun p f a
      ([videoStarting,
        GenerateVideos p f a (Inr operation0),
        videoInitiated]
       @ pevs
       @ [videoSucceeded]
       @ dl) r"

text \<open>\<open>analysisRun evs r\<close>: the events of stage 1, up to the concept.\<close>

inductive analysisRun :: "event list \<Rightarrow> exn + ImageData option \<times> AdConcept \<Rightarrow> bool" where
  early: "\<forall>e \<in> set A. silent e
    \<Longrightarrow> analysisRun (SetProgress \<lparr>step = 1, message = m1\<rparr> # A) (Inl e)"
| conceptClient: "\<forall>e \<in> set A. silent e
    \<Longrightarrow> analysisRun (SetProgress \<lparr>step = 1, message = m1\<rparr> # A
          @ [SetProgress \<lparr>step = 2, message = m2\<rparr>]) (Inl e)"
| conceptCall: "\<forall>e \<in> set A. silent e
    \<Longrightarrow> analysisRun (SetProgress \<lparr>step = 1, message = m1\<rparr> # A
          @ [SetProgress \<lparr>step = 2, message = m2\<rparr>, ConceptContent x y z rc])
        (map_sum id (Pair a) rc)"

text \<open>The data URL under which the pipeline shows a frame.\<close>

definition frameUrl :: "ImageData \<Rightarrow> string" where
  "frameUrl frame = ''data:'' @ mimeType frame @ '';base64,'' @ base64 frame"

text \<open>
  \<open>renderRun data v evs ro\<close>: the events of stage 2 for the loop variables \<open>v\<close>, ending in
  a thrown value or in the \<^verbatim>\<open>FinalOutput\<close> handed to \<^verbatim>\<open>setResult\<close>.
\<close>

inductive renderRun :: "UserInput \<Rightarrow> LoopVars \<Rightarrow> event list \<Rightarrow> exn + FinalOutput \<Rightarrow> bool"
  where
  frameMissing: "openingFrameData v = None \<Longrightarrow> renderRun data v [] (Inl e)"
| aborted: "openingFrameData v = Some frame \<Longrightarrow> quiet 5 8 M
    \<Longrightarrow> renderRun data v
        (writingScript # M) (Inl e)"
| assetsThrow: "openingFrameData v = Some frame \<Longrightarrow> quiet 5 7 M
    \<Longrightarrow> renderRun data v
        (writingScript # M
          @ [SetProgress \<lparr>step = 8, message = m8\<rparr>, AssetsContent x y z (Inl e)]) (Inl e)"
| completed: "openingFrameData v = Some frame \<Longrightarrow> quiet 5 7 M
    \<Longrightarrow> ad_copy_variations out = adCopyVariations a \<Longrightarrow> hashtags out = hashtags_assets a
    \<Longrightarrow> qc_notes out = qcNotes v
    \<Longrightarrow> opening_frame_prompt out = openingFramePrompt (concept v)
    \<Longrightarrow> opening_frame_image_url out = frameUrl frame
    \<Longrightarrow> renderRun data v
        (writingScript # M
          @ [SetProgress \<lparr>step = 8, message = m8\<rparr>, AssetsContent x y z (Inr a)]) (Inr out)"

text \<open>
  \<open>pipelineRun data evs ro\<close>: the events of one run of \<^verbatim>\<open>handleGenerateAd\<close> up to the
  end of its try block: the key check, stage 1, the retry loop entered at attempt 1 with
  the concept of stage 1, and stage 2.
\<close>

inductive pipelineRun :: "UserInput \<Rightarrow> event list \<Rightarrow> exn + FinalOutput \<Rightarrow> bool" where
  analysisFailed: "\<forall>e \<in> set K. silent e \<Longrightarrow> analysisRun A (Inl e)
    \<Longrightarrow> pipelineRun data (K @ A) (Inl e)"
| loopFailed: "\<forall>e \<in> set K. silent e \<Longrightarrow> analysisRun A (Inr (a, c))
    \<Longrightarrow> qcRun 1 (loopEntry c) L (Inl e)
    \<Longrightarrow> pipelineRun data (K @ A @ L) (Inl e)"
| rendered: "\<forall>e \<in> set K. silent e \<Longrightarrow> analysisRun A (Inr (a, c))
    \<Longrightarrow> qcRun 1 (loopEntry c) L (Inr v) \<Longrightarrow> renderRun data v R ro
    \<Longrightarrow> pipelineRun data (K @ A @ L @ R) ro"

subsection \<open>A scripted outside world\<close>

text \<open>
  A concrete provider for running the pipeline on examples: it answers every call with a
  fixed value, except that the verdicts of frame validation and the states of the video
  operation are read off two scripts, one entry per call. An exhausted script throws, and
  reading an empty file fails with an event that has no message.
\<close>

record Script =
  verdictScript :: "ImageValidationResult list"
  jobScript :: "Operation list"

definition nextVerdict :: "Script \<Rightarrow> (exn + ImageValidationResult) \<times> Script" where
  "nextVerdict w = (case verdictScript w of
      [] \<Rightarrow> (Inl (Thrown (Some ''quota exceeded'')), w)
    | x # xs \<Rightarrow> (Inr x, w\<lparr>verdictScript := xs\<rparr>))"

definition nextJob :: "Script \<Rightarrow> (exn + Operation) \<times> Script" where
  "nextJob w = (case jobScript w of
      [] \<Rightarrow> (Inl (Thrown (Some ''404: Requested entity was not found.'')), w)
    | x # xs \<Rightarrow> (Inr x, w\<lparr>jobScript := xs\<rparr>))"

definition scriptedEnv :: "Script env" where
  "scriptedEnv =
    \<lparr>aistudio = False,
     hasSelectedApiKey = (\<lambda>w. (Inr True, w)),
     openSelectKey = (\<lambda>w. (Inr (), w)),
     readAsDataURL = (\<lambda>f w. if file_content f = [] then (Inl (Thrown None), w)
        else (Inr (''data:'' @ file_type f @ '';base64,QUJD''), w)),
     readNullError = Thrown (Some ''parameter 1 is not of type Blob''),
     analyzeContent = (\<lambda>img w. (Inr ''a red dress'', w)),
     conceptContent = (\<lambda>a d t w.
        (Inr \<lparr>adTitle = ''Red'', adIdea = ''Walk'', adDescription = ''Silk'',
              openingFramePrompt = ''Full body shot''\<rparr>, w)),
     actorFrameContent = (\<lambda>p a w.
        (Inr \<lparr>candidates = Some [\<lparr>cand_parts = Some [\<lparr>part_text = None,
               part_inlineData = Some \<lparr>base64 = ''ACT'', mimeType = ''image/png''\<rparr>\<rparr>],
               cand_finishReason = None\<rparr>]\<rparr>, w)),
     generateImages = (\<lambda>p r w. (Inr (Some [''IMG'' @ showNat (length p)]), w)),
     validateContent = (\<lambda>img. nextVerdict),
     directorContent = (\<lambda>c u w. (Inr ''One continuous scene'', w)),
     generateVideos = (\<lambda>p f r. nextJob),
     getVideosOperation = (\<lambda>operation. nextJob),
     fetch = (\<lambda>url w. (Inr \<lparr>resp_ok = True, resp_statusText = ''OK'',
        resp_blob = Inr \<lparr>blob_bytes = [0, 1], blob_type = ''video/mp4''\<rparr>\<rparr>, w)),
     createObjectURL = (\<lambda>b w. (''blob:'' @ blob_type b, w)),
     speechContent = (\<lambda>t w. (Inr (Some ''AQID''), w)),
     atob = (\<lambda>b. Inr (jsStringOf [1, 2, 3])),
     assetsContent = (\<lambda>d c t w.
        (Inr \<lparr>adCopyVariations = [''Wear it'', ''Own it'', ''Love it''],
              hashtags_assets = [''silk'', ''dress'', ''summer'', ''red'', ''style'']\<rparr>, w)),
     apiKey = Some ''KEY'',
     clientError = (\<lambda>w. None)\<rparr>"

definition pending :: Operation where
  "pending = \<lparr>op_name = ''job'', op_done = False, op_error = None, op_videoUri = None\<rparr>"

definition finished :: Operation where
  "finished = \<lparr>op_name = ''job'', op_done = True, op_error = None,
     op_videoUri = Some ''https://video''\<rparr>"

definition rejected :: "string \<Rightarrow> ImageValidationResult" where
  "rejected why = \<lparr>isValid = False, suggestion = why\<rparr>"

definition accepted :: ImageValidationResult where
  "accepted = \<lparr>isValid = True, suggestion = []\<rparr>"

definition brief :: UserInput where
  "brief =
    \<lparr>productImage = Some \<lparr>file_name = ''dress.png'', file_type = ''image/png'',
        file_content = [7]\<rparr>,
     actorImage = None, productDescription = ''A red silk dress'', cta = ''Shop now'',
     platform = TikTok, aspectRatio = Portrait_9_16, videoLength = 8,
     tone = ''playful'', generateVoiceover = False\<rparr>"

definition start :: "Script \<Rightarrow> Script state" where
  "start w =
    \<lparr>app = \<lparr>isLoading = False, progress = idle, error = None, result = None,
            apiKeySelected = Some True\<rparr>,
     world = w, trace = []\<rparr>"

text \<open>
  Scripts: a frame rejected once and then accepted, with a job that is pending twice; three
  rejections; a pass at the first attempt; a provider that does not know the job; and a
  validation that is refused for quota.
\<close>

definition retryScript :: Script where
  "retryScript = \<lparr>verdictScript = [rejected ''feet cut off'', accepted],
     jobScript = [pending, pending, finished]\<rparr>"

definition exhaustScript :: Script where
  "exhaustScript = \<lparr>verdictScript = [rejected ''feet cut off'', rejected ''hand warped'',
     rejected ''logo blurred''], jobScript = [finished]\<rparr>"

definition passScript :: Script where
  "passScript = \<lparr>verdictScript = [accepted], jobScript = [finished]\<rparr>"

definition noJobScript :: Script where
  "noJobScript = \<lparr>verdictScript = [accepted], jobScript = []\<rparr>"

definition quotaScript :: Script where
  "quotaScript = \<lparr>verdictScript = [], jobScript = [finished]\<rparr>"

definition unreadableBrief :: UserInput where
  "unreadableBrief = brief\<lparr>productImage := Some \<lparr>file_name = ''dress.png'',
     file_type = ''image/png'', file_content = []\<rparr>\<rparr>"

definition loading :: "Script \<Rightarrow> Script state" where
  "loading w = setResult None (setError None (setIsLoading True (start w)))"

text \<open>
  Three variants: a provider whose video job is done at once, whatever the script; one
  whose ad assets hold a single variation and a hashtag with its \<open>#\<close>; and a host whose key
  dialogue is broken.
\<close>

definition steadyEnv :: "Script env" where
  "steadyEnv = scriptedEnv\<lparr>generateVideos := (\<lambda>p f r w. (Inr finished, w))\<rparr>"

definition sloppyEnv :: "Script env" where
  "sloppyEnv = scriptedEnv\<lparr>assetsContent := (\<lambda>d c t w.
     (Inr \<lparr>adCopyVariations = [''Wear it''], hashtags_assets = [''#silk'']\<rparr>, w))\<rparr>"


text \<open>
  The states in which these runs end, written out: the run of each script on the brief,
  the try block and the run on an unreadable file, the try block with an unknown job, and
  the video stage alone.
\<close>

definition retryFinal :: "Script state" where
  "retryFinal =
    \<lparr>app =
       \<lparr>isLoading = False, progress = \<lparr>step = 0, message = []\<rparr>, error = None,
          result =
            Some
             \<lparr>ad_title = ''Red'', ad_idea = ''Walk'',
                ad_description = ''Silk'', platform_out = ''TikTok'',
                aspect_ratio = ''9:16'', cta_line = ''Shop now'',
                tone_out = ''playful'',
                opening_frame_prompt =
                  ''Full body shot. IMPORTANT FIX: feet cut off'',
                opening_frame_image_url = ''data:image/jpeg;base64,IMG43'',
                veo_prompt = ''One continuous scene'',
                veo_video_url = ''blob:video/mp4'',
                qc_notes = ''QC passed on attempt 2.'',
                ad_copy_variations = [''Wear it'', ''Own it'', ''Love it''],
                hashtags =
                  [''silk'', ''dress'', ''summer'', ''red'', ''style''],
                voiceover_audio_url = None\<rparr>,
          apiKeySelected = Some True\<rparr>,
       world = \<lparr>verdictScript = [], jobScript = []\<rparr>,
       trace =
         [SetProgress \<lparr>step = 1, message = ''Analyzing images...''\<rparr>,
          ReadAsDataURL
           \<lparr>file_name = ''dress.png'', file_type = ''image/png'',
              file_content = [7]\<rparr>
           (Inr ''data:image/png;base64,QUJD''),
          AnalyzeContent \<lparr>base64 = ''QUJD'', mimeType = ''image/png''\<rparr>
           (Inr ''a red dress''),
          SetProgress \<lparr>step = 2, message = ''Generating ad concept...''\<rparr>,
          ConceptContent ''a red dress'' ''A red silk dress'' ''playful''
           (Inr \<lparr>adTitle = ''Red'', adIdea = ''Walk'',
                   adDescription = ''Silk'',
                   openingFramePrompt = ''Full body shot''\<rparr>),
          SetProgress
           \<lparr>step = 3,
              message = ''Generating opening frame (Attempt 1/3)...''\<rparr>,
          GenerateImages ''Full body shot'' Portrait_9_16
           (Inr (Some [''IMG14''])),
          SetProgress
           \<lparr>step = 4, message = ''Validating frame (Attempt 1/3)...''\<rparr>,
          ValidateContent \<lparr>base64 = ''IMG14'', mimeType = ''image/jpeg''\<rparr>
           (Inr \<lparr>isValid = False, suggestion = ''feet cut off''\<rparr>),
          SetProgress
           \<lparr>step = 3,
              message = ''Generating opening frame (Attempt 2/3)...''\<rparr>,
          GenerateImages ''Full body shot. IMPORTANT FIX: feet cut off''
           Portrait_9_16 (Inr (Some [''IMG43''])),
          SetProgress
           \<lparr>step = 4, message = ''Validating frame (Attempt 2/3)...''\<rparr>,
          ValidateContent \<lparr>base64 = ''IMG43'', mimeType = ''image/jpeg''\<rparr>
           (Inr \<lparr>isValid = True, suggestion = []\<rparr>),
          SetProgress \<lparr>step = 5, message = ''Writing video script...''\<rparr>,
          DirectorContent
           \<lparr>adTitle = ''Red'', adIdea = ''Walk'', adDescription = ''Silk'',
              openingFramePrompt =
                ''Full body shot. IMPORTANT FIX: feet cut off''\<rparr>
           \<lparr>productImage =
              Some
               \<lparr>file_name = ''dress.png'', file_type = ''image/png'',
                  file_content = [7]\<rparr>,
              actorImage = None, productDescription = ''A red silk dress'',
              cta = ''Shop now'', platform = TikTok,
              aspectRatio = Portrait_9_16, videoLength = 8,
              tone = ''playful'', generateVoiceover = False\<rparr>
           (Inr ''One continuous scene''),
          SetProgress
           \<lparr>step = 6,
              message =
                ''Generating video (this may take a few minutes)...''\<rparr>,
          SetProgress
           \<lparr>step = 6, message = ''Starting video generation with Veo...''\<rparr>,
          GenerateVideos ''One continuous scene''
           \<lparr>base64 = ''IMG43'', mimeType = ''image/jpeg''\<rparr> Portrait_9_16
           (Inr \<lparr>op_name = ''job'', op_done = False, op_error = None,
                   op_videoUri = None\<rparr>),
          SetProgress
           \<lparr>step = 6,
              message =
                ''Video processing initiated. This can take several minutes. Polling for status...''\<rparr>,
          Sleep 10000,
          SetProgress
           \<lparr>step = 6,
              message = ''Polling for video status (Attempt #1)...''\<rparr>,
          GetVideosOperation
           \<lparr>op_name = ''job'', op_done = False, op_error = None,
              op_videoUri = None\<rparr>
           (Inr \<lparr>op_name = ''job'', op_done = False, op_error = None,
                   op_videoUri = None\<rparr>),
          Sleep 10000,
          SetProgress
           \<lparr>step = 6,
              message = ''Polling for video status (Attempt #2)...''\<rparr>,
          GetVideosOperation
           \<lparr>op_name = ''job'', op_done = False, op_error = None,
              op_videoUri = None\<rparr>
           (Inr \<lparr>op_name = ''job'', op_done = True, op_error = None,
                   op_videoUri = Some ''https://video''\<rparr>),
          SetProgress
           \<lparr>step = 6,
              message =
                ''Video generated successfully! Fetching video data...''\<rparr>,
          Fetch ''https://video&key=KEY''
           (Inr \<lparr>resp_ok = True, resp_statusText = ''OK'',
                   resp_blob =
                     Inr \<lparr>blob_bytes = [0, 1], blob_type = ''video/mp4''\<rparr>\<rparr>),
          CreateObjectURL \<lparr>blob_bytes = [0, 1], blob_type = ''video/mp4''\<rparr>
           ''blob:video/mp4'',
          SetProgress \<lparr>step = 8, message = ''Generating ad assets...''\<rparr>,
          AssetsContent ''A red silk dress'' ''Shop now'' ''playful''
           (Inr \<lparr>adCopyVariations = [''Wear it'', ''Own it'', ''Love it''],
                   hashtags_assets =
                     [''silk'', ''dress'', ''summer'', ''red'', ''style'']\<rparr>),
          SetProgress \<lparr>step = 0, message = []\<rparr>]\<rparr>"

definition exhaustFinal :: "Script state" where
  "exhaustFinal =
    \<lparr>app =
       \<lparr>isLoading = False, progress = \<lparr>step = 0, message = []\<rparr>, error = None,
          result =
            Some
             \<lparr>ad_title = ''Red'', ad_idea = ''Walk'',
                ad_description = ''Silk'', platform_out = ''TikTok'',
                aspect_ratio = ''9:16'', cta_line = ''Shop now'',
                tone_out = ''playful'',
                opening_frame_prompt =
                  ''Full body shot. IMPORTANT FIX: feet cut off. IMPORTANT FIX: hand warped. IMPORTANT FIX: logo blurred'',
                opening_frame_image_url = ''data:image/jpeg;base64,IMG71'',
                veo_prompt = ''One continuous scene'',
                veo_video_url = ''blob:video/mp4'',
                qc_notes =
                  ''QC failed after 3 attempts. Using best available image. Final issue: logo blurred'',
                ad_copy_variations = [''Wear it'', ''Own it'', ''Love it''],
                hashtags =
                  [''silk'', ''dress'', ''summer'', ''red'', ''style''],
                voiceover_audio_url = None\<rparr>,
          apiKeySelected = Some True\<rparr>,
       world = \<lparr>verdictScript = [], jobScript = []\<rparr>,
       trace =
         [SetProgress \<lparr>step = 1, message = ''Analyzing images...''\<rparr>,
          ReadAsDataURL
           \<lparr>file_name = ''dress.png'', file_type = ''image/png'',
              file_content = [7]\<rparr>
           (Inr ''data:image/png;base64,QUJD''),
          AnalyzeContent \<lparr>base64 = ''QUJD'', mimeType = ''image/png''\<rparr>
           (Inr ''a red dress''),
          SetProgress \<lparr>step = 2, message = ''Generating ad concept...''\<rparr>,
          ConceptContent ''a red dress'' ''A red silk dress'' ''playful''
           (Inr \<lparr>adTitle = ''Red'', adIdea = ''Walk'',
                   adDescription = ''Silk'',
                   openingFramePrompt = ''Full body shot''\<rparr>),
          SetProgress
           \<lparr>step = 3,
              message = ''Generating opening frame (Attempt 1/3)...''\<rparr>,
          GenerateImages ''Full body shot'' Portrait_9_16
           (Inr (Some [''IMG14''])),
          SetProgress
           \<lparr>step = 4, message = ''Validating frame (Attempt 1/3)...''\<rparr>,
          ValidateContent \<lparr>base64 = ''IMG14'', mimeType = ''image/jpeg''\<rparr>
           (Inr \<lparr>isValid = False, suggestion = ''feet cut off''\<rparr>),
          SetProgress
           \<lparr>step = 3,
              message = ''Generating opening frame (Attempt 2/3)...''\<rparr>,
          GenerateImages ''Full body shot. IMPORTANT FIX: feet cut off''
           Portrait_9_16 (Inr (Some [''IMG43''])),
          SetProgress
           \<lparr>step = 4, message = ''Validating frame (Attempt 2/3)...''\<rparr>,
          ValidateContent \<lparr>base64 = ''IMG43'', mimeType = ''image/jpeg''\<rparr>
           (Inr \<lparr>isValid = False, suggestion = ''hand warped''\<rparr>),
          SetProgress
           \<lparr>step = 3,
              message = ''Generating opening frame (Attempt 3/3)...''\<rparr>,
          GenerateImages
           ''Full body shot. IMPORTANT FIX: feet cut off. IMPORTANT FIX: hand warped''
           Portrait_9_16 (Inr (Some [''IMG71''])),
          SetProgress
           \<lparr>step = 4, message = ''Validating frame (Attempt 3/3)...''\<rparr>,
          ValidateContent \<lparr>base64 = ''IMG71'', mimeType = ''image/jpeg''\<rparr>
           (Inr \<lparr>isValid = False, suggestion = ''logo blurred''\<rparr>),
          SetProgress \<lparr>step = 5, message = ''Writing video script...''\<rparr>,
          DirectorContent
           \<lparr>adTitle = ''Red'', adIdea = ''Walk'', adDescription = ''Silk'',
              openingFramePrompt =
                ''Full body shot. IMPORTANT FIX: feet cut off. IMPORTANT FIX: hand warped. IMPORTANT FIX: logo blurred''\<rparr>
           \<lparr>productImage =
              Some
               \<lparr>file_name = ''dress.png'', file_type = ''image/png'',
                  file_content = [7]\<rparr>,
              actorImage = None, productDescription = ''A red silk dress'',
              cta = ''Shop now'', platform = TikTok,
              aspectRatio = Portrait_9_16, videoLength = 8,
              tone = ''playful'', generateVoiceover = False\<rparr>
           (Inr ''One continuous scene''),
          SetProgress
           \<lparr>step = 6,
              message =
                ''Generating video (this may take a few minutes)...''\<rparr>,
          SetProgress
           \<lparr>step = 6, message = ''Starting video generation with Veo...''\<rparr>,
          GenerateVideos ''One continuous scene''
           \<lparr>base64 = ''IMG71'', mimeType = ''image/jpeg''\<rparr> Portrait_9_16
           (Inr \<lparr>op_name = ''job'', op_done = True, op_error = None,
                   op_videoUri = Some ''https://video''\<rparr>),
          SetProgress
           \<lparr>step = 6,
              message =
                ''Video processing initiated. This can take several minutes. Polling for status...''\<rparr>,
          SetProgress
           \<lparr>step = 6,
              message =
                ''Video generated successfully! Fetching video data...''\<rparr>,
          Fetch ''https://video&key=KEY''
           (Inr \<lparr>resp_ok = True, resp_statusText = ''OK'',
                   resp_blob =
                     Inr \<lparr>blob_bytes = [0, 1], blob_type = ''video/mp4''\<rparr>\<rparr>),
          CreateObjectURL \<lparr>blob_bytes = [0, 1], blob_type = ''video/mp4''\<rparr>
           ''blob:video/mp4'',
          SetProgress \<lparr>step = 8, message = ''Generating ad assets...''\<rparr>,
          AssetsContent ''A red silk dress'' ''Shop now'' ''playful''
           (Inr \<lparr>adCopyVariations = [''Wear it'', ''Own it'', ''Love it''],
                   hashtags_assets =
                     [''silk'', ''dress'', ''summer'', ''red'', ''style'']\<rparr>),
          SetProgress \<lparr>step = 0, message = []\<rparr>]\<rparr>"

definition passFinal :: "Script state" where
  "passFinal =
    \<lparr>app =
       \<lparr>isLoading = False, progress = \<lparr>step = 0, message = []\<rparr>, error = None,
          result =
            Some
             \<lparr>ad_title = ''Red'', ad_idea = ''Walk'',
                ad_description = ''Silk'', platform_out = ''TikTok'',
                aspect_ratio = ''9:16'', cta_line = ''Shop now'',
                tone_out = ''playful'',
                opening_frame_prompt = ''Full body shot'',
                opening_frame_image_url = ''data:image/jpeg;base64,IMG14'',
                veo_prompt = ''One continuous scene'',
                veo_video_url = ''blob:video/mp4'',
                qc_notes = ''QC passed on first attempt.'',
                ad_copy_variations = [''Wear it'', ''Own it'', ''Love it''],
                hashtags =
                  [''silk'', ''dress'', ''summer'', ''red'', ''style''],
                voiceover_audio_url = None\<rparr>,
          apiKeySelected = Some True\<rparr>,
       world = \<lparr>verdictScript = [], jobScript = []\<rparr>,
       trace =
         [SetProgress \<lparr>step = 1, message = ''Analyzing images...''\<rparr>,
          ReadAsDataURL
           \<lparr>file_name = ''dress.png'', file_type = ''image/png'',
              file_content = [7]\<rparr>
           (Inr ''data:image/png;base64,QUJD''),
          AnalyzeContent \<lparr>base64 = ''QUJD'', mimeType = ''image/png''\<rparr>
           (Inr ''a red dress''),
          SetProgress \<lparr>step = 2, message = ''Generating ad concept...''\<rparr>,
          ConceptContent ''a red dress'' ''A red silk dress'' ''playful''
           (Inr \<lparr>adTitle = ''Red'', adIdea = ''Walk'',
                   adDescription = ''Silk'',
                   openingFramePrompt = ''Full body shot''\<rparr>),
          SetProgress
           \<lparr>step = 3,
              message = ''Generating opening frame (Attempt 1/3)...''\<rparr>,
          GenerateImages ''Full body shot'' Portrait_9_16
           (Inr (Some [''IMG14''])),
          SetProgress
           \<lparr>step = 4, message = ''Validating frame (Attempt 1/3)...''\<rparr>,
          ValidateContent \<lparr>base64 = ''IMG14'', mimeType = ''image/jpeg''\<rparr>
           (Inr \<lparr>isValid = True, suggestion = []\<rparr>),
          SetProgress \<lparr>step = 5, message = ''Writing video script...''\<rparr>,
          DirectorContent
           \<lparr>adTitle = ''Red'', adIdea = ''Walk'', adDescription = ''Silk'',
              openingFramePrompt = ''Full body shot''\<rparr>
           \<lparr>productImage =
              Some
               \<lparr>file_name = ''dress.png'', file_type = ''image/png'',
                  file_content = [7]\<rparr>,
              actorImage = None, productDescription = ''A red silk dress'',
              cta = ''Shop now'', platform = TikTok,
              aspectRatio = Portrait_9_16, videoLength = 8,
              tone = ''playful'', generateVoiceover = False\<rparr>
           (Inr ''One continuous scene''),
          SetProgress
           \<lparr>step = 6,
              message =
                ''Generating video (this may take a few minutes)...''\<rparr>,
          SetProgress
           \<lparr>step = 6, message = ''Starting video generation with Veo...''\<rparr>,
          GenerateVideos ''One continuous scene''
           \<lparr>base64 = ''IMG14'', mimeType = ''image/jpeg''\<rparr> Portrait_9_16
           (Inr \<lparr>op_name = ''job'', op_done = True, op_error = None,
                   op_videoUri = Some ''https://video''\<rparr>),
          SetProgress
           \<lparr>step = 6,
              message =
                ''Video processing initiated. This can take several minutes. Polling for status...''\<rparr>,
          SetProgress
           \<lparr>step = 6,
              message =
                ''Video generated successfully! Fetching video data...''\<rparr>,
          Fetch ''https://video&key=KEY''
           (Inr \<lparr>resp_ok = True, resp_statusText = ''OK'',
                   resp_blob =
                     Inr \<lparr>blob_bytes = [0, 1], blob_type = ''video/mp4''\<rparr>\<rparr>),
          CreateObjectURL \<lparr>blob_bytes = [0, 1], blob_type = ''video/mp4''\<rparr>
           ''blob:video/mp4'',
          SetProgress \<lparr>step = 8, message = ''Generating ad assets...''\<rparr>,
          AssetsContent ''A red silk dress'' ''Shop now'' ''playful''
           (Inr \<lparr>adCopyVariations = [''Wear it'', ''Own it'', ''Love it''],
                   hashtags_assets =
                     [''silk'', ''dress'', ''summer'', ''red'', ''style'']\<rparr>),
          SetProgress \<lparr>step = 0, message = []\<rparr>]\<rparr>"

definition noJobFailed :: "Script state" where
  "noJobFailed =
    \<lparr>app =
       \<lparr>isLoading = True,
          progress =
            \<lparr>step = 6, message = ''Starting video generation with Veo...''\<rparr>,
          error = None, result = None, apiKeySelected = Some True\<rparr>,
       world = \<lparr>verdictScript = [], jobScript = []\<rparr>,
       trace =
         [SetProgress \<lparr>step = 1, message = ''Analyzing images...''\<rparr>,
          ReadAsDataURL
           \<lparr>file_name = ''dress.png'', file_type = ''image/png'',
              file_content = [7]\<rparr>
           (Inr ''data:image/png;base64,QUJD''),
          AnalyzeContent \<lparr>base64 = ''QUJD'', mimeType = ''image/png''\<rparr>
           (Inr ''a red dress''),
          SetProgress \<lparr>step = 2, message = ''Generating ad concept...''\<rparr>,
          ConceptContent ''a red dress'' ''A red silk dress'' ''playful''
           (Inr \<lparr>adTitle = ''Red'', adIdea = ''Walk'',
                   adDescription = ''Silk'',
                   openingFramePrompt = ''Full body shot''\<rparr>),
          SetProgress
           \<lparr>step = 3,
              message = ''Generating opening frame (Attempt 1/3)...''\<rparr>,
          GenerateImages ''Full body shot'' Portrait_9_16
           (Inr (Some [''IMG14''])),
          SetProgress
           \<lparr>step = 4, message = ''Validating frame (Attempt 1/3)...''\<rparr>,
          ValidateContent \<lparr>base64 = ''IMG14'', mimeType = ''image/jpeg''\<rparr>
           (Inr \<lparr>isValid = True, suggestion = []\<rparr>),
          SetProgress \<lparr>step = 5, message = ''Writing video script...''\<rparr>,
          DirectorContent
           \<lparr>adTitle = ''Red'', adIdea = ''Walk'', adDescription = ''Silk'',
              openingFramePrompt = ''Full body shot''\<rparr>
           \<lparr>productImage =
              Some
               \<lparr>file_name = ''dress.png'', file_type = ''image/png'',
                  file_content = [7]\<rparr>,
              actorImage = None, productDescription = ''A red silk dress'',
              cta = ''Shop now'', platform = TikTok,
              aspectRatio = Portrait_9_16, videoLength = 8,
              tone = ''playful'', generateVoiceover = False\<rparr>
           (Inr ''One continuous scene''),
          SetProgress
           \<lparr>step = 6,
              message =
                ''Generating video (this may take a few minutes)...''\<rparr>,
          SetProgress
           \<lparr>step = 6, message = ''Starting video generation with Veo...''\<rparr>,
          GenerateVideos ''One continuous scene''
           \<lparr>base64 = ''IMG14'', mimeType = ''image/jpeg''\<rparr> Portrait_9_16
           (Inl (Thrown (Some ''404: Requested entity was not found.'')))]\<rparr>"

definition unreadableFailed :: "Script state" where
  "unreadableFailed =
    \<lparr>app =
       \<lparr>isLoading = True,
          progress = \<lparr>step = 1, message = ''Analyzing images...''\<rparr>,
          error = None, result = None, apiKeySelected = Some True\<rparr>,
       world =
         \<lparr>verdictScript = [\<lparr>isValid = True, suggestion = []\<rparr>],
            jobScript =
              [\<lparr>op_name = ''job'', op_done = True, op_error = None,
                  op_videoUri = Some ''https://video''\<rparr>]\<rparr>,
       trace =
         [SetProgress \<lparr>step = 1, message = ''Analyzing images...''\<rparr>,
          ReadAsDataURL
           \<lparr>file_name = ''dress.png'', file_type = ''image/png'',
              file_content = []\<rparr>
           (Inl (Thrown None))]\<rparr>"

definition unreadableFinal :: "Script state" where
  "unreadableFinal =
    \<lparr>app =
       \<lparr>isLoading = False, progress = \<lparr>step = 0, message = []\<rparr>,
          error = Some ''An unknown error occurred.'', result = None,
          apiKeySelected = Some True\<rparr>,
       world =
         \<lparr>verdictScript = [\<lparr>isValid = True, suggestion = []\<rparr>],
            jobScript =
              [\<lparr>op_name = ''job'', op_done = True, op_error = None,
                  op_videoUri = Some ''https://video''\<rparr>]\<rparr>,
       trace =
         [SetProgress \<lparr>step = 1, message = ''Analyzing images...''\<rparr>,
          ReadAsDataURL
           \<lparr>file_name = ''dress.png'', file_type = ''image/png'',
              file_content = []\<rparr>
           (Inl (Thrown None)),
          SetProgress \<lparr>step = 0, message = []\<rparr>]\<rparr>"

definition videoFinal :: "Script state" where
  "videoFinal =
    \<lparr>app =
       \<lparr>isLoading = False,
          progress =
            \<lparr>step = 6,
               message =
                 ''Video generated successfully! Fetching video data...''\<rparr>,
          error = None, result = None, apiKeySelected = Some True\<rparr>,
       world =
         \<lparr>verdictScript =
            [\<lparr>isValid = False, suggestion = ''feet cut off''\<rparr>,
             \<lparr>isValid = True, suggestion = []\<rparr>],
            jobScript = []\<rparr>,
       trace =
         [SetProgress
           \<lparr>step = 6, message = ''Starting video generation with Veo...''\<rparr>,
          GenerateVideos ''One continuous scene''
           \<lparr>base64 = ''IMG14'', mimeType = ''image/jpeg''\<rparr> Portrait_9_16
           (Inr \<lparr>op_name = ''job'', op_done = False, op_error = None,
                   op_videoUri = None\<rparr>),
          SetProgress
           \<lparr>step = 6,
              message =
                ''Video processing initiated. This can take several minutes. Polling for status...''\<rparr>,
          Sleep 10000,
          SetProgress
           \<lparr>step = 6,
              message = ''Polling for video status (Attempt #1)...''\<rparr>,
          GetVideosOperation
           \<lparr>op_name = ''job'', op_done = False, op_error = None,
              op_videoUri = None\<rparr>
           (Inr \<lparr>op_name = ''job'', op_done = False, op_error = None,
                   op_videoUri = None\<rparr>),
          Sleep 10000,
          SetProgress
           \<lparr>step = 6,
              message = ''Polling for video status (Attempt #2)...''\<rparr>,
          GetVideosOperation
           \<lparr>op_name = ''job'', op_done = False, op_error = None,
              op_videoUri = None\<rparr>
           (Inr \<lparr>op_name = ''job'', op_done = True, op_error = None,
                   op_videoUri = Some ''https://video''\<rparr>),
          SetProgress
           \<lparr>step = 6,
              message =
                ''Video generated successfully! Fetching video data...''\<rparr>,
          Fetch ''https://video&key=KEY''
           (Inr \<lparr>resp_ok = True, resp_statusText = ''OK'',
                   resp_blob =
                     Inr \<lparr>blob_bytes = [0, 1], blob_type = ''video/mp4''\<rparr>\<rparr>),
          CreateObjectURL \<lparr>blob_bytes = [0, 1], blob_type = ''video/mp4''\<rparr>
           ''blob:video/mp4'']\<rparr>"


text \<open>
  The run of three rejections with the video job done at once: the state after the first
  stage, and the variables and the state with which the retry loop returns.
\<close>

definition exhaustAnalysed :: "Script state" where
  "exhaustAnalysed =
    \<lparr>app =
     \<lparr>isLoading = True,
        progress = \<lparr>step = 2, message = ''Generating ad concept...''\<rparr>,
        error = None, result = None, apiKeySelected = Some True\<rparr>,
     world =
       \<lparr>verdictScript =
          [\<lparr>isValid = False, suggestion = ''feet cut off''\<rparr>,
           \<lparr>isValid = False, suggestion = ''hand warped''\<rparr>,
           \<lparr>isValid = False, suggestion = ''logo blurred''\<rparr>],
          jobScript =
            [\<lparr>op_name = ''job'', op_done = True, op_error = None,
                op_videoUri = Some ''https://video''\<rparr>]\<rparr>,
     trace =
       [SetProgress \<lparr>step = 1, message = ''Analyzing images...''\<rparr>,
        ReadAsDataURL
         \<lparr>file_name = ''dress.png'', file_type = ''image/png'',
            file_content = [7]\<rparr>
         (Inr ''data:image/png;base64,QUJD''),
        AnalyzeContent \<lparr>base64 = ''QUJD'', mimeType = ''image/png''\<rparr>
         (Inr ''a red dress''),
        SetProgress \<lparr>step = 2, message = ''Generating ad concept...''\<rparr>,
        ConceptContent ''a red dress'' ''A red silk dress'' ''playful''
         (Inr \<lparr>adTitle = ''Red'', adIdea = ''Walk'',
                 adDescription = ''Silk'',
                 openingFramePrompt = ''Full body shot''\<rparr>)]\<rparr>"

definition exhaustVars :: LoopVars where
  "exhaustVars =
    \<lparr>concept =
     \<lparr>adTitle = ''Red'', adIdea = ''Walk'', adDescription = ''Silk'',
        openingFramePrompt =
          ''Full body shot. IMPORTANT FIX: feet cut off. IMPORTANT FIX: hand warped. IMPORTANT FIX: logo blurred''\<rparr>,
     openingFrameData =
       Some \<lparr>base64 = ''IMG71'', mimeType = ''image/jpeg''\<rparr>,
     qcNotes =
       ''QC failed after 3 attempts. Using best available image. Final issue: logo blurred''\<rparr>"

definition exhaustLoopExit :: "Script state" where
  "exhaustLoopExit =
    \<lparr>app =
     \<lparr>isLoading = True,
        progress =
          \<lparr>step = 4, message = ''Validating frame (Attempt 3/3)...''\<rparr>,
        error = None, result = None, apiKeySelected = Some True\<rparr>,
     world =
       \<lparr>verdictScript = [],
          jobScript =
            [\<lparr>op_name = ''job'', op_done = True, op_error = None,
                op_videoUri = Some ''https://video''\<rparr>]\<rparr>,
     trace =
       [SetProgress \<lparr>step = 1, message = ''Analyzing images...''\<rparr>,
        ReadAsDataURL
         \<lparr>file_name = ''dress.png'', file_type = ''image/png'',
            file_content = [7]\<rparr>
         (Inr ''data:image/png;base64,QUJD''),
        AnalyzeContent \<lparr>base64 = ''QUJD'', mimeType = ''image/png''\<rparr>
         (Inr ''a red dress''),
        SetProgress \<lparr>step = 2, message = ''Generating ad concept...''\<rparr>,
        ConceptContent ''a red dress'' ''A red silk dress'' ''playful''
         (Inr \<lparr>adTitle = ''Red'', adIdea = ''Walk'',
                 adDescription = ''Silk'',
                 openingFramePrompt = ''Full body shot''\<rparr>),
        SetProgress
         \<lparr>step = 3, message = ''Generating opening frame (Attempt 1/3)...''\<rparr>,
        GenerateImages ''Full body shot'' Portrait_9_16
         (Inr (Some [''IMG14''])),
        SetProgress
         \<lparr>step = 4, message = ''Validating frame (Attempt 1/3)...''\<rparr>,
        ValidateContent \<lparr>base64 = ''IMG14'', mimeType = ''image/jpeg''\<rparr>
         (Inr \<lparr>isValid = False, suggestion = ''feet cut off''\<rparr>),
        SetProgress
         \<lparr>step = 3, message = ''Generating opening frame (Attempt 2/3)...''\<rparr>,
        GenerateImages ''Full body shot. IMPORTANT FIX: feet cut off''
         Portrait_9_16 (Inr (Some [''IMG43''])),
        SetProgress
         \<lparr>step = 4, message = ''Validating frame (Attempt 2/3)...''\<rparr>,
        ValidateContent \<lparr>base64 = ''IMG43'', mimeType = ''image/jpeg''\<rparr>
         (Inr \<lparr>isValid = False, suggestion = ''hand warped''\<rparr>),
        SetProgress
         \<lparr>step = 3, message = ''Generating opening frame (Attempt 3/3)...''\<rparr>,
        GenerateImages
         ''Full body shot. IMPORTANT FIX: feet cut off. IMPORTANT FIX: hand warped''
         Portrait_9_16 (Inr (Some [''IMG71''])),
        SetProgress
         \<lparr>step = 4, message = ''Validating frame (Attempt 3/3)...''\<rparr>,
        ValidateContent \<lparr>base64 = ''IMG71'', mimeType = ''image/jpeg''\<rparr>
         (Inr \<lparr>isValid = False, suggestion = ''logo blurred''\<rparr>)]\<rparr>"

section \<open>Verification\<close>

subsection \<open>The header as an explicit byte list\<close>

lemma le32_mod: "v mod 256 + 256 * (v div 256 mod 256) + 65536 * (v div 65536 mod 256)
    + 16777216 * (v div 16777216 mod 256) = v mod 4294967296" for v :: nat
proof -
  have a: "v mod 4294967296 = 256 * (v div 256 mod 16777216) + v mod 256"
    using mod_mult2_eq [of v 256 16777216] by simp
  have b: "v div 256 mod 16777216 = 256 * (v div 256 div 256 mod 65536) + v div 256 mod 256"
    using mod_mult2_eq [of "v div 256" 256 65536] by simp
  have c: "v div 256 div 256 mod 65536
      = 256 * (v div 256 div 256 div 256 mod 256) + v div 256 div 256 mod 256"
    using mod_mult2_eq [of "v div 256 div 256" 256 256] by simp
  have d: "v div 256 div 256 = v div 65536" "v div 256 div 256 div 256 = v div 16777216"
    by (simp_all add: div_mult2_eq [symmetric])
  show ?thesis using a b c d by simp
qed

lemma le16_mod: "v mod 256 + 256 * (v div 256 mod 256) = v mod 65536" for v :: nat
  using mod_mult2_eq [of v 256 256] by simp

lemma list_update_numeral: "(x # xs)[numeral k := y] = x # xs[pred_numeral k := y]"
  by (simp add: numeral_eq_Suc)

lemma replicate_numeral_Cons: "replicate (numeral k) x = x # replicate (pred_numeral k) x"
  by (simp add: numeral_eq_Suc)

lemma getWavHeader_bytes:
  "getWavHeader n sr ch bits =
    [82, 73, 70, 70,
     of_nat (36 + n), of_nat ((36 + n) div 256), of_nat ((36 + n) div 65536),
     of_nat ((36 + n) div 16777216),
     87, 65, 86, 69, 102, 109, 116, 32,
     16, 0, 0, 0, 1, 0,
     of_nat ch, of_nat (ch div 256),
     of_nat sr, of_nat (sr div 256), of_nat (sr div 65536), of_nat (sr div 16777216),
     of_nat (sr * ch * bits div 8), of_nat (sr * ch * bits div 8 div 256),
     of_nat (sr * ch * bits div 8 div 65536), of_nat (sr * ch * bits div 8 div 16777216),
     of_nat (ch * bits div 8), of_nat (ch * bits div 8 div 256),
     of_nat bits, of_nat (bits div 256),
     100, 97, 116, 97,
     of_nat n, of_nat (n div 256), of_nat (n div 65536), of_nat (n div 16777216)]"
  by (simp add: getWavHeader_def setUint8_def setUint16_def setUint32_def charCodeAt0_def
      list_update_numeral replicate_numeral_Cons Let_def)

lemma length_getWavHeader: "length (getWavHeader n sr ch bits) = 44"
  by (simp add: getWavHeader_bytes)

lemma wavBytes_append:
  "wavBytes audioBytes = getWavHeader (length audioBytes) 24000 1 16 @ audioBytes"
  by (simp add: wavBytes_def u8set_def length_getWavHeader)

lemma getUint32_le:
  assumes "buf ! off = of_nat v" "buf ! (off + 1) = of_nat (v div 256)"
    "buf ! (off + 2) = of_nat (v div 65536)" "buf ! (off + 3) = of_nat (v div 16777216)"
  shows "getUint32 buf off = v mod 4294967296"
  unfolding getUint32_def assms using le32_mod [of v] by (simp add: unat_of_nat)

lemma wavBytes_riffSize: "getUint32 (wavBytes bs) 4 = (36 + length bs) mod 4294967296"
  by (rule getUint32_le) (simp_all add: wavBytes_append getWavHeader_bytes)

lemma wavBytes_dataSize: "getUint32 (wavBytes bs) 40 = length bs mod 4294967296"
  by (rule getUint32_le) (simp_all add: wavBytes_append getWavHeader_bytes)

lemma wavBytes_fixed:
  "getUint16 (wavBytes bs) 20 = 1" "getUint32 (wavBytes bs) 16 = 16"
  "getUint16 (wavBytes bs) 22 = 1" "getUint32 (wavBytes bs) 24 = 24000"
  "getUint32 (wavBytes bs) 28 = 48000" "getUint16 (wavBytes bs) 32 = 2"
  "getUint16 (wavBytes bs) 34 = 16"
  by (simp_all add: wavBytes_append getWavHeader_bytes getUint16_def getUint32_def)

lemma wavBytes_markers:
  "take 4 (wavBytes bs) = ascii ''RIFF''" "take 4 (drop 8 (wavBytes bs)) = ascii ''WAVE''"
  "take 4 (drop 12 (wavBytes bs)) = ascii ''fmt ''"
  "take 4 (drop 36 (wavBytes bs)) = ascii ''data''"
  "drop 44 (wavBytes bs) = bs" "length (wavBytes bs) = 44 + length bs"
  by (simp_all add: wavBytes_append getWavHeader_bytes ascii_def charCodeAt0_def)

lemma wavBytes_layout:
  assumes "36 + length audioBytes < 4294967296"
  shows "length (wavBytes audioBytes) = 44 + length audioBytes"
    "getUint32 (wavBytes audioBytes) 4 = 36 + length audioBytes"
    "getUint32 (wavBytes audioBytes) 40 = length audioBytes"
    "getUint16 (wavBytes audioBytes) 20 = 1"
    "take 4 (wavBytes audioBytes) = ascii ''RIFF''"
    "take 4 (drop 8 (wavBytes audioBytes)) = ascii ''WAVE''"
    "take 4 (drop 12 (wavBytes audioBytes)) = ascii ''fmt ''"
    "getUint32 (wavBytes audioBytes) 16 = 16"
    "getUint16 (wavBytes audioBytes) 22 = 1"
    "getUint32 (wavBytes audioBytes) 24 = 24000"
    "getUint32 (wavBytes audioBytes) 28 = 48000"
    "getUint16 (wavBytes audioBytes) 32 = 2"
    "getUint16 (wavBytes audioBytes) 34 = 16"
    "take 4 (drop 36 (wavBytes audioBytes)) = ascii ''data''"
    "drop 44 (wavBytes audioBytes) = audioBytes"
  using assms
  by (simp_all add: wavBytes_riffSize wavBytes_dataSize wavBytes_fixed wavBytes_markers)

subsection \<open>Projections of a trace distribute over concatenation\<close>

lemma steps_append [simp]: "steps (xs @ ys) = steps xs @ steps ys"
  by (induction xs rule: steps.induct) simp_all

lemma framePrompts_append [simp]: "framePrompts (xs @ ys) = framePrompts xs @ framePrompts ys"
  by (induction xs rule: framePrompts.induct) simp_all

lemma validatedFrames_append [simp]:
  "validatedFrames (xs @ ys) = validatedFrames xs @ validatedFrames ys"
  by (induction xs rule: validatedFrames.induct) simp_all

lemma verdicts_append [simp]: "verdicts (xs @ ys) = verdicts xs @ verdicts ys"
  by (induction xs rule: verdicts.induct) simp_all

lemma concepts_append [simp]: "concepts (xs @ ys) = concepts xs @ concepts ys"
  by (induction xs rule: concepts.induct) simp_all

lemma assets_append [simp]: "assets (xs @ ys) = assets xs @ assets ys"
  by (induction xs rule: assets.induct) simp_all

lemma reports_append [simp]: "reports (xs @ ys) = reports xs @ reports ys"
  by (induction xs rule: reports.induct) simp_all

lemma rejections_append [simp]: "rejections (xs @ ys) = rejections xs @ rejections ys"
  by (simp add: rejections_def)

lemma ticks_append [simp]: "ticks (xs @ ys) = ticks xs @ ticks ys"
  by (simp add: ticks_def)

lemma noQc_append [simp]: "noQc (xs @ ys) \<longleftrightarrow> noQc xs \<and> noQc ys"
  by (auto simp: noQc_def)

lemma noQc_Nil [simp]: "noQc []"
  by (simp add: noQc_def)

lemma noQc_Cons [simp]: "noQc (e # es) \<longleftrightarrow> \<not> isFrameCall e \<and> \<not> isValidateCall e \<and> noQc es"
  by (auto simp: noQc_def)

lemma notFrame_framePrompts [simp]: "\<not> isFrameCall e \<Longrightarrow> framePrompts (e # es) = framePrompts es"
  by (cases e) simp_all

lemma notValidate_verdicts [simp]: "\<not> isValidateCall e \<Longrightarrow> verdicts (e # es) = verdicts es"
  by (cases e) simp_all

lemma notValidate_validatedFrames [simp]:
  "\<not> isValidateCall e \<Longrightarrow> validatedFrames (e # es) = validatedFrames es"
  by (cases e) simp_all

lemma notValidate_afterValid [simp]: "\<not> isValidateCall e \<Longrightarrow> afterValid (e # es) = afterValid es"
  by (cases e) simp_all

lemma frameCall_simps [simp]:
  assumes "isFrameCall f"
  shows "\<not> isValidateCall f" "steps (f # es) = steps es" "concepts (f # es) = concepts es"
    "assets (f # es) = assets es" "\<not> isProgress f"
  using assms by (cases f; simp)+

lemma noQc_projections:
  assumes "noQc evs"
  shows "framePrompts evs = []" "verdicts evs = []" "validatedFrames evs = []"
    "afterValid evs = []" "filter isFrameCall evs = []" "filter isValidateCall evs = []"
    "rejections evs = []"
  using assms by (induction evs) (simp_all add: rejections_def)

lemma afterValid_subset: "set (afterValid evs) \<subseteq> set evs"
  by (induction evs rule: afterValid.induct) auto

subsection \<open>Sequencing and the primitive effects\<close>

lemma bindE_cases:
  assumes "bindE m f s = (r, s')"
  obtains (throws) e where "m s = (Inl e, s')" "r = Inl e"
    | (returns) a s1 where "m s = (Inr a, s1)" "f a s1 = (r, s')"
  using assms by (auto simp: bindE_def split: prod.splits sum.splits)

lemma bindO_cases:
  assumes "bindO m f s = Some (r, s')"
  obtains (throws) e where "m s = Some (Inl e, s')" "r = Inl e"
    | (returns) a s1 where "m s = Some (Inr a, s1)" "f a s1 = Some (r, s')"
  using assms by (auto simp: bindO_def split: option.splits prod.splits sum.splits)

lemma getAiClient_cases:
  assumes "getAiClient P s = (r, s')"
  obtains (noClient) e where "r = Inl e" "s' = s"
    | (client) "r = Inr ()" "s' = s"
  using assms
  by (auto simp: getAiClient_def returnE_def throwE_def split: option.splits)

lemma emits_refl [simp]: "emits s s []"
  by (simp add: emits_def)

lemma emits_trans: "emits s s1 xs \<Longrightarrow> emits s1 s2 ys \<Longrightarrow> emits s s2 (xs @ ys)"
  by (simp add: emits_def)

lemma emits_call: "call f ev s = (r, s') \<Longrightarrow> emits s s' [ev r]"
  by (auto simp: call_def emits_def split: prod.splits)

lemma emits_updateProgress: "emits s (updateProgress n m s) [SetProgress \<lparr>step = n, message = m\<rparr>]"
  by (simp add: emits_def updateProgress_def setProgress_def)

lemma emits_emit: "emits s (emit e s) [e]"
  by (simp add: emits_def emit_def)

subsection \<open>The retry loop runs as \<open>qcRun\<close> describes\<close>

lemma generateImage_emits:
  assumes "generateImage P prompt ratio s = (r, s')"
  obtains (noClient) e where "r = Inl e" "s' = s"
    | (called) x where "emits s s' [GenerateImages prompt ratio x]"
  using assms unfolding generateImage_def
proof (cases rule: bindE_cases)
  case (throws e)
  from throws(1) have "s' = s" by (cases rule: getAiClient_cases) simp_all
  with throws(2) show ?thesis by (rule noClient)
next
  case (returns ai s0)
  from returns(1) have s0: "s0 = s" by (cases rule: getAiClient_cases) simp_all
  from returns(2) show ?thesis unfolding s0
  proof (cases rule: bindE_cases)
    case (throws e)
    from emits_call [OF throws(1)] show ?thesis by (rule called)
  next
    case (returns x s1)
    from returns(2) have "s' = s1"
      by (auto simp: throwE_def returnE_def split: option.splits list.splits)
    with emits_call [OF returns(1)] show ?thesis by (intro called) simp
  qed
qed

lemma generateOpeningFrameWithActor_emits:
  assumes "generateOpeningFrameWithActor P prompt a s = (r, s')"
  obtains (noClient) e where "r = Inl e" "s' = s"
    | (called) x where "emits s s' [ActorFrameContent prompt a x]"
  using assms unfolding generateOpeningFrameWithActor_def
proof (cases rule: bindE_cases)
  case (throws e)
  from throws(1) have "s' = s" by (cases rule: getAiClient_cases) simp_all
  with throws(2) show ?thesis by (rule noClient)
next
  case (returns ai s0)
  from returns(1) have s0: "s0 = s" by (cases rule: getAiClient_cases) simp_all
  from returns(2) show ?thesis unfolding s0
  proof (cases rule: bindE_cases)
    case (throws e)
    from emits_call [OF throws(1)] show ?thesis by (rule called)
  next
    case (returns x s1)
    from returns(2) have "s' = s1"
      by (auto simp: throwE_def returnE_def Let_def split: option.splits list.splits)
    with emits_call [OF returns(1)] show ?thesis by (intro called) simp
  qed
qed

lemma frame_emits:
  assumes "(case a of Some x \<Rightarrow> generateOpeningFrameWithActor P p x
            | None \<Rightarrow> bindE (generateImage P p ratio)
                (\<lambda>b. returnE \<lparr>base64 = b, mimeType = ''image/jpeg''\<rparr>)) s = (r, s')"
  obtains (noClient) e where "r = Inl e" "s' = s"
    | (called) f where "isFrameCall f" "framePrompts [f] = [p]" "emits s s' [f]"
proof (cases a)
  case None
  with assms obtain r1 where r1: "generateImage P p ratio s = (r1, s')"
    "r = map_sum id (\<lambda>b. \<lparr>base64 = b, mimeType = ''image/jpeg''\<rparr>) r1"
    by (auto elim!: bindE_cases simp: returnE_def)
  from r1(1) show ?thesis
  proof (cases rule: generateImage_emits)
    case (noClient e)
    with r1(2) show ?thesis by (intro that(1) [of e]) simp_all
  next
    case (called x)
    then show ?thesis by (intro that(2) [of "GenerateImages p ratio x"]) simp_all
  qed
next
  case (Some act)
  with assms have "generateOpeningFrameWithActor P p act s = (r, s')" by simp
  then show ?thesis
  proof (cases rule: generateOpeningFrameWithActor_emits)
    case (noClient e)
    then show ?thesis by (rule that(1))
  next
    case (called x)
    then show ?thesis by (intro that(2) [of "ActorFrameContent p act x"]) simp_all
  qed
qed

lemma validateImage_emits:
  assumes "validateImage P img s = (r, s')"
  obtains (noClient) e where "r = Inl e" "s' = s"
    | (called) "emits s s' [ValidateContent img r]"
  using assms unfolding validateImage_def
proof (cases rule: bindE_cases)
  case (throws e)
  from throws(1) have "s' = s" by (cases rule: getAiClient_cases) simp_all
  with throws(2) show ?thesis by (rule noClient)
next
  case (returns ai s0)
  from returns(1) have s0: "s0 = s" by (cases rule: getAiClient_cases) simp_all
  from emits_call [OF returns(2) [unfolded s0]] show ?thesis by (rule called)
qed

lemma qcAttempt_cases:
  assumes "qcAttempt P d a i v s = (r, s')"
  obtains (noFrameClient) m3 e where "r = Inl e"
      "emits s s' [SetProgress \<lparr>step = 3, message = m3\<rparr>]"
    | (noFrame) f m3 e where "isFrameCall f"
      "framePrompts [f] = [openingFramePrompt (concept v)]" "r = Inl e"
      "emits s s' [SetProgress \<lparr>step = 3, message = m3\<rparr>, f]"
    | (noVerdictClient) f m3 m4 e where "isFrameCall f"
      "framePrompts [f] = [openingFramePrompt (concept v)]" "r = Inl e"
      "emits s s' [SetProgress \<lparr>step = 3, message = m3\<rparr>, f,
         SetProgress \<lparr>step = 4, message = m4\<rparr>]"
    | (validated) f m3 m4 img vr where "isFrameCall f"
      "framePrompts [f] = [openingFramePrompt (concept v)]"
      "r = map_sum id (qcVerdict i v img) vr"
      "emits s s' [SetProgress \<lparr>step = 3, message = m3\<rparr>, f,
         SetProgress \<lparr>step = 4, message = m4\<rparr>, ValidateContent img vr]"
proof -
  let ?m3 = "''Generating opening frame (Attempt '' @ showNat i @ ''/3)...''"
  let ?m4 = "''Validating frame (Attempt '' @ showNat i @ ''/3)...''"
  let ?s1 = "updateProgress 3 ?m3 s"
  have p3: "emits s ?s1 [SetProgress \<lparr>step = 3, message = ?m3\<rparr>]"
    by (rule emits_updateProgress)
  from assms show thesis unfolding qcAttempt_def
  proof (cases rule: bindE_cases)
    case (throws e)
    from throws(1) show thesis
    proof (cases rule: frame_emits)
      case (noClient e')
      with p3 throws(2) show thesis by (intro noFrameClient [of e ?m3]) simp_all
    next
      case (called f)
      from emits_trans [OF p3 called(3)]
      have "emits s s' [SetProgress \<lparr>step = 3, message = ?m3\<rparr>, f]" by simp
      with called(1,2) throws(2) show thesis by (rule noFrame)
    qed
  next
    case (returns img s2)
    from returns(1) obtain f where f: "isFrameCall f"
      "framePrompts [f] = [openingFramePrompt (concept v)]" "emits ?s1 s2 [f]"
      by (cases rule: frame_emits) simp_all
    let ?s3 = "updateProgress 4 ?m4 s2"
    have p4: "emits s2 ?s3 [SetProgress \<lparr>step = 4, message = ?m4\<rparr>]"
      by (rule emits_updateProgress)
    have upto4: "emits s ?s3 [SetProgress \<lparr>step = 3, message = ?m3\<rparr>, f,
        SetProgress \<lparr>step = 4, message = ?m4\<rparr>]"
      using emits_trans [OF emits_trans [OF p3 f(3)] p4] by simp
    from returns(2) show thesis
    proof (cases rule: bindE_cases)
      case (throws e)
      from throws(1) show thesis
      proof (cases rule: validateImage_emits)
        case (noClient e')
        with upto4 throws(2) f(1,2) show thesis
          by (intro noVerdictClient [of f e ?m3 ?m4]) simp_all
      next
        case called
        from emits_trans [OF upto4 called]
        have "emits s s' [SetProgress \<lparr>step = 3, message = ?m3\<rparr>, f,
            SetProgress \<lparr>step = 4, message = ?m4\<rparr>, ValidateContent img (Inl e)]"
          by simp
        moreover from throws(2) have "r = map_sum id (qcVerdict i v img) (Inl e)" by simp
        ultimately show thesis using f(1,2) by (intro validated)
      qed
    next
      case (returns res s4)
      from returns(2) have r: "r = map_sum id (qcVerdict i v img) (Inr res)" and "s' = s4"
        by (simp_all add: returnE_def)
      from returns(1) have "emits ?s3 s4 [ValidateContent img (Inr res)]"
        by (cases rule: validateImage_emits) simp_all
      with emits_trans [OF upto4 this] \<open>s' = s4\<close>
      have "emits s s' [SetProgress \<lparr>step = 3, message = ?m3\<rparr>, f,
          SetProgress \<lparr>step = 4, message = ?m4\<rparr>, ValidateContent img (Inr res)]"
        by simp
      with f(1,2) r show thesis by (intro validated)
    qed
  qed
qed

lemma qcLoop_run:
  assumes "qcLoop P d a i v s = (r, s')"
  shows "\<exists>evs. emits s s' evs \<and> qcRun i v evs r"
  using assms
proof (induction P d a i v s arbitrary: r s' rule: qcLoop.induct)
  case (1 P d a i v s)
  show ?case
  proof (cases "i \<le> 3")
    case False
    with "1.prems" have "r = Inr v" "s' = s"
      by (simp_all add: qcLoop.simps)
    with False show ?thesis
      by (intro exI [of _ "[]"]) (simp add: qcRun.exhausted)
  next
    case True
    obtain ra sa where att: "qcAttempt P d a i v s = (ra, sa)"
      by (cases "qcAttempt P d a i v s")
    from att show ?thesis
    proof (cases rule: qcAttempt_cases)
      case (noFrameClient m3 e)
      with "1.prems" True att have "r = Inl e" "s' = sa"
        by (simp_all add: qcLoop.simps)
      with noFrameClient True show ?thesis
        using qcRun.noFrameClient by blast
    next
      case (noFrame f m3 e)
      with "1.prems" True att have "r = Inl e" "s' = sa"
        by (simp_all add: qcLoop.simps)
      with noFrame True show ?thesis
        using qcRun.noFrame by blast
    next
      case (noVerdictClient f m3 m4 e)
      with "1.prems" True att have "r = Inl e" "s' = sa"
        by (simp_all add: qcLoop.simps)
      with noVerdictClient True show ?thesis
        using qcRun.noVerdictClient by blast
    next
      case (validated f m3 m4 img vr)
      show ?thesis
      proof (cases vr)
        case (Inl e)
        with "1.prems" True att validated(3) have "r = Inl e" "s' = sa"
          by (simp_all add: qcLoop.simps)
        with validated Inl True show ?thesis
          using qcRun.noVerdict by blast
      next
        case (Inr res)
        show ?thesis
        proof (cases "qcVerdict i v img res")
          case (Break v')
          with "1.prems" True att validated(3) Inr have "r = Inr v'" "s' = sa"
            by (simp_all add: qcLoop.simps)
          with validated Inr True Break show ?thesis
            using qcRun.passed by blast
        next
          case (Continue v')
          with "1.prems" True att validated(3) Inr
          have rest: "qcLoop P d a (i + 1) v' sa = (r, s')"
            by (simp add: qcLoop.simps)
          have "\<exists>evs. emits sa s' evs \<and> qcRun (i + 1) v' evs r"
            using "1.IH" [OF True _ _ _ rest] att validated(3) Inr Continue by simp
          then obtain evs where evs: "emits sa s' evs" "qcRun (i + 1) v' evs r"
            by blast
          from emits_trans [OF validated(4) evs(1)]
            qcRun.retry [OF True validated(1,2) Continue evs(2)] Inr
          show ?thesis by blast
        qed
      qed
    qed
  qed
qed

subsection \<open>The polling loop runs as \<open>pollRun\<close> describes\<close>

lemma pollStep_emits:
  assumes "call (getVideosOperation P operation) (GetVideosOperation operation)
      (updateProgress 6 (''Polling for video status (Attempt #'' @ showNat k @ '')...'')
         (emit (Sleep POLLING_INTERVAL) s)) = (rc, sc)"
  shows "emits s sc (pollTick k @ [GetVideosOperation operation rc])"
  using emits_trans [OF emits_trans [OF emits_emit emits_updateProgress] emits_call [OF assms]]
  by (simp add: pollTick_def)

lemma pollLoop_run_aux:
  assumes "pollLoop P onP operation k s = Some y"
  shows "onP = updateProgress 6
    \<longrightarrow> (\<exists>evs. emits s (snd y) evs \<and> pollRun k operation evs (fst y))"
proof -
  let ?Q = "\<lambda>x y. snd (fst (fst (fst x))) = updateProgress 6
    \<longrightarrow> (\<exists>evs. emits (snd x) (snd y) evs
          \<and> pollRun (snd (fst x)) (snd (fst (fst x))) evs (fst y))"
  have "?Q ((((P, onP), operation), k), s) y"
  proof (rule pollLoop.raw_induct [where Pa = ?Q, OF _ assms])
    fix loop P onP operation k s y
    assume IH: "\<And>P onP operation k s y. loop P onP operation k s = Some y
        \<Longrightarrow> ?Q ((((P, onP), operation), k), s) y"
      and body: "(if \<not> op_done operation
         then case call (getVideosOperation P operation) (GetVideosOperation operation)
                (onP (''Polling for video status (Attempt #'' @ showNat k @ '')...'')
                   (emit (Sleep POLLING_INTERVAL) s)) of
              (Inl e, s') \<Rightarrow> Some (Inl e, s')
            | (Inr operation', s') \<Rightarrow> loop P onP operation' (k + 1) s'
         else Some (Inr operation, s)) = Some y"
    show "?Q ((((P, onP), operation), k), s) y"
    proof (simp, rule impI)
      assume onP: "onP = updateProgress 6"
      show "\<exists>evs. emits s (snd y) evs \<and> pollRun k operation evs (fst y)"
      proof (cases "op_done operation")
        case True
        with body have "y = (Inr operation, s)" by simp
        with True show ?thesis
          by (intro exI [of _ "[]"]) (simp add: pollRun.finished)
      next
        case False
        obtain rc sc where c: "call (getVideosOperation P operation)
            (GetVideosOperation operation)
            (updateProgress 6 (''Polling for video status (Attempt #'' @ showNat k @ '')...'')
              (emit (Sleep POLLING_INTERVAL) s)) = (rc, sc)"
          by (cases "call (getVideosOperation P operation) (GetVideosOperation operation)
            (updateProgress 6 (''Polling for video status (Attempt #'' @ showNat k @ '')...'')
              (emit (Sleep POLLING_INTERVAL) s))")
        note em = pollStep_emits [OF c]
        show ?thesis
        proof (cases rc)
          case (Inl e)
          with body False c onP have "y = (Inl e, sc)" by simp
          with em Inl False show ?thesis
            using pollRun.pollThrows by fastforce
        next
          case (Inr operation')
          with body False c onP have "loop P onP operation' (k + 1) sc = Some y" by simp
          from IH [OF this] onP
          obtain evs where evs: "emits sc (snd y) evs" "pollRun (k + 1) operation' evs (fst y)"
            by auto
          from emits_trans [OF em evs(1)] pollRun.pollAgain [OF False evs(2)] Inr
          show ?thesis by auto
        qed
      qed
    qed
  qed
  then show ?thesis by simp
qed

lemma pollLoop_run:
  assumes "pollLoop P (updateProgress 6) operation k s = Some (r, s')"
  shows "\<exists>evs. emits s s' evs \<and> pollRun k operation evs r"
  using pollLoop_run_aux [OF assms] by simp

subsection \<open>Events that the readings ignore\<close>

lemma silent_simps [simp]:
  assumes "silent e"
  shows "\<not> isFrameCall e" "\<not> isValidateCall e" "steps (e # es) = steps es"
    "concepts (e # es) = concepts es" "assets (e # es) = assets es"
    "reports (e # es) = reports es" "\<not> isTick e"
  using assms by (cases e; simp)+

lemma silent_quiet:
  assumes "\<forall>e \<in> set evs. silent e"
  shows "noQc evs" "steps evs = []" "concepts evs = []" "assets evs = []" "reports evs = []"
    "ticks evs = []"
  using assms by (induction evs) (simp_all add: ticks_def)

lemma quiet_silent: "\<forall>e \<in> set evs. silent e \<Longrightarrow> quiet lo hi evs"
  by (simp add: quiet_def silent_quiet)

lemma quiet_Nil [simp]: "quiet lo hi []"
  by (simp add: quiet_def)

lemma quiet_progress:
  "lo \<le> n \<Longrightarrow> n \<le> hi \<Longrightarrow> quiet lo hi [SetProgress \<lparr>step = n, message = m\<rparr>]"
  by (simp add: quiet_def)

lemma quiet_mono:
  assumes "quiet lo hi xs" "lo' \<le> lo" "hi \<le> hi'"
  shows "quiet lo' hi' xs"
  unfolding quiet_def
proof (intro conjI ballI)
  fix n assume "n \<in> set (steps xs)"
  with assms(1) have "lo \<le> n" "n \<le> hi" by (simp_all add: quiet_def)
  with assms(2,3) show "lo' \<le> n" "n \<le> hi'" by simp_all
qed (use assms(1) in \<open>simp_all add: quiet_def\<close>)

lemma quiet_append:
  assumes "quiet lo mid xs" "quiet mid hi ys" "lo \<le> mid" "mid \<le> hi"
  shows "quiet lo hi (xs @ ys)"
proof -
  have ord: "x \<le> y" if "x \<in> set (steps xs)" "y \<in> set (steps ys)" for x y
  proof -
    from that assms(1,2) have "x \<le> mid" "mid \<le> y" by (simp_all add: quiet_def)
    then show ?thesis by simp
  qed
  have bounds: "lo \<le> n \<and> n \<le> hi" if "n \<in> set (steps xs) \<union> set (steps ys)" for n
  proof -
    from that have "n \<in> set (steps xs) \<or> n \<in> set (steps ys)" by simp
    then show ?thesis
    proof
      assume "n \<in> set (steps xs)"
      with assms(1) have "lo \<le> n" "n \<le> mid" by (simp_all add: quiet_def)
      with assms(4) show ?thesis by simp
    next
      assume "n \<in> set (steps ys)"
      with assms(2) have "mid \<le> n" "n \<le> hi" by (simp_all add: quiet_def)
      with assms(3) show ?thesis by simp
    qed
  qed
  from assms(1,2) have "noQc (xs @ ys)" "concepts (xs @ ys) = []" "assets (xs @ ys) = []"
    "sorted (steps xs)" "sorted (steps ys)"
    by (simp_all add: quiet_def)
  with ord bounds show ?thesis
    by (simp add: quiet_def sorted_append)
qed

subsection \<open>Operations that emit only such events\<close>

lemma silently_intro:
  assumes "\<And>s r s'. m s = (r, s') \<Longrightarrow> \<exists>evs. emits s s' evs \<and> (\<forall>e \<in> set evs. silent e)"
  shows "silently m"
  using assms by (simp add: silently_def)

lemma silently_elim:
  assumes "silently m" "m s = (r, s')"
  obtains evs where "emits s s' evs" "\<forall>e \<in> set evs. silent e"
  using assms unfolding silently_def by blast

lemma silently_returnE [simp]: "silently (returnE x)"
  by (rule silently_intro) (auto simp: returnE_def intro: exI [of _ "[]"])

lemma silently_throwE [simp]: "silently (throwE e)"
  by (rule silently_intro) (auto simp: throwE_def intro: exI [of _ "[]"])

lemma silently_call:
  assumes "\<And>r. silent (ev r)"
  shows "silently (call f ev)"
proof (rule silently_intro)
  fix s r s' assume "call f ev s = (r, s')"
  from emits_call [OF this] assms show "\<exists>evs. emits s s' evs \<and> (\<forall>e \<in> set evs. silent e)"
    by (intro exI [of _ "[ev r]"]) simp
qed

lemma silently_bindE:
  assumes "silently m" "\<And>a. silently (f a)"
  shows "silently (bindE m f)"
proof (rule silently_intro)
  fix s r s' assume "bindE m f s = (r, s')"
  then show "\<exists>evs. emits s s' evs \<and> (\<forall>e \<in> set evs. silent e)"
  proof (cases rule: bindE_cases)
    case (throws e)
    from silently_elim [OF assms(1) throws(1)] show ?thesis by blast
  next
    case (returns a s1)
    from silently_elim [OF assms(1) returns(1)] obtain xs
      where xs: "emits s s1 xs" "\<forall>e \<in> set xs. silent e" by blast
    from silently_elim [OF assms(2) returns(2)] obtain ys
      where ys: "emits s1 s' ys" "\<forall>e \<in> set ys. silent e" by blast
    from emits_trans [OF xs(1) ys(1)] xs(2) ys(2) show ?thesis
      by (intro exI [of _ "xs @ ys"]) auto
  qed
qed

lemma silently_getAiClient [simp]: "silently (getAiClient P)"
  by (rule silently_intro) (auto elim!: getAiClient_cases intro: exI [of _ "[]"])

lemma silently_analyzeImage [simp]: "silently (analyzeImage P img)"
  unfolding analyzeImage_def by (intro silently_bindE silently_call) simp_all

lemma silently_generateVideoDirectorPrompt [simp]:
  "silently (generateVideoDirectorPrompt P c d)"
  unfolding generateVideoDirectorPrompt_def by (intro silently_bindE silently_call) simp_all

lemma silently_fileToBase64 [simp]: "silently (fileToBase64 P f)"
  unfolding fileToBase64_def
  by (cases f) (auto intro!: silently_bindE silently_call)

lemma silently_objectURL [simp]: "silently (objectURL P b)"
proof (rule silently_intro)
  fix s r s'
  assume "objectURL P b s = (r, s')"
  then obtain url where "emits s s' [CreateObjectURL b url]"
    by (auto simp: objectURL_def emits_def split: prod.splits)
  then show "\<exists>evs. emits s s' evs \<and> (\<forall>e \<in> set evs. silent e)"
    by (intro exI [of _ "[CreateObjectURL b url]"]) simp
qed

lemma silently_generateSpeech [simp]: "silently (generateSpeech P t)"
  unfolding generateSpeech_def
  by (intro silently_bindE silently_call silently_getAiClient)
    (auto split: sum.splits)

subsection \<open>The video stage\<close>

lemma pollRun_done:
  assumes "pollRun k operation evs r"
  shows "\<forall>operation'. r = Inr operation' \<longrightarrow> op_done operation'"
  using assms by induction simp_all

lemma pollRun_quiet:
  assumes "pollRun k operation evs r"
  shows "quiet 6 6 evs"
  using assms
proof induction
  case (pollAgain operation k operation' evs r)
  have "quiet 6 6 (pollTick k @ [GetVideosOperation operation (Inr operation')])"
    by (simp add: quiet_def pollTick_def)
  from quiet_append [OF this pollAgain.IH] show ?case by simp
qed (simp_all add: quiet_def pollTick_def)

lemma silently_download:
  "silently (bindE (call (fetch P url) (Fetch url))
     (\<lambda>videoResponse.
        if \<not> resp_ok videoResponse then throwE (newError (msg videoResponse))
        else (case resp_blob videoResponse of
                Inl e \<Rightarrow> throwE e
              | Inr videoBlob \<Rightarrow> objectURL P videoBlob)))"
  by (intro silently_bindE silently_call) (auto split: sum.splits)

lemma fetchVideo_run:
  assumes "fetchVideo P (updateProgress 6) operation s = (r, s')" "op_done operation"
  shows "(\<not> usable operation \<and> (\<exists>e. r = Inl e) \<and> s' = s)
    \<or> (usable operation
        \<and> (\<exists>dl. emits s s' (videoSucceeded # dl) \<and> (\<forall>e \<in> set dl. silent e)))"
proof (cases "usable operation")
  case False
  with assms show ?thesis
    by (auto simp: fetchVideo_def usable_def throwE_def split: option.splits if_splits)
next
  case True
  let ?s1 = "updateProgress 6 ''Video generated successfully! Fetching video data...'' s"
  from True assms(1) obtain dl where dl: "emits ?s1 s' dl" "\<forall>e \<in> set dl. silent e"
    unfolding fetchVideo_def usable_def
    by (auto elim!: silently_elim [OF silently_download])
  have "emits s ?s1 [videoSucceeded]"
    unfolding videoSucceeded_def by (rule emits_updateProgress)
  from emits_trans [OF this dl(1)] dl(2) True show ?thesis
    by auto
qed

lemma generateVideo_run:
  assumes "generateVideo P p f a (updateProgress 6) s = Some (r, s')"
  shows "\<exists>evs. emits s s' evs \<and> videoRun p f a evs r"
  using assms unfolding generateVideo_def
proof (cases rule: bindO_cases)
  case (throws e)
  then have "getAiClient P s = (Inl e, s')" by (simp add: liftO_def)
  then have "s' = s" by (cases rule: getAiClient_cases) simp_all
  with throws(2) videoRun.clientThrows [of p f a e] show ?thesis
    by (intro exI [of _ "[]"]) simp
next
  case (returns ai sc)
  then have "getAiClient P s = (Inr ai, sc)" by (simp add: liftO_def)
  then have sc: "sc = s" by (cases rule: getAiClient_cases) simp_all
  let ?s0 = "updateProgress 6 ''Starting video generation with Veo...'' s"
  have e0: "emits s ?s0 [videoStarting]"
    unfolding videoStarting_def by (rule emits_updateProgress)
  from returns(2) show ?thesis unfolding sc
  proof (cases rule: bindO_cases)
    case (throws e)
    then have c: "call (generateVideos P p f a) (GenerateVideos p f a) ?s0 = (Inl e, s')"
      by (simp add: liftO_def)
    from emits_trans [OF e0 emits_call [OF c]] throws(2) videoRun.submitThrows [of p f a e]
    show ?thesis
      by (intro exI [of _ "[videoStarting, GenerateVideos p f a (Inl e)]"]) simp
  next
    case (returns operation0 s1)
    then have c: "call (generateVideos P p f a) (GenerateVideos p f a) ?s0
        = (Inr operation0, s1)"
      by (simp add: liftO_def)
    let ?s2 = "updateProgress 6
      ''Video processing initiated. This can take several minutes. Polling for status...'' s1"
    let ?pre = "[videoStarting, GenerateVideos p f a (Inr operation0), videoInitiated]"
    have "emits s1 ?s2 [videoInitiated]"
      unfolding videoInitiated_def by (rule emits_updateProgress)
    from emits_trans [OF emits_trans [OF e0 emits_call [OF c]] this]
    have e2: "emits s ?s2 ?pre" by simp
    from returns(2) show ?thesis
    proof (cases rule: bindO_cases)
      case (throws e)
      from pollLoop_run [OF throws(1)] obtain pevs
        where pevs: "emits ?s2 s' pevs" "pollRun 1 operation0 pevs (Inl e)" by blast
      from videoRun.unusable [OF pevs(2), of p f a e] throws(2)
      have "videoRun p f a (?pre @ pevs) r" by simp
      with emits_trans [OF e2 pevs(1)] show ?thesis by blast
    next
      case (returns operation s3)
      from pollLoop_run [OF returns(1)] obtain pevs
        where pevs: "emits ?s2 s3 pevs" "pollRun 1 operation0 pevs (Inr operation)" by blast
      from pollRun_done [OF pevs(2)] have dn: "op_done operation" by simp
      from returns(2) have fv: "fetchVideo P (updateProgress 6) operation s3 = (r, s')"
        by (simp add: liftO_def)
      from fetchVideo_run [OF fv dn] show ?thesis
      proof
        assume a: "\<not> usable operation \<and> (\<exists>e. r = Inl e) \<and> s' = s3"
        then obtain e where r: "r = Inl e" by blast
        from a have "\<And>operation'. Inr operation = (Inr operation' :: exn + Operation)
            \<Longrightarrow> \<not> usable operation'"
          by simp
        from videoRun.unusable [OF pevs(2) this, of p f a e] r
        have "videoRun p f a (?pre @ pevs) r" by simp
        with emits_trans [OF e2 pevs(1)] a show ?thesis by blast
      next
        assume a: "usable operation
          \<and> (\<exists>dl. emits s3 s' (videoSucceeded # dl) \<and> (\<forall>e \<in> set dl. silent e))"
        then obtain dl where dl: "emits s3 s' (videoSucceeded # dl)" "\<forall>e \<in> set dl. silent e"
          by blast
        from a have us: "usable operation" by simp
        from videoRun.downloading [OF pevs(2) us dl(2), of p f a r]
        have "videoRun p f a (?pre @ pevs @ [videoSucceeded] @ dl) r" .
        moreover from emits_trans [OF emits_trans [OF e2 pevs(1)] dl(1)]
        have "emits s s' (?pre @ pevs @ [videoSucceeded] @ dl)" by simp
        ultimately show ?thesis by blast
      qed
    qed
  qed
qed

lemma videoRun_quiet:
  assumes "videoRun p f a evs r"
  shows "quiet 6 6 evs"
  using assms
proof cases
  case (clientThrows e)
  then show ?thesis by simp
next
  case (submitThrows e)
  then show ?thesis by (simp add: quiet_def videoStarting_def)
next
  case (unusable operation0 pevs rp e)
  have "quiet 6 6 [videoStarting, GenerateVideos p f a (Inr operation0), videoInitiated]"
    by (simp add: quiet_def videoStarting_def videoInitiated_def)
  from quiet_append [OF this pollRun_quiet [OF unusable(3)]] unusable(1) show ?thesis
    by simp
next
  case (downloading operation0 pevs operation dl)
  have a: "quiet 6 6 [videoStarting, GenerateVideos p f a (Inr operation0), videoInitiated]"
    by (simp add: quiet_def videoStarting_def videoInitiated_def)
  have b: "quiet 6 6 ([videoSucceeded] @ dl)"
    using quiet_silent [OF downloading(4), of 6 6]
    by (simp add: quiet_def videoSucceeded_def silent_quiet [OF downloading(4)])
  from quiet_append [OF quiet_append [OF a pollRun_quiet [OF downloading(2)]] b]
    downloading(1) show ?thesis
    by simp
qed

subsection \<open>Stage 1\<close>

lemma silent_prefix:
  assumes "silently m" "bindE m f s = (r, s')"
  obtains (stopped) e A where "r = Inl e" "emits s s' A" "\<forall>e \<in> set A. silent e"
    | (went) a s1 A where "emits s s1 A" "\<forall>e \<in> set A. silent e" "f a s1 = (r, s')"
  using assms(2)
proof (cases rule: bindE_cases)
  case (throws e)
  from silently_elim [OF assms(1) throws(1)] obtain A
    where "emits s s' A" "\<forall>e \<in> set A. silent e" by blast
  with throws(2) show ?thesis by (rule stopped)
next
  case (returns a s1)
  from silently_elim [OF assms(1) returns(1)] obtain A
    where "emits s s1 A" "\<forall>e \<in> set A. silent e" by blast
  then show ?thesis using returns(2) by (rule went)
qed

lemma concept_step:
  assumes "bindE (generateAdConcept P ia x y) (\<lambda>c. returnE (a, c)) s = (r, s')"
  obtains (noClient) e where "r = Inl e" "s' = s"
    | (called) rc where "emits s s' [ConceptContent ia x y rc]" "r = map_sum id (Pair a) rc"
  using assms
proof (cases rule: bindE_cases)
  case (throws e)
  from throws(1) show ?thesis unfolding generateAdConcept_def
  proof (cases rule: bindE_cases)
    case (throws e')
    from throws(1) have "s' = s" by (cases rule: getAiClient_cases) simp_all
    with \<open>r = Inl e\<close> show ?thesis by (rule noClient)
  next
    case (returns ai s0)
    from returns(1) have s0: "s0 = s" by (cases rule: getAiClient_cases) simp_all
    from emits_call [OF returns(2) [unfolded s0]] \<open>r = Inl e\<close> show ?thesis
      by (intro called [of "Inl e"]) simp_all
  qed
next
  case (returns c s1)
  from returns(2) have r: "r = Inr (a, c)" "s' = s1" by (simp_all add: returnE_def)
  from returns(1) show ?thesis unfolding generateAdConcept_def
  proof (cases rule: bindE_cases)
    case (returns ai s0)
    from returns(1) have s0: "s0 = s" by (cases rule: getAiClient_cases) simp_all
    from emits_call [OF returns(2) [unfolded s0]] r show ?thesis
      by (intro called [of "Inr c"]) simp_all
  qed simp
qed

lemma analysisStage_run:
  assumes "analysisStage P d s = (r, s')"
  shows "\<exists>evs. emits s s' evs \<and> analysisRun evs r"
proof -
  let ?m1 = "''Analyzing images...''"
  let ?s0 = "updateProgress 1 ?m1 s"
  have e0: "emits s ?s0 [SetProgress \<lparr>step = 1, message = ?m1\<rparr>]"
    by (rule emits_updateProgress)
  have early: "\<exists>evs. emits s s' evs \<and> analysisRun evs r"
    if "emits ?s0 s' A" "\<forall>e \<in> set A. silent e" "r = Inl e" for A e
    using emits_trans [OF e0 that(1)] analysisRun.early [OF that(2), of ?m1 e] that(3)
    by auto
  have actorFile: "silently (case actorImage d of None \<Rightarrow> returnE None
      | Some f \<Rightarrow> bindE (fileToBase64 P (Some f)) (\<lambda>x. returnE (Some x)))"
    by (cases "actorImage d") (auto intro!: silently_bindE)
  have actorAnalysis: "silently (case actor of None \<Rightarrow> returnE ia
      | Some a \<Rightarrow> bindE (analyzeImage P a)
          (\<lambda>actorAnalysis. returnE (ia @ CHR 0x0A # ''Actor Analysis: '' @ actorAnalysis)))"
    for actor ia
    by (cases actor) (auto intro!: silently_bindE)
  from silently_fileToBase64 assms [unfolded analysisStage_def] show ?thesis
  proof (cases rule: silent_prefix)
    case (stopped e A)
    from early [OF stopped(2,3,1)] show ?thesis .
  next
    case (went productImageData s1 A1)
    from silently_analyzeImage went(3) show ?thesis
    proof (cases rule: silent_prefix)
      case (stopped e A)
      from went(2) stopped(3) have "\<forall>e \<in> set (A1 @ A). silent e" by auto
      from early [OF emits_trans [OF went(1) stopped(2)] this stopped(1)] show ?thesis .
    next
      case (went imageAnalysis s2 A2)
      note w2 = went
      from emits_trans [OF \<open>emits ?s0 s1 A1\<close> w2(1)] have e2: "emits ?s0 s2 (A1 @ A2)" .
      from \<open>\<forall>e \<in> set A1. silent e\<close> w2(2) have q2: "\<forall>e \<in> set (A1 @ A2). silent e" by auto
      from actorFile w2(3) show ?thesis
      proof (cases rule: silent_prefix)
        case (stopped e A)
        from q2 stopped(3) have "\<forall>e \<in> set ((A1 @ A2) @ A). silent e" by auto
        from early [OF emits_trans [OF e2 stopped(2)] this stopped(1)] show ?thesis .
      next
        case (went actorImageData s3 A3)
        note w3 = went
        from emits_trans [OF e2 w3(1)] have e3: "emits ?s0 s3 (A1 @ A2 @ A3)" by simp
        from q2 w3(2) have q3: "\<forall>e \<in> set (A1 @ A2 @ A3). silent e" by auto
        from actorAnalysis w3(3) show ?thesis
        proof (cases rule: silent_prefix)
          case (stopped e A)
          from q3 stopped(3) have "\<forall>e \<in> set ((A1 @ A2 @ A3) @ A). silent e" by auto
          from early [OF emits_trans [OF e3 stopped(2)] this stopped(1)] show ?thesis .
        next
          case (went imageAnalysis' s4 A4)
          note w4 = went
          let ?A = "A1 @ A2 @ A3 @ A4"
          let ?m2 = "''Generating ad concept...''"
          from emits_trans [OF e0 emits_trans [OF e3 w4(1)]]
          have e4: "emits s s4 (SetProgress \<lparr>step = 1, message = ?m1\<rparr> # ?A)" by simp
          from q3 w4(2) have q4: "\<forall>e \<in> set ?A. silent e" by auto
          from w4(3) show ?thesis
          proof (cases rule: concept_step)
            case (noClient e)
            from emits_trans [OF e4 emits_updateProgress, of 2 ?m2] noClient(2)
            have "emits s s' (SetProgress \<lparr>step = 1, message = ?m1\<rparr> # ?A
                @ [SetProgress \<lparr>step = 2, message = ?m2\<rparr>])"
              by simp
            with analysisRun.conceptClient [OF q4, of ?m1 ?m2 e] noClient(1)
            show ?thesis by blast
          next
            case (called rc)
            from emits_trans [OF emits_trans [OF e4 emits_updateProgress] called(1)]
            have "emits s s' (SetProgress \<lparr>step = 1, message = ?m1\<rparr> # ?A
                @ [SetProgress \<lparr>step = 2, message = ?m2\<rparr>,
                   ConceptContent imageAnalysis' (productDescription d) (tone d) rc])"
              by simp
            with analysisRun.conceptCall [OF q4, of ?m1 ?m2 imageAnalysis'
                "productDescription d" "tone d" rc actorImageData] called(2)
            show ?thesis by blast
          qed
        qed
      qed
    qed
  qed
qed

subsection \<open>Stage 2\<close>

lemma yields_thrown: "emits s s' evs \<Longrightarrow> yields s (Inl e) s' evs (Inl e)"
  by (simp add: yields_def emits_def)

lemma emits_yields: "emits s s1 xs \<Longrightarrow> yields s1 r s' ys ro \<Longrightarrow> yields s r s' (xs @ ys) ro"
  by (auto simp: yields_def emits_def split: sum.splits)

lemma voice_run:
  assumes "(if generateVoiceover d then
             (\<lambda>s. bindE (generateSpeech P t) (\<lambda>url. returnE (Some url))
                    (updateProgress 7 m7 s))
           else returnE None) s = (r, s')"
  shows "\<exists>W. emits s s' W \<and> quiet 7 7 W"
proof (cases "generateVoiceover d")
  case False
  with assms have "s' = s" by (simp add: returnE_def)
  then show ?thesis by (intro exI [of _ "[]"]) simp
next
  case True
  have sil: "silently (bindE (generateSpeech P t) (\<lambda>url. returnE (Some url)))"
    by (intro silently_bindE) simp_all
  from True assms
  have run: "bindE (generateSpeech P t) (\<lambda>url. returnE (Some url)) (updateProgress 7 m7 s)
      = (r, s')"
    by simp
  from silently_elim [OF sil run] obtain evs where evs: "emits (updateProgress 7 m7 s) s' evs"
    "\<forall>e \<in> set evs. silent e"
    by blast
  have "quiet 7 7 [SetProgress \<lparr>step = 7, message = m7\<rparr>]"
    by (simp add: quiet_def)
  from quiet_append [OF this quiet_silent [OF evs(2), of 7 7]]
  have "quiet 7 7 ([SetProgress \<lparr>step = 7, message = m7\<rparr>] @ evs)"
    by simp
  with emits_trans [OF emits_updateProgress evs(1)] show ?thesis by auto
qed

lemma finishStage_run:
  assumes "finishStage P d v frame veoPrompt videoUrl s = (r, s')"
    and "openingFrameData v = Some frame" and "quiet 5 6 M0"
  shows "\<exists>W ro. yields s r s' W ro \<and> renderRun d v (writingScript # M0 @ W) ro"
  using assms(1) unfolding finishStage_def
proof (cases rule: bindE_cases)
  case (throws e)
  from voice_run [OF throws(1)] obtain W where W: "emits s s' W" "quiet 7 7 W" by blast
  from quiet_append [OF assms(3) quiet_mono [OF W(2), of 6 7]]
  have "quiet 5 7 (M0 @ W)" by simp
  from renderRun.aborted [OF assms(2) quiet_mono [OF this, of 5 8], of d e]
    yields_thrown [OF W(1), of e] throws(2)
  show ?thesis by (intro exI [of _ W] exI [of _ "Inl e"]) simp
next
  case (returns voiceoverUrl s1)
  from voice_run [OF returns(1)] obtain W where W: "emits s s1 W" "quiet 7 7 W" by blast
  from quiet_append [OF assms(3) quiet_mono [OF W(2), of 6 7]]
  have q: "quiet 5 7 (M0 @ W)" by simp
  let ?m8 = "''Generating ad assets...''"
  let ?s2 = "updateProgress 8 ?m8 s1"
  have e2: "emits s ?s2 (W @ [SetProgress \<lparr>step = 8, message = ?m8\<rparr>])"
    by (rule emits_trans [OF W(1) emits_updateProgress])
  from returns(2) show ?thesis
  proof (cases rule: bindE_cases)
    case (throws e)
    note outer = throws
    from throws(1) show ?thesis unfolding generateAdAssets_def
    proof (cases rule: bindE_cases)
      case (throws e')
      from throws(1) have "s' = ?s2" by (cases rule: getAiClient_cases) simp_all
      with e2 outer(2)
      have "yields s r s' (W @ [SetProgress \<lparr>step = 8, message = ?m8\<rparr>]) (Inl e)"
        by (simp add: yields_thrown)
      moreover have "quiet 5 8 ((M0 @ W) @ [SetProgress \<lparr>step = 8, message = ?m8\<rparr>])"
        by (rule quiet_append [OF q quiet_progress]) simp_all
      from renderRun.aborted [OF assms(2) this, of d e]
      have "renderRun d v (writingScript # M0 @ W @ [SetProgress \<lparr>step = 8, message = ?m8\<rparr>])
          (Inl e)"
        by simp
      ultimately show ?thesis
        by (intro exI [of _ "W @ [SetProgress \<lparr>step = 8, message = ?m8\<rparr>]"]
            exI [of _ "Inl e"]) simp
    next
      case (returns ai s0)
      from returns(1) have s0: "s0 = ?s2" by (cases rule: getAiClient_cases) simp_all
      from emits_call [OF returns(2) [unfolded s0]]
      have "emits ?s2 s' [AssetsContent (productDescription d) (cta d) (tone d) (Inl e)]" .
      from emits_trans [OF e2 this]
      have "yields s r s' (W @ [SetProgress \<lparr>step = 8, message = ?m8\<rparr>,
          AssetsContent (productDescription d) (cta d) (tone d) (Inl e)]) (Inl e)"
        using outer(2) by (simp add: yields_thrown)
      moreover from renderRun.assetsThrow [OF assms(2) q, of d ?m8 "productDescription d"
          "cta d" "tone d" e]
      have "renderRun d v (writingScript # M0 @ W @ [SetProgress \<lparr>step = 8, message = ?m8\<rparr>,
          AssetsContent (productDescription d) (cta d) (tone d) (Inl e)]) (Inl e)"
        by simp
      ultimately show ?thesis
        by (intro exI [of _ "W @ [SetProgress \<lparr>step = 8, message = ?m8\<rparr>,
          AssetsContent (productDescription d) (cta d) (tone d) (Inl e)]"] exI [of _ "Inl e"])
          simp
    qed
  next
    case (returns adAssets s3)
    let ?out = "\<lparr>ad_title = adTitle (concept v),
            ad_idea = adIdea (concept v),
            ad_description = adDescription (concept v),
            platform_out = platformString (platform d),
            aspect_ratio = aspectRatioString (aspectRatio d),
            cta_line = cta d,
            tone_out = tone d,
            opening_frame_prompt = openingFramePrompt (concept v),
            opening_frame_image_url =
              ''data:'' @ mimeType frame @ '';base64,'' @ base64 frame,
            veo_prompt = veoPrompt,
            veo_video_url = videoUrl,
            qc_notes = qcNotes v,
            ad_copy_variations = adCopyVariations adAssets,
            hashtags = hashtags_assets adAssets,
            voiceover_audio_url = voiceoverUrl\<rparr>"
    from returns(1)
    have "emits ?s2 s3 [AssetsContent (productDescription d) (cta d) (tone d) (Inr adAssets)]"
      unfolding generateAdAssets_def
      by (auto elim!: bindE_cases getAiClient_cases dest: emits_call)
    from emits_trans [OF e2 this]
    have e3: "emits s s3 (W @ [SetProgress \<lparr>step = 8, message = ?m8\<rparr>,
        AssetsContent (productDescription d) (cta d) (tone d) (Inr adAssets)])"
      by simp
    from returns(2) have "r = Inr ()" "s' = setResult (Some ?out) s3" by simp_all
    with e3 have "yields s r s' (W @ [SetProgress \<lparr>step = 8, message = ?m8\<rparr>,
        AssetsContent (productDescription d) (cta d) (tone d) (Inr adAssets)]) (Inr ?out)"
      by (simp add: yields_def emits_def setResult_def)
    moreover from renderRun.completed [OF assms(2) q, of ?out adAssets d ?m8
        "productDescription d" "cta d" "tone d"]
    have "renderRun d v (writingScript # M0 @ W @ [SetProgress \<lparr>step = 8, message = ?m8\<rparr>,
        AssetsContent (productDescription d) (cta d) (tone d) (Inr adAssets)]) (Inr ?out)"
      by (simp add: frameUrl_def)
    ultimately show ?thesis
      by (intro exI [of _ "W @ [SetProgress \<lparr>step = 8, message = ?m8\<rparr>,
        AssetsContent (productDescription d) (cta d) (tone d) (Inr adAssets)]"]
          exI [of _ "Inr ?out"]) simp
  qed
qed

lemma renderStage_run:
  assumes "renderStage P d v s = Some (r, s')"
  shows "\<exists>evs ro. yields s r s' evs ro \<and> renderRun d v evs ro"
proof (cases "openingFrameData v")
  case None
  with assms have "r = Inl (newError ''Failed to generate a valid opening frame.'')" "s' = s"
    by (simp_all add: renderStage_def)
  with renderRun.frameMissing [OF None, of d] show ?thesis
    by (intro exI [of _ "[]"]
        exI [of _ "Inl (newError ''Failed to generate a valid opening frame.'')"])
      (simp add: yields_def)
next
  case (Some frame)
  let ?s0 = "updateProgress 5 ''Writing video script...'' s"
  have e0: "emits s ?s0 [writingScript]"
    unfolding writingScript_def by (rule emits_updateProgress)
  from assms Some have "bindO (liftO (generateVideoDirectorPrompt P (concept v) d))
        (\<lambda>veoPrompt s.
          bindO (generateVideo P veoPrompt frame (aspectRatio d) (updateProgress 6))
          (\<lambda>videoUrl. liftO (finishStage P d v frame veoPrompt videoUrl))
          (updateProgress 6 ''Generating video (this may take a few minutes)...'' s))
        ?s0 = Some (r, s')"
    by (simp add: renderStage_def)
  then show ?thesis
  proof (cases rule: bindO_cases)
    case (throws e)
    then have "generateVideoDirectorPrompt P (concept v) d ?s0 = (Inl e, s')"
      by (simp add: liftO_def)
    from silently_elim [OF silently_generateVideoDirectorPrompt this] obtain D
      where D: "emits ?s0 s' D" "\<forall>e \<in> set D. silent e" by blast
    from emits_trans [OF e0 D(1)]
    have "yields s r s' (writingScript # D) (Inl e)"
      using throws(2) by (simp add: yields_thrown)
    moreover from renderRun.aborted [OF Some quiet_silent [OF D(2), of 5 8], of d e]
    have "renderRun d v (writingScript # D) (Inl e)" .
    ultimately show ?thesis
      by (intro exI [of _ "writingScript # D"] exI [of _ "Inl e"]) simp
  next
    case (returns veoPrompt s1)
    then have "generateVideoDirectorPrompt P (concept v) d ?s0 = (Inr veoPrompt, s1)"
      by (simp add: liftO_def)
    then have "emits ?s0 s1 [DirectorContent (concept v) d (Inr veoPrompt)]"
      unfolding generateVideoDirectorPrompt_def
      by (auto elim!: bindE_cases getAiClient_cases dest: emits_call)
    note e1 = emits_trans [OF e0 this]
    let ?m6 = "''Generating video (this may take a few minutes)...''"
    let ?s2 = "updateProgress 6 ?m6 s1"
    let ?M = "[DirectorContent (concept v) d (Inr veoPrompt),
        SetProgress \<lparr>step = 6, message = ?m6\<rparr>]"
    from emits_trans [OF e1 emits_updateProgress]
    have e2: "emits s ?s2 (writingScript # ?M)" by simp
    have qM: "quiet 5 6 ?M" by (simp add: quiet_def)
    from returns(2) show ?thesis
    proof (cases rule: bindO_cases)
      case (throws e)
      from generateVideo_run [OF throws(1)] obtain V
        where V: "emits ?s2 s' V" "videoRun veoPrompt frame (aspectRatio d) V (Inl e)"
        by blast
      from quiet_append [OF qM quiet_mono [OF videoRun_quiet [OF V(2)], of 6 7]]
      have "quiet 5 7 (?M @ V)" by simp
      from renderRun.aborted [OF Some quiet_mono [OF this, of 5 8], of d e]
        yields_thrown [OF emits_trans [OF e2 V(1)], of e] throws(2)
      show ?thesis
        by (intro exI [of _ "(writingScript # ?M) @ V"] exI [of _ "Inl e"]) simp
    next
      case (returns videoUrl s3)
      from generateVideo_run [OF returns(1)] obtain V
        where V: "emits ?s2 s3 V" "videoRun veoPrompt frame (aspectRatio d) V (Inr videoUrl)"
        by blast
      from quiet_append [OF qM videoRun_quiet [OF V(2)]]
      have q: "quiet 5 6 (?M @ V)" by simp
      from returns(2) have "finishStage P d v frame veoPrompt videoUrl s3 = (r, s')"
        by (simp add: liftO_def)
      from finishStage_run [OF this Some q] obtain W ro
        where W: "yields s3 r s' W ro" "renderRun d v (writingScript # (?M @ V) @ W) ro"
        by blast
      from emits_yields [OF emits_trans [OF e2 V(1)] W(1)] W(2) show ?thesis
        by (intro exI [of _ "writingScript # (?M @ V) @ W"] exI [of _ ro]) simp
    qed
  qed
qed

subsection \<open>The whole run\<close>

lemma tryBlock_run:
  assumes "tryBlock P d s = Some (r, s')"
  shows "\<exists>evs ro. yields s r s' evs ro \<and> pipelineRun d evs ro"
  using assms unfolding tryBlock_def
proof (cases rule: bindO_cases)
  case (throws e)
  then have "analysisStage P d s = (Inl e, s')" by (simp add: liftO_def)
  from analysisStage_run [OF this] obtain A where A: "emits s s' A" "analysisRun A (Inl e)"
    by blast
  from pipelineRun.analysisFailed [of "[]" A e d] A(2) have "pipelineRun d A (Inl e)" by simp
  with yields_thrown [OF A(1), of e] throws(2) show ?thesis
    by (intro exI [of _ A] exI [of _ "Inl e"]) simp
next
  case (returns x s1)
  obtain a c where x: "x = (a, c)" by (cases x)
  from returns(1) x have "analysisStage P d s = (Inr (a, c), s1)" by (simp add: liftO_def)
  from analysisStage_run [OF this] obtain A
    where A: "emits s s1 A" "analysisRun A (Inr (a, c))" by blast
  from returns(2) x
  have "bindO (liftO (qcLoop P d a 1 (loopEntry c))) (\<lambda>v. renderStage P d v) s1 = Some (r, s')"
    by simp
  then show ?thesis
  proof (cases rule: bindO_cases)
    case (throws e)
    then have "qcLoop P d a 1 (loopEntry c) s1 = (Inl e, s')" by (simp add: liftO_def)
    from qcLoop_run [OF this] obtain L
      where L: "emits s1 s' L" "qcRun 1 (loopEntry c) L (Inl e)" by blast
    from pipelineRun.loopFailed [of "[]" A a c L e d] A(2) L(2)
    have "pipelineRun d (A @ L) (Inl e)" by simp
    with yields_thrown [OF emits_trans [OF A(1) L(1)], of e] throws(2) show ?thesis
      by (intro exI [of _ "A @ L"] exI [of _ "Inl e"]) simp
  next
    case (returns v s2)
    then have "qcLoop P d a 1 (loopEntry c) s1 = (Inr v, s2)" by (simp add: liftO_def)
    from qcLoop_run [OF this] obtain L
      where L: "emits s1 s2 L" "qcRun 1 (loopEntry c) L (Inr v)" by blast
    from renderStage_run [OF returns(2)] obtain R ro
      where R: "yields s2 r s' R ro" "renderRun d v R ro" by blast
    from pipelineRun.rendered [of "[]" A a c L v d R ro] A(2) L(2) R(2)
    have "pipelineRun d (A @ L @ R) ro" by simp
    with emits_yields [OF emits_trans [OF A(1) L(1)] R(1)] show ?thesis
      by (intro exI [of _ "A @ L @ R"] exI [of _ ro]) simp
  qed
qed

lemma pipelineRun_prepend:
  assumes "pipelineRun d evs ro" "\<forall>e \<in> set K. silent e"
  shows "pipelineRun d (K @ evs) ro"
  using assms(1)
proof cases
  case (analysisFailed K0 A e)
  from assms(2) analysisFailed(3) have "\<forall>e \<in> set (K @ K0). silent e" by auto
  from pipelineRun.analysisFailed [OF this analysisFailed(4), of d] analysisFailed(1,2)
  show ?thesis by simp
next
  case (loopFailed K0 A a c L e)
  from assms(2) loopFailed(3) have "\<forall>e \<in> set (K @ K0). silent e" by auto
  from pipelineRun.loopFailed [OF this loopFailed(4,5), of d] loopFailed(1,2)
  show ?thesis by simp
next
  case (rendered K0 A a c L v R)
  from assms(2) rendered(2) have "\<forall>e \<in> set (K @ K0). silent e" by auto
  from pipelineRun.rendered [OF this rendered(3,4,5)] rendered(1)
  show ?thesis by simp
qed

lemma apiKeyCheck_run:
  assumes "apiKeyCheck P s = (r, s')"
  shows "\<exists>K. trace s' = trace s @ K \<and> (\<forall>e \<in> set K. silent e)
    \<and> isLoading (app s') = isLoading (app s) \<and> error (app s') = error (app s)
    \<and> result (app s') = result (app s)"
proof (cases "aistudio P")
  case False
  with assms have "s' = s" by (simp add: apiKeyCheck_def returnE_def)
  then show ?thesis by (intro exI [of _ "[]"]) simp
next
  case True
  with assms have "bindE (call (hasSelectedApiKey P) HasSelectedApiKey)
       (\<lambda>hasKey.
         if \<not> hasKey then
           bindE (call (openSelectKey P) OpenSelectKey)
           (\<lambda>u s. returnE () (setApiKeySelected (Some True) s))
         else returnE ()) s = (r, s')"
    by (simp add: apiKeyCheck_def)
  then show ?thesis
  proof (cases rule: bindE_cases)
    case (throws e)
    from emits_call [OF throws(1)] show ?thesis
      by (intro exI [of _ "[HasSelectedApiKey (Inl e)]"]) (simp add: emits_def)
  next
    case (returns hasKey s1)
    note e1 = emits_call [OF returns(1)]
    show ?thesis
    proof (cases hasKey)
      case True
      with returns(2) have "s' = s1" by (simp add: returnE_def)
      with e1 show ?thesis
        by (intro exI [of _ "[HasSelectedApiKey (Inr hasKey)]"]) (simp add: emits_def)
    next
      case False
      with returns(2) have "bindE (call (openSelectKey P) OpenSelectKey)
           (\<lambda>u s. returnE () (setApiKeySelected (Some True) s)) s1 = (r, s')"
        by simp
      then show ?thesis
      proof (cases rule: bindE_cases)
        case (throws e)
        from emits_trans [OF e1 emits_call [OF throws(1)]] show ?thesis
          by (intro exI [of _ "[HasSelectedApiKey (Inr hasKey), OpenSelectKey (Inl e)]"])
            (simp add: emits_def)
      next
        case (returns u s2)
        from returns(2) have "s' = setApiKeySelected (Some True) s2"
          by (simp add: returnE_def)
        with emits_trans [OF e1 emits_call [OF returns(1)]] show ?thesis
          by (intro exI [of _ "[HasSelectedApiKey (Inr hasKey), OpenSelectKey (Inr u)]"])
            (simp add: emits_def setApiKeySelected_def)
      qed
    qed
  qed
qed

lemma catchBlock_app:
  "error (app (catchBlock e s)) = Some (surfaced e)"
  "apiKeySelected (app (catchBlock e s))
    = (if credentialFailure e then Some False else apiKeySelected (app s))"
  "result (app (catchBlock e s)) = result (app s)"
  "trace (catchBlock e s) = trace s"
  by (simp_all add: catchBlock_def surfaced_def credentialFailure_def setError_def
      setApiKeySelected_def)

lemma finallyBlock_app:
  "isLoading (app (finallyBlock s)) = False" "progress (app (finallyBlock s)) = idle"
  "error (app (finallyBlock s)) = error (app s)" "result (app (finallyBlock s)) = result (app s)"
  "apiKeySelected (app (finallyBlock s)) = apiKeySelected (app s)"
  "trace (finallyBlock s) = trace s @ [SetProgress idle]"
  by (simp_all add: finallyBlock_def setProgress_def setIsLoading_def idle_def)

lemma handleGenerateAd_run:
  assumes "handleGenerateAd P d s = Some (Inr (), s')"
  shows "\<exists>evs ro k. trace s' = trace s @ evs @ [SetProgress idle] \<and> pipelineRun d evs ro
    \<and> isLoading (app s') = False \<and> progress (app s') = idle
    \<and> error (app s') = (case ro of Inl e \<Rightarrow> Some (surfaced e) | Inr out \<Rightarrow> None)
    \<and> result (app s') = (case ro of Inl e \<Rightarrow> None | Inr out \<Rightarrow> Some out)
    \<and> apiKeySelected (app s')
        = (case ro of Inl e \<Rightarrow> if credentialFailure e then Some False else k | Inr out \<Rightarrow> k)"
proof -
  let ?s0 = "setResult None (setError None (setIsLoading True s))"
  have s0: "trace ?s0 = trace s" "error (app ?s0) = None" "result (app ?s0) = None"
    by (simp_all add: setResult_def setError_def setIsLoading_def)
  from assms show ?thesis unfolding handleGenerateAd_def
  proof (cases rule: bindO_cases)
    case (throws e)
    then show ?thesis by simp
  next
    case (returns u s1)
    then have "apiKeyCheck P ?s0 = (Inr u, s1)" by (simp add: liftO_def)
    from apiKeyCheck_run [OF this] s0 obtain K where K: "trace s1 = trace s @ K"
      "\<forall>e \<in> set K. silent e" "error (app s1) = None" "result (app s1) = None"
      by auto
    from returns(2) obtain rt s2 where t: "tryBlock P d s1 = Some (rt, s2)"
      and s': "s' = finallyBlock (case rt of Inl e \<Rightarrow> catchBlock e s2 | Inr u \<Rightarrow> s2)"
      by (auto split: option.splits prod.splits sum.splits)
    from tryBlock_run [OF t] obtain evs ro
      where evs: "yields s1 rt s2 evs ro" "pipelineRun d evs ro" by blast
    note run = pipelineRun_prepend [OF evs(2) K(2)]
    show ?thesis
    proof (cases ro)
      case (Inl e)
      with evs(1) K s' run show ?thesis
        by (intro exI [of _ "K @ evs"] exI [of _ ro] exI [of _ "apiKeySelected (app s1)"])
          (simp add: yields_def finallyBlock_app catchBlock_app)
    next
      case (Inr out)
      with evs(1) K s' run show ?thesis
        by (intro exI [of _ "K @ evs"] exI [of _ ro] exI [of _ "apiKeySelected (app s1)"])
          (simp add: yields_def finallyBlock_app)
    qed
  qed
qed

subsection \<open>What the verdict branch does to the loop variables\<close>

lemma qcVerdict_Break:
  assumes "qcVerdict i v img res = Break v'"
  shows "isValid res" "concept v' = concept v" "openingFrameData v' = Some img"
    "qcNotes v' = (if i > 1 then ''QC passed on attempt '' @ showNat i @ ''.'' else qcNotes v)"
  using assms by (auto simp: qcVerdict_def split: if_splits)

lemma qcVerdict_Continue:
  assumes "qcVerdict i v img res = Continue v'"
  shows "\<not> isValid res" "openingFrameData v' = Some img"
    "openingFramePrompt (concept v') = openingFramePrompt (concept v) @ promptFix res"
    "qcNotes v' = (if i = 3 then
        ''QC failed after 3 attempts. Using best available image. Final issue: ''
          @ suggestion res
      else ''Attempt '' @ showNat i @ '' failed QC: '' @ suggestion res @ ''. Refining prompt.'')"
  using assms by (auto simp: qcVerdict_def promptFix_def split: if_splits)

subsection \<open>Properties of the retry loop\<close>

lemma qcRun_exhausted:
  assumes "qcRun i v L r" "3 < i"
  shows "L = [] \<and> r = Inr v"
  using assms by cases simp_all

lemma qcRun_counts:
  assumes "qcRun i v L r"
  shows "length (filter isValidateCall L) \<le> 4 - i \<and> length (filter isFrameCall L) \<le> 4 - i"
  using assms by induction auto

lemma qcRun_plain:
  assumes "qcRun i v L r"
  shows "concepts L = [] \<and> assets L = [] \<and> successively stepOrder (steps L)
    \<and> (\<forall>n \<in> set (steps L). 3 \<le> n \<and> n \<le> 4)"
  using assms
proof induction
  case (retry i f v img res v' evs r m3 m4)
  then show ?case
    by (cases "steps evs") (auto simp: stepOrder_def successively_Cons)
qed (simp_all add: stepOrder_def)


lemma afterValid_noQc_prefix:
  assumes "noQc X"
  shows "afterValid (X @ Y) = afterValid Y"
  using assms by (induction X) simp_all

lemma qcRun_afterValid:
  assumes "qcRun i v L r" "noQc X"
  shows "noQc (afterValid (L @ X))"
  using assms
proof induction
  case (exhausted i v)
  from afterValid_subset [of X] exhausted show ?case
    by (auto simp: noQc_def)
next
  case (noFrameClient i v m3 e)
  from afterValid_subset [of X] noFrameClient show ?case
    by (auto simp: noQc_def)
next
  case (noFrame i f v m3 e)
  from afterValid_subset [of X] noFrame show ?case
    by (auto simp: noQc_def)
next
  case (noVerdictClient i f v m3 m4 e)
  from afterValid_subset [of X] noVerdictClient show ?case
    by (auto simp: noQc_def)
next
  case (noVerdict i f v m3 m4 img e)
  from afterValid_subset [of X] noVerdict show ?case
    by (auto simp: noQc_def)
next
  case (passed i f v img res v' m3 m4)
  from qcVerdict_Break(1) [OF passed(4)] passed show ?case
    by simp
next
  case (retry i f v img res v' evs r m3 m4)
  from qcVerdict_Continue(1) [OF retry(4)] retry show ?case
    by simp
qed

lemma frameCall_prompt:
  assumes "isFrameCall f" "framePrompts [f] = [p]"
  shows "framePrompts (f # es) = p # framePrompts es"
  using assms by (cases f) simp_all

lemma qcRun_prompts:
  assumes "qcRun i v L r"
  shows "framePrompts L = map (\<lambda>k. openingFramePrompt (concept v)
        @ concat (map promptFix (take k (rejections L)))) [0..<length (framePrompts L)]
    \<and> (\<forall>v'. r = Inr v' \<longrightarrow> openingFramePrompt (concept v')
        = openingFramePrompt (concept v) @ concat (map promptFix (rejections L)))"
  using assms
proof induction
  case (passed i f v img res v' m3 m4)
  from qcVerdict_Break [OF passed(4)] frameCall_prompt [OF passed(2,3)] passed(2) show ?case
    by (simp add: rejections_def)
next
  case (noFrame i f v m3 e)
  from frameCall_prompt [OF noFrame(2,3)] noFrame(2) show ?case
    by (simp add: rejections_def)
next
  case (noVerdict i f v m3 m4 img e)
  from frameCall_prompt [OF noVerdict(2,3)] noVerdict(2) show ?case
    by (simp add: rejections_def)
next
  case (noVerdictClient i f v m3 m4 e)
  from frameCall_prompt [OF noVerdictClient(2,3)] noVerdictClient(2) show ?case
    by (simp add: rejections_def)
next
  case (retry i f v img res v' evs r m3 m4)
  note c = qcVerdict_Continue [OF retry(4)]
  let ?p = "openingFramePrompt (concept v)"
  have rj: "rejections ([SetProgress \<lparr>step = 3, message = m3\<rparr>, f,
      SetProgress \<lparr>step = 4, message = m4\<rparr>, ValidateContent img (Inr res)] @ evs)
      = res # rejections evs"
    using retry(2) c(1) by (simp add: rejections_def)
  have fp: "framePrompts ([SetProgress \<lparr>step = 3, message = m3\<rparr>, f,
      SetProgress \<lparr>step = 4, message = m4\<rparr>, ValidateContent img (Inr res)] @ evs)
      = ?p # framePrompts evs"
    using frameCall_prompt [OF retry(2,3)] by simp
  from retry.IH c(3)
  have tl: "framePrompts evs = map (\<lambda>k. ?p @ concat (map promptFix (take (Suc k)
      (res # rejections evs)))) [0..<length (framePrompts evs)]"
    by simp
  have "?p # framePrompts evs = map (\<lambda>k. ?p @ concat (map promptFix (take k
      (res # rejections evs)))) [0..<Suc (length (framePrompts evs))]"
    unfolding map_upt_Suc using tl by simp
  with retry.IH c(3) show ?case
    unfolding rj fp by simp
qed (simp_all add: rejections_def)

lemma qcRun_first_pass:
  assumes "qcRun 1 v L r" "verdicts L = res # rest" "isValid res" "r = Inr v'"
  shows "concept v' = concept v \<and> qcNotes v' = qcNotes v"
  using assms(1)
proof cases
  case (passed f img res' m3 m4)
  with assms(4) qcVerdict_Break [OF passed(6), of ] show ?thesis by simp
next
  case (retry f img res' w evs m3 m4)
  with assms(2,3) qcVerdict_Continue(1) [OF retry(5)] show ?thesis by simp
qed (use assms(2) in simp_all)

lemma qcRun_verdict_on_return:
  assumes "qcRun i v L (Inr v')" "i \<le> 3"
  shows "verdicts L \<noteq> [] \<and> openingFrameData v' \<noteq> None"
  using assms
proof (induction i v L "Inr v' :: exn + LoopVars")
  case (passed i f v img res m3 m4)
  from qcVerdict_Break(3) [OF passed(4)] passed(2) show ?case by simp
next
  case (retry i f v img res w evs m3 m4)
  show ?case
  proof (cases "i + 1 \<le> 3")
    case True
    with retry show ?thesis by simp
  next
    case False
    with qcRun_exhausted [OF retry(5)] qcVerdict_Continue(2) [OF retry(4)] retry(2)
    show ?thesis by simp
  qed
qed simp_all

lemma qcRun_all_rejected:
  assumes "qcRun i v L r" "i \<le> 3" "\<forall>res \<in> set (verdicts L). \<not> isValid res"
    "length (verdicts L) = 4 - i"
  shows "\<exists>v'. r = Inr v'
    \<and> qcNotes v' = ''QC failed after 3 attempts. Using best available image. Final issue: ''
        @ suggestion (last (verdicts L))
    \<and> openingFrameData v' = Some (last (validatedFrames L))"
  using assms
proof induction
  case (passed i f v img res v' m3 m4)
  from qcVerdict_Break(1) [OF passed(4)] passed show ?case by simp
next
  case (retry i f v img res v' evs r m3 m4)
  note c = qcVerdict_Continue [OF retry(4)]
  show ?case
  proof (cases "i = 3")
    case True
    with qcRun_exhausted [OF retry(5)] have "evs = []" "r = Inr v'" by simp_all
    with c True retry(2) show ?thesis by simp
  next
    case False
    with retry.prems retry(2) have "i + 1 \<le> 3" "\<forall>res \<in> set (verdicts evs). \<not> isValid res"
      "length (verdicts evs) = 4 - (i + 1)" by auto
    from retry.IH [OF this] obtain w where w: "r = Inr w"
      "qcNotes w = ''QC failed after 3 attempts. Using best available image. Final issue: ''
        @ suggestion (last (verdicts evs))"
      "openingFrameData w = Some (last (validatedFrames evs))" by blast
    from qcRun_verdict_on_return [of "i + 1" v' evs w] retry(5) w(1) \<open>i + 1 \<le> 3\<close>
    have ne: "verdicts evs \<noteq> []" by simp
    then have "validatedFrames evs \<noteq> []"
      by (induction evs rule: verdicts.induct) simp_all
    with w ne retry(2) show ?thesis by simp
  qed
qed simp_all

subsection \<open>Properties of the stages around the loop\<close>

lemma analysisRun_props:
  assumes "analysisRun A r"
  shows "noQc A \<and> assets A = [] \<and> sorted (steps A) \<and> (\<forall>n \<in> set (steps A). n \<le> 2)
    \<and> concepts A = (case r of Inl e \<Rightarrow> [] | Inr (a, c) \<Rightarrow> [c])"
  using assms
proof cases
  case (early A0 m1 e)
  then show ?thesis by (simp add: silent_quiet)
next
  case (conceptClient A0 m1 m2 e)
  then show ?thesis by (simp add: silent_quiet)
next
  case (conceptCall A0 m1 m2 x y z rc a)
  then show ?thesis by (cases rc) (simp_all add: silent_quiet)
qed

lemma renderRun_props:
  assumes "renderRun d v R ro"
  shows "noQc R \<and> concepts R = [] \<and> sorted (steps R) \<and> (\<forall>n \<in> set (steps R). 5 \<le> n)
    \<and> (openingFrameData v \<noteq> None \<longrightarrow> writingScript \<in> set R)
    \<and> (case ro of Inl e \<Rightarrow> assets R = []
        | Inr out \<Rightarrow> \<exists>a frame. assets R = [a] \<and> openingFrameData v = Some frame
            \<and> ad_copy_variations out = adCopyVariations a \<and> hashtags out = hashtags_assets a
            \<and> qc_notes out = qcNotes v
            \<and> opening_frame_prompt out = openingFramePrompt (concept v)
            \<and> opening_frame_image_url out = frameUrl frame)"
  using assms
proof cases
  case (frameMissing e)
  then show ?thesis by simp
next
  case (aborted frame M e)
  then show ?thesis
    by (auto simp: quiet_def writingScript_def)
next
  case (assetsThrow frame M m8 x y z e)
  then show ?thesis
    by (auto simp: quiet_def writingScript_def sorted_append)
next
  case (completed frame M out a m8 x y z)
  then show ?thesis
    by (auto simp: quiet_def writingScript_def sorted_append)
qed

text \<open>
  Every run splits into events before the loop, the events of the loop, and events after
  it; a run that fails before the loop has an empty loop part.
\<close>

lemma pipelineRun_split:
  assumes "pipelineRun d evs ro"
  shows "\<exists>pre L post i v r. evs = pre @ L @ post \<and> 1 \<le> i \<and> qcRun i v L r
    \<and> noQc pre \<and> noQc post \<and> sorted (steps pre) \<and> (\<forall>n \<in> set (steps pre). n \<le> 2)
    \<and> sorted (steps post) \<and> (\<forall>n \<in> set (steps post). 5 \<le> n)"
  using assms
proof cases
  case (analysisFailed K A e)
  from analysisRun_props [OF analysisFailed(4)] silent_quiet [OF analysisFailed(3)]
    analysisFailed(1) qcRun.exhausted [of 4 undefined]
  show ?thesis
    by (intro exI [of _ "K @ A"] exI [of _ "[]"] exI [of _ 4] exI [of _ undefined]
        exI [of _ "Inr undefined"]) simp
next
  case (loopFailed K A a c L e)
  from analysisRun_props [OF loopFailed(4)] silent_quiet [OF loopFailed(3)]
    loopFailed(1,5)
  show ?thesis
    by (intro exI [of _ "K @ A"] exI [of _ L] exI [of _ "[]"] exI [of _ 1]
        exI [of _ "loopEntry c"] exI [of _ "Inl e"]) simp
next
  case (rendered K A a c L v R)
  from analysisRun_props [OF rendered(3)] silent_quiet [OF rendered(2)]
    renderRun_props [OF rendered(5)] rendered(1,4)
  show ?thesis
    by (intro exI [of _ "K @ A"] exI [of _ L] exI [of _ R] exI [of _ 1]
        exI [of _ "loopEntry c"] exI [of _ "Inr v"]) simp
qed




lemma pipelineRun_qc:
  assumes "pipelineRun d evs ro" "noQc X"
  shows "length (filter isValidateCall (evs @ X)) \<le> 3
    \<and> length (filter isFrameCall (evs @ X)) \<le> 3 \<and> noQc (afterValid (evs @ X))"
proof -
  from pipelineRun_split [OF assms(1)] obtain pre L post i v r
    where sp: "evs = pre @ L @ post" "1 \<le> i" "qcRun i v L r" "noQc pre" "noQc post"
    by blast
  from qcRun_counts [OF sp(3)] sp(2)
  have "length (filter isValidateCall L) \<le> 3" "length (filter isFrameCall L) \<le> 3"
    by auto
  moreover from sp(5) assms(2) have "noQc (post @ X)" by simp
  from qcRun_afterValid [OF sp(3) this] afterValid_noQc_prefix [OF sp(4), of "L @ post @ X"]
  have "noQc (afterValid (evs @ X))" by (simp add: sp(1))
  ultimately show ?thesis
    using sp(4,5) assms(2) by (simp add: sp(1) noQc_projections)
qed

lemma prompt_chain:
  "sorted_wrt prefix (map (\<lambda>k. p @ concat (map g (take k rj))) [0..<n])"
proof -
  have "prefix (p @ concat (map g (take i rj))) (p @ concat (map g (take j rj)))"
    if "i < j" for i j
  proof -
    from that have "take j rj = take i rj @ drop i (take j rj)"
      by (metis append_take_drop_id min.absorb1 nat_less_le take_take)
    then have "concat (map g (take j rj))
        = concat (map g (take i rj)) @ concat (map g (drop i (take j rj)))"
      by (metis concat_append map_append)
    then show ?thesis by simp
  qed
  then show ?thesis
    by (simp add: sorted_wrt_iff_nth_less)
qed

lemma pipelineRun_prompts:
  assumes "pipelineRun d evs ro"
  shows "framePrompts evs = map (\<lambda>k. openingFramePrompt (hd (concepts evs))
        @ concat (map promptFix (take k (rejections evs)))) [0..<length (framePrompts evs)]
    \<and> (\<forall>out. ro = Inr out \<longrightarrow> opening_frame_prompt out
        = openingFramePrompt (hd (concepts evs)) @ concat (map promptFix (rejections evs)))"
  using assms
proof cases
  case (analysisFailed K A e)
  from analysisRun_props [OF analysisFailed(4)] silent_quiet [OF analysisFailed(3)]
    analysisFailed(1,2)
  show ?thesis by (simp add: noQc_projections)
next
  case (loopFailed K A a c L e)
  from analysisRun_props [OF loopFailed(4)] silent_quiet [OF loopFailed(3)]
    qcRun_prompts [OF loopFailed(5)] qcRun_plain [OF loopFailed(5)] loopFailed(1,2)
  show ?thesis by (simp add: noQc_projections loopEntry_def)
next
  case (rendered K A a c L v R)
  from renderRun_props [OF rendered(5)]
  have R: "noQc R" "concepts R = []"
    "\<forall>out. ro = Inr out \<longrightarrow> opening_frame_prompt out = openingFramePrompt (concept v)"
    by (auto split: sum.splits)
  from analysisRun_props [OF rendered(3)] silent_quiet [OF rendered(2)]
    qcRun_prompts [OF rendered(4)] qcRun_plain [OF rendered(4)] rendered(1) R
  show ?thesis by (simp add: noQc_projections loopEntry_def)
qed

lemma pipelineRun_result:
  assumes "pipelineRun d evs (Inr out)"
  shows "\<exists>a c L v frame. assets evs = [a] \<and> concepts evs = [c]
    \<and> verdicts evs = verdicts L \<and> validatedFrames evs = validatedFrames L
    \<and> qcRun 1 (loopEntry c) L (Inr v) \<and> openingFrameData v = Some frame
    \<and> ad_copy_variations out = adCopyVariations a \<and> hashtags out = hashtags_assets a
    \<and> qc_notes out = qcNotes v \<and> opening_frame_prompt out = openingFramePrompt (concept v)
    \<and> opening_frame_image_url out = frameUrl frame"
  using assms
proof cases
  case (rendered K A a c L v R)
  from renderRun_props [OF rendered(5)] obtain x frame
    where R: "noQc R" "concepts R = []" "assets R = [x]" "openingFrameData v = Some frame"
      "ad_copy_variations out = adCopyVariations x" "hashtags out = hashtags_assets x"
      "qc_notes out = qcNotes v" "opening_frame_prompt out = openingFramePrompt (concept v)"
      "opening_frame_image_url out = frameUrl frame"
    by auto
  from analysisRun_props [OF rendered(3)] silent_quiet [OF rendered(2)]
    qcRun_plain [OF rendered(4)] rendered(1,4) R
  show ?thesis
    by (intro exI [of _ x] exI [of _ c] exI [of _ L] exI [of _ v] exI [of _ frame])
      (simp add: noQc_projections)
qed

lemma pipelineRun_three_rejections:
  assumes "pipelineRun d evs ro" "verdicts evs = [r1, r2, r3]"
    "\<not> isValid r1" "\<not> isValid r2" "\<not> isValid r3"
  shows "writingScript \<in> set evs
    \<and> (assets evs \<noteq> [] \<longrightarrow> (\<exists>out. ro = Inr out
        \<and> qc_notes out = ''QC failed after 3 attempts. Using best available image. Final issue: ''
            @ suggestion r3
        \<and> opening_frame_image_url out = frameUrl (last (validatedFrames evs))))"
  using assms(1)
proof cases
  case (analysisFailed K A e)
  from analysisRun_props [OF analysisFailed(4)] silent_quiet [OF analysisFailed(3)]
    analysisFailed(1) assms(2)
  show ?thesis by (simp add: noQc_projections)
next
  case (loopFailed K A a c L e)
  from analysisRun_props [OF loopFailed(4)] silent_quiet [OF loopFailed(3)]
    loopFailed(1) assms(2)
  have "verdicts L = [r1, r2, r3]" by (simp add: noQc_projections)
  with qcRun_all_rejected [OF loopFailed(5)] assms(3-5) show ?thesis by simp
next
  case (rendered K A a c L v R)
  note R = renderRun_props [OF rendered(5)]
  from analysisRun_props [OF rendered(3)] silent_quiet [OF rendered(2)]
    rendered(1) assms(2) R
  have L: "verdicts L = [r1, r2, r3]" "validatedFrames evs = validatedFrames L"
    "assets evs = assets R"
    using qcRun_plain [OF rendered(4)] by (simp_all add: noQc_projections)
  with qcRun_all_rejected [OF rendered(4)] assms(3-5)
  have v: "qcNotes v = ''QC failed after 3 attempts. Using best available image. Final issue: ''
      @ suggestion r3" "openingFrameData v = Some (last (validatedFrames L))"
    by simp_all
  from v(2) R rendered(1) have "writingScript \<in> set evs" by simp
  moreover have "\<exists>out. ro = Inr out
        \<and> qc_notes out = ''QC failed after 3 attempts. Using best available image. Final issue: ''
            @ suggestion r3
        \<and> opening_frame_image_url out = frameUrl (last (validatedFrames evs))"
    if "assets evs \<noteq> []"
  proof (cases ro)
    case (Inl e)
    with R that L(3) show ?thesis by simp
  next
    case (Inr out)
    with R v L(2) show ?thesis by auto
  qed
  ultimately show ?thesis by simp
qed

subsection \<open>The example runs\<close>

lemmas run_defs = handleGenerateAd_def tryBlock_def renderStage_def finishStage_def
  analysisStage_def apiKeyCheck_def qcAttempt_def qcVerdict_def loopEntry_def generateVideo_def
  fetchVideo_def objectURL_def generateSpeech_def generateAdAssets_def
  generateVideoDirectorPrompt_def validateImage_def generateImage_def
  generateOpeningFrameWithActor_def generateAdConcept_def analyzeImage_def fileToBase64_def
  catchBlock_def finallyBlock_def call_def bindE_def bindO_def liftO_def returnE_def throwE_def
  setIsLoading_def setError_def setResult_def setApiKeySelected_def setProgress_def
  updateProgress_def emit_def newError_def decode_def getAiClient_def
  scriptedEnv_def nextVerdict_def nextJob_def pending_def finished_def rejected_def
  accepted_def brief_def start_def idle_def POLLING_INTERVAL_def
  qcLoop.simps pollLoop.simps showNat.simps

lemma retry_run:
  "handleGenerateAd scriptedEnv brief (start retryScript) = Some (Inr (), retryFinal)"
  by (simp add: run_defs retryScript_def retryFinal_def)

lemma exhaust_run:
  "handleGenerateAd scriptedEnv brief (start exhaustScript) = Some (Inr (), exhaustFinal)"
  by (simp add: run_defs exhaustScript_def exhaustFinal_def)

lemma pass_run:
  "handleGenerateAd scriptedEnv brief (start passScript) = Some (Inr (), passFinal)"
  by (simp add: run_defs passScript_def passFinal_def)

lemma scripted_check:
  "apiKeyCheck scriptedEnv (setResult None (setError None (setIsLoading True (start w))))
    = (Inr (), loading w)"
  by (simp add: loading_def apiKeyCheck_def scriptedEnv_def returnE_def)

lemma noJob_try:
  "tryBlock scriptedEnv brief (loading noJobScript)
    = Some (Inl (Thrown (Some ''404: Requested entity was not found.'')), noJobFailed)"
  by (simp add: run_defs loading_def noJobScript_def noJobFailed_def)

lemma unreadable_try:
  "tryBlock scriptedEnv unreadableBrief (loading passScript)
    = Some (Inl (Thrown None), unreadableFailed)"
  by (simp add: run_defs loading_def passScript_def unreadableBrief_def unreadableFailed_def)

lemma unreadable_run:
  "handleGenerateAd scriptedEnv unreadableBrief (start passScript)
    = Some (Inr (), unreadableFinal)"
  by (simp add: run_defs passScript_def unreadableBrief_def unreadableFinal_def
      credentialFailure_def)

lemma video_run:
  "generateVideo scriptedEnv ''One continuous scene''
      \<lparr>base64 = ''IMG14'', mimeType = ''image/jpeg''\<rparr> Portrait_9_16 (updateProgress 6)
      (start retryScript)
    = Some (Inr ''blob:video/mp4'', videoFinal)"
  by (simp add: run_defs retryScript_def videoFinal_def)

subsection \<open>What the example runs show\<close>

lemma start_trace: "trace (start w) = []"
  by (simp add: start_def)

lemma retryFinal_qc:
  "length (filter isValidateCall (trace retryFinal)) = 2"
  "length (filter isFrameCall (trace retryFinal)) = 2"
  "map isValid (verdicts (trace retryFinal)) = [False, True]"
  "filter isFrameCall (afterValid (trace retryFinal)) = []"
  "filter isValidateCall (afterValid (trace retryFinal)) = []"
  by (simp_all add: retryFinal_def)

lemma retryFinal_prompts:
  "framePrompts (trace retryFinal)
    = [''Full body shot'', ''Full body shot. IMPORTANT FIX: feet cut off'']"
  "sorted_wrt prefix (framePrompts (trace retryFinal))"
  "rejections (trace retryFinal) = [rejected ''feet cut off'']"
  "map_option opening_frame_prompt (result (app retryFinal))
    = Some (''Full body shot'' @ promptFix (rejected ''feet cut off''))"
  by (simp_all add: retryFinal_def rejected_def rejections_def promptFix_def)

lemma passFinal_assets:
  "assets (trace passFinal) = [\<lparr>adCopyVariations = [''Wear it'', ''Own it'', ''Love it''],
      hashtags_assets = [''silk'', ''dress'', ''summer'', ''red'', ''style'']\<rparr>]"
  by (simp add: passFinal_def)

lemma passFinal_result:
  "map_option ad_copy_variations (result (app passFinal))
    = Some [''Wear it'', ''Own it'', ''Love it'']"
  "map_option hashtags (result (app passFinal))
    = Some [''silk'', ''dress'', ''summer'', ''red'', ''style'']"
  "map_option opening_frame_prompt (result (app passFinal)) = Some ''Full body shot''"
  "map_option qc_notes (result (app passFinal)) = Some ''QC passed on first attempt.''"
  "result (app passFinal) = Some (the (result (app passFinal)))"
  by (simp_all add: passFinal_def)

lemma passFinal_trace:
  "verdicts (trace passFinal) = [accepted]"
  "map openingFramePrompt (concepts (trace passFinal)) = [''Full body shot'']"
  "length (filter isFrameCall (trace passFinal)) = 1"
  "steps (butlast (trace passFinal)) = [1, 2, 3, 4, 5, 6, 6, 6, 6, 8]"
  "rejections (trace passFinal) = []"
  "last (trace passFinal) = SetProgress idle"
  by (simp_all add: passFinal_def accepted_def idle_def rejections_def)


lemma unreadableFinal_error:
  "error (app unreadableFinal) = Some ''An unknown error occurred.''"
  by (simp add: unreadableFinal_def)

lemma quota_try:
  "\<exists>s2. tryBlock scriptedEnv brief (loading quotaScript)
    = Some (Inl (Thrown (Some ''quota exceeded'')), s2)"
  by (simp add: run_defs loading_def quotaScript_def)

subsection \<open>The claims about the retry loop and the error path\<close>

text \<open>
  Claim C1. In every run of the pipeline that ends, frame validation is called at most three
  times (and so is frame generation), and after the first validation that returns a valid
  verdict no further frame generation or validation call is made.
\<close>

theorem qc_loop_bounded:
  assumes "handleGenerateAd P d s = Some (r, s')" "trace s = []"
  shows "length (filter isValidateCall (trace s')) \<le> 3
    \<and> length (filter isFrameCall (trace s')) \<le> 3
    \<and> (\<forall>e \<in> set (afterValid (trace s')). \<not> isFrameCall e \<and> \<not> isValidateCall e)"
proof (cases r)
  case (Inr u)
  with assms(1) have "handleGenerateAd P d s = Some (Inr (), s')" by simp
  from handleGenerateAd_run [OF this] assms(2) obtain evs ro
    where run: "trace s' = evs @ [SetProgress idle]" "pipelineRun d evs ro"
    by auto
  have "noQc [SetProgress idle]" by simp
  from pipelineRun_qc [OF run(2) this] run(1) show ?thesis
    by (simp add: noQc_def)
next
  case (Inl e)
  let ?s0 = "setResult None (setError None (setIsLoading True s))"
  have s0: "trace ?s0 = trace s"
    by (simp add: setResult_def setError_def setIsLoading_def)
  from assms(1) have "apiKeyCheck P ?s0 = (Inl e, s')"
    unfolding handleGenerateAd_def Inl
    by (cases rule: bindO_cases) (auto simp: liftO_def split: option.splits prod.splits sum.splits)
  from apiKeyCheck_run [OF this] s0 assms(2) obtain K
    where K: "trace s' = K" "\<forall>e \<in> set K. silent e"
    by auto
  from silent_quiet(1) [OF K(2)] have "noQc (trace s')" by (simp add: K(1))
  from noQc_projections [OF this] show ?thesis by simp
qed

theorem qc_loop_bounded_witness:
  "handleGenerateAd scriptedEnv brief (start retryScript) = Some (Inr (), retryFinal)
    \<and> trace (start retryScript) = []
    \<and> length (filter isValidateCall (trace retryFinal)) = 2
    \<and> length (filter isFrameCall (trace retryFinal)) = 2
    \<and> map isValid (verdicts (trace retryFinal)) = [False, True]
    \<and> filter isFrameCall (afterValid (trace retryFinal)) = []
    \<and> filter isValidateCall (afterValid (trace retryFinal)) = []"
  using qc_loop_bounded [OF retry_run start_trace] retry_run
  by (simp add: start_trace retryFinal_qc)

text \<open>
  Claim C3. Across the attempts of a run the opening-frame prompt only grows: the prompt
  given to the \<open>k\<close>-th frame generation is the prompt of the concept followed by the fixes
  of the first \<open>k\<close> rejections, in order, so each prompt is a prefix of every later one;
  and the prompt of a \<^verbatim>\<open>FinalOutput\<close> is the prompt of the concept followed by the fixes
  of all rejections.
\<close>

theorem prompt_append_only:
  assumes "handleGenerateAd P d s = Some (Inr (), s')" "trace s = []"
  shows "sorted_wrt prefix (framePrompts (trace s'))
    \<and> (\<forall>k < length (framePrompts (trace s')). framePrompts (trace s') ! k
        = openingFramePrompt (hd (concepts (trace s')))
          @ concat (map promptFix (take k (rejections (trace s')))))
    \<and> (\<forall>out. result (app s') = Some out \<longrightarrow> opening_frame_prompt out
        = openingFramePrompt (hd (concepts (trace s')))
          @ concat (map promptFix (rejections (trace s'))))"
proof -
  from handleGenerateAd_run [OF assms(1)] assms(2) obtain evs ro
    where run: "trace s' = evs @ [SetProgress idle]" "pipelineRun d evs ro"
      "result (app s') = (case ro of Inl e \<Rightarrow> None | Inr out \<Rightarrow> Some out)"
    by auto
  let ?p = "openingFramePrompt (hd (concepts evs))"
  let ?f = "\<lambda>k. ?p @ concat (map promptFix (take k (rejections evs)))"
  from pipelineRun_prompts [OF run(2)]
  have fp: "framePrompts evs = map ?f [0..<length (framePrompts evs)]"
    and out: "\<forall>out. ro = Inr out \<longrightarrow> opening_frame_prompt out
        = ?p @ concat (map promptFix (rejections evs))"
    by simp_all
  have same: "framePrompts (trace s') = framePrompts evs" "concepts (trace s') = concepts evs"
    "rejections (trace s') = rejections evs"
    by (simp_all add: run(1) rejections_def)
  have "sorted_wrt prefix (framePrompts evs)"
    by (subst fp) (rule prompt_chain)
  moreover have "framePrompts evs ! k = ?f k" if "k < length (framePrompts evs)" for k
  proof -
    from that have "map ?f [0..<length (framePrompts evs)] ! k = ?f k" by simp
    with fp show ?thesis by simp
  qed
  moreover have "opening_frame_prompt out = ?p @ concat (map promptFix (rejections evs))"
    if "result (app s') = Some out" for out
    using that out run(3) by (cases ro) simp_all
  ultimately show ?thesis by (simp add: same)
qed

theorem prompt_append_only_witness:
  "handleGenerateAd scriptedEnv brief (start retryScript) = Some (Inr (), retryFinal)
    \<and> trace (start retryScript) = []
    \<and> framePrompts (trace retryFinal)
        = [''Full body shot'', ''Full body shot. IMPORTANT FIX: feet cut off'']
    \<and> sorted_wrt prefix (framePrompts (trace retryFinal))
    \<and> rejections (trace retryFinal) = [rejected ''feet cut off'']
    \<and> map_option opening_frame_prompt (result (app retryFinal))
        = Some (''Full body shot'' @ promptFix (rejected ''feet cut off''))"
  using prompt_append_only [OF retry_run start_trace] retry_run
  by (simp add: start_trace retryFinal_prompts)

text \<open>
  Claim C8. Submitting the form without a product image only prevents the default
  submission and alerts \<open>Please upload a product image.\<close>: the pipeline is not started, so
  no provider is called and no progress is reported, and the application state and the
  outside world stay as they were.
\<close>

theorem missing_image_rejected:
  assumes "productImage formData = None"
  shows "submitForm P formData s
    = Some (Inr (), s\<lparr>trace := trace s @ [PreventDefault, Alert ''Please upload a product image.'']\<rparr>)"
  using assms by (simp add: submitForm_def handleSubmit_def emit_def)

theorem missing_image_rejected_witness:
  "productImage (brief\<lparr>productImage := None\<rparr>) = None
    \<and> submitForm scriptedEnv (brief\<lparr>productImage := None\<rparr>) (start passScript)
      = Some (Inr (), (start passScript)
          \<lparr>trace := [PreventDefault, Alert ''Please upload a product image.'']\<rparr>)
    \<and> filter isProviderCall [PreventDefault, Alert ''Please upload a product image.''] = []
    \<and> filter isProgress [PreventDefault, Alert ''Please upload a product image.''] = []"
  using missing_image_rejected [of "brief\<lparr>productImage := None\<rparr>" scriptedEnv "start passScript"]
  by (simp add: start_def)

text \<open>
  Claim C9 (as the code has it). When the try block ends with a thrown value \<open>e\<close>, the run
  ends normally with no result and an error message. If the message of \<open>e\<close> contains
  \<open>Requested entity was not found\<close>, the error message is the one asking for a valid API
  key and the key flag is set to false. Otherwise the key flag stays what it was when the
  try block was entered, and the error message is the message of \<open>e\<close> if \<open>e\<close> has a
  non-empty message, and \<open>An unknown error occurred.\<close> if \<open>e\<close> has no message or an empty
  one.
\<close>

theorem stage_error_surfaced:
  assumes "apiKeyCheck P (setResult None (setError None (setIsLoading True s))) = (Inr u, s1)"
    and "tryBlock P d s1 = Some (Inl e, s2)"
  shows "\<exists>s'. handleGenerateAd P d s = Some (Inr (), s') \<and> result (app s') = None
    \<and> (if credentialFailure e
        then error (app s')
            = Some ''API Key not found or invalid. Please select a valid API key and try again.''
          \<and> apiKeySelected (app s') = Some False
        else apiKeySelected (app s') = apiKeySelected (app s1)
          \<and> (case messageOf e of
                None \<Rightarrow> error (app s') = Some ''An unknown error occurred.''
              | Some m \<Rightarrow> error (app s')
                  = Some (if m = [] then ''An unknown error occurred.'' else m)))"
proof -
  let ?s0 = "setResult None (setError None (setIsLoading True s))"
  let ?s' = "finallyBlock (catchBlock e s2)"
  have s0: "result (app ?s0) = None"
    by (simp add: setResult_def)
  from apiKeyCheck_run [OF assms(1)] s0 have s1: "result (app s1) = None" by auto
  from tryBlock_run [OF assms(2)] obtain evs ro
    where y: "yields s1 (Inl e) s2 evs ro" by blast
  then have s2: "result (app s2) = None" "apiKeySelected (app s2) = apiKeySelected (app s1)"
    using s1 by (cases ro; simp add: yields_def)+
  have run: "handleGenerateAd P d s = Some (Inr (), ?s')"
    using assms by (simp add: handleGenerateAd_def bindO_def liftO_def)
  have "result (app ?s') = None"
    by (simp add: finallyBlock_app catchBlock_app s2)
  moreover have "error (app ?s') = Some (surfaced e)"
    "apiKeySelected (app ?s')
      = (if credentialFailure e then Some False else apiKeySelected (app s1))"
    by (simp_all add: finallyBlock_app catchBlock_app s2)
  ultimately show ?thesis using run
    by (intro exI [of _ ?s']) (cases "messageOf e"; simp add: surfaced_def)
qed

theorem stage_error_surfaced_witness:
  "tryBlock scriptedEnv brief (loading noJobScript)
      = Some (Inl (Thrown (Some ''404: Requested entity was not found.'')), noJobFailed)
    \<and> credentialFailure (Thrown (Some ''404: Requested entity was not found.''))
    \<and> (\<exists>s'. handleGenerateAd scriptedEnv brief (start noJobScript) = Some (Inr (), s')
        \<and> result (app s') = None
        \<and> error (app s')
            = Some ''API Key not found or invalid. Please select a valid API key and try again.''
        \<and> apiKeySelected (app s') = Some False)
    \<and> (\<exists>s2. tryBlock scriptedEnv brief (loading quotaScript)
          = Some (Inl (Thrown (Some ''quota exceeded'')), s2))
    \<and> \<not> credentialFailure (Thrown (Some ''quota exceeded''))
    \<and> (\<exists>s'. handleGenerateAd scriptedEnv brief (start quotaScript) = Some (Inr (), s')
        \<and> result (app s') = None \<and> error (app s') = Some ''quota exceeded''
        \<and> apiKeySelected (app s') = Some True)"
proof -
  have found: "credentialFailure (Thrown (Some ''404: Requested entity was not found.''))"
    and quota: "\<not> credentialFailure (Thrown (Some ''quota exceeded''))"
    by (simp_all add: credentialFailure_def)
  from quota_try obtain s2 where s2: "tryBlock scriptedEnv brief (loading quotaScript)
      = Some (Inl (Thrown (Some ''quota exceeded'')), s2)" ..
  have key: "apiKeySelected (app (loading quotaScript)) = Some True"
    by (simp add: loading_def start_def setResult_def setError_def setIsLoading_def)
  from stage_error_surfaced [OF scripted_check noJob_try] stage_error_surfaced [OF scripted_check s2]
    noJob_try quota_try found quota key
  show ?thesis by auto
qed

theorem missing_message_counterexample:
  "tryBlock scriptedEnv unreadableBrief (loading passScript)
      = Some (Inl (Thrown None), unreadableFailed)
    \<and> handleGenerateAd scriptedEnv unreadableBrief (start passScript)
      = Some (Inr (), unreadableFinal)
    \<and> \<not> credentialFailure (Thrown None)
    \<and> messageOf (Thrown None) = None
    \<and> error (app unreadableFinal) = Some ''An unknown error occurred.''
    \<and> error (app unreadableFinal) \<noteq> messageOf (Thrown None)"
  using unreadable_try unreadable_run
  by (simp add: credentialFailure_def unreadableFinal_error)

text \<open>
  Claim C10. If the first validation of a run returns a valid verdict, the
  \<^verbatim>\<open>FinalOutput\<close> of the run has the opening-frame prompt that concept generation
  returned, unchanged, and the QC note \<open>QC passed on first attempt.\<close>
\<close>

theorem first_attempt_pass_leaves_concept:
  assumes "handleGenerateAd P d s = Some (Inr (), s')" "trace s = []"
    and "result (app s') = Some out"
    and "verdicts (trace s') = res # rest" "isValid res"
  shows "opening_frame_prompt out = openingFramePrompt (hd (concepts (trace s')))
    \<and> qc_notes out = ''QC passed on first attempt.''"
proof -
  from handleGenerateAd_run [OF assms(1)] assms(2) obtain evs ro
    where run: "trace s' = evs @ [SetProgress idle]" "pipelineRun d evs ro"
      "result (app s') = (case ro of Inl e \<Rightarrow> None | Inr out \<Rightarrow> Some out)"
    by auto
  from run(3) assms(3) have ro: "ro = Inr out" by (cases ro) simp_all
  from pipelineRun_result [OF run(2) [unfolded ro]] obtain c L v
    where r: "concepts evs = [c]" "verdicts evs = verdicts L"
      "qcRun 1 (loopEntry c) L (Inr v)" "qc_notes out = qcNotes v"
      "opening_frame_prompt out = openingFramePrompt (concept v)"
    by blast
  from assms(4) run(1) r(2) have "verdicts L = res # rest" by simp
  from qcRun_first_pass [OF r(3) this assms(5) refl]
  have "concept v = c" "qcNotes v = ''QC passed on first attempt.''"
    by (simp_all add: loopEntry_def)
  with r run(1) show ?thesis by simp
qed

theorem first_attempt_pass_leaves_concept_witness:
  "handleGenerateAd scriptedEnv brief (start passScript) = Some (Inr (), passFinal)
    \<and> trace (start passScript) = []
    \<and> verdicts (trace passFinal) = [accepted] \<and> isValid accepted
    \<and> map openingFramePrompt (concepts (trace passFinal)) = [''Full body shot'']
    \<and> map_option opening_frame_prompt (result (app passFinal)) = Some ''Full body shot''
    \<and> map_option qc_notes (result (app passFinal)) = Some ''QC passed on first attempt.''"
  using first_attempt_pass_leaves_concept [OF pass_run start_trace passFinal_result(5)
      passFinal_trace(1)] pass_run
  by (simp add: start_trace passFinal_trace passFinal_result(3,4) accepted_def)

subsection \<open>The polling loop, read as ticks\<close>

lemma ticks_pollTick [simp]: "ticks (pollTick k) = pollTick k"
  by (simp add: ticks_def pollTick_def)

lemma reports_pollTick [simp]: "reports (pollTick k) = []"
  by (simp add: pollTick_def)

lemma ticks_Cons [simp]: "ticks (e # es) = (if isTick e then e # ticks es else ticks es)"
  by (simp add: ticks_def)

lemma ticks_Nil [simp]: "ticks [] = []"
  by (simp add: ticks_def)

lemma videoFinal_facts:
  "map op_done (reports (trace videoFinal)) = [False, False, True]"
  "ticks (trace videoFinal) =
    [videoStarting, videoInitiated,
     Sleep 10000,
     SetProgress \<lparr>step = 6, message = ''Polling for video status (Attempt #1)...''\<rparr>,
     Sleep 10000,
     SetProgress \<lparr>step = 6, message = ''Polling for video status (Attempt #2)...''\<rparr>,
     videoSucceeded]"
  by (simp_all add: videoFinal_def videoStarting_def videoInitiated_def videoSucceeded_def)

subsection \<open>The polling loop ends when the provider reports done\<close>

lemma pollLoop_answers:
  assumes "pollAnswers P operation (world s) answers"
    and "\<forall>x \<in> set (butlast (operation # map fst answers)). \<not> op_done x"
    and "op_done (last (operation # map fst answers))"
  shows "\<exists>s' evs. pollLoop P (updateProgress 6) operation k s
        = Some (Inr (last (operation # map fst answers)), s')
    \<and> emits s s' evs \<and> reports evs = map fst answers
    \<and> ticks evs = concat (map pollTick [k..<k + length answers])"
  using assms
proof (induction answers arbitrary: operation s k)
  case Nil
  then have "pollLoop P (updateProgress 6) operation k s = Some (Inr operation, s)"
    by (simp add: pollLoop.simps)
  then show ?case by (intro exI [of _ s] exI [of _ "[]"]) simp
next
  case (Cons a answers)
  obtain operation' w' where a: "a = (operation', w')" by (cases a)
  from Cons.prems(2) have pending: "\<not> op_done operation" by (simp add: a)
  let ?s1 = "updateProgress 6 (''Polling for video status (Attempt #'' @ showNat k @ '')...'')
      (emit (Sleep POLLING_INTERVAL) s)"
  let ?s2 = "?s1\<lparr>world := w',
      trace := trace ?s1 @ [GetVideosOperation operation (Inr operation')]\<rparr>"
  have w1: "world ?s1 = world s"
    by (simp add: updateProgress_def setProgress_def emit_def)
  from Cons.prems(1) have ans: "getVideosOperation P operation (world s) = (Inr operation', w')"
    and rest: "pollAnswers P operation' w' answers"
    by (simp_all add: a)
  from ans w1 have c: "call (getVideosOperation P operation) (GetVideosOperation operation) ?s1
      = (Inr operation', ?s2)"
    by (simp add: call_def)
  note em = pollStep_emits [OF c]
  have "world ?s2 = w'" by simp
  with rest have r2: "pollAnswers P operation' (world ?s2) answers" by simp
  from Cons.prems(2,3) have p2: "\<forall>x \<in> set (butlast (operation' # map fst answers)). \<not> op_done x"
    and d2: "op_done (last (operation' # map fst answers))"
    by (simp_all add: a)
  from Cons.IH [OF r2 p2 d2, of "k + 1"] obtain s' evs
    where run: "pollLoop P (updateProgress 6) operation' (k + 1) ?s2
        = Some (Inr (last (operation' # map fst answers)), s')"
      and evs: "emits ?s2 s' evs" "reports evs = map fst answers"
        "ticks evs = concat (map pollTick [k + 1..<k + 1 + length answers])"
    by blast
  have "pollLoop P (updateProgress 6) operation k s
      = pollLoop P (updateProgress 6) operation' (k + 1) ?s2"
    by (subst pollLoop.simps) (simp only: pending c if_True prod.case sum.case not_False_eq_True)
  with run have loop: "pollLoop P (updateProgress 6) operation k s
      = Some (Inr (last (operation # map fst (a # answers))), s')"
    by (simp add: a)
  have "[k..<k + length (a # answers)] = k # [k + 1..<k + 1 + length answers]"
    by (simp add: upt_rec)
  with evs(2,3)
  have "reports (pollTick k @ [GetVideosOperation operation (Inr operation')] @ evs)
      = map fst (a # answers)"
    "ticks (pollTick k @ [GetVideosOperation operation (Inr operation')] @ evs)
      = concat (map pollTick [k..<k + length (a # answers)])"
    by (simp_all add: a)
  with loop emits_trans [OF em evs(1)] show ?case
    by (intro exI [of _ s']
        exI [of _ "pollTick k @ [GetVideosOperation operation (Inr operation')] @ evs"]) simp
qed

lemma fetchVideo_ticks:
  assumes "fetchVideo P (updateProgress 6) operation s = (r, s')" "op_done operation"
  shows "\<exists>evs. emits s s' evs \<and> reports evs = []
    \<and> ticks evs = (if usable operation then [videoSucceeded] else [])"
  using fetchVideo_run [OF assms]
proof
  assume "\<not> usable operation \<and> (\<exists>e. r = Inl e) \<and> s' = s"
  then show ?thesis by (intro exI [of _ "[]"]) simp
next
  assume a: "usable operation
    \<and> (\<exists>dl. emits s s' (videoSucceeded # dl) \<and> (\<forall>e \<in> set dl. silent e))"
  then obtain dl where dl: "emits s s' (videoSucceeded # dl)" "\<forall>e \<in> set dl. silent e"
    by blast
  from a silent_quiet(5,6) [OF dl(2)] dl(1) show ?thesis
    by (intro exI [of _ "videoSucceeded # dl"]) (simp add: videoSucceeded_def)
qed

lemma generateVideo_polls:
  assumes client: "clientError P (world s) = None"
    and submit: "generateVideos P prompt frame ratio (world s) = (Inr operation0, w0)"
    and polls: "pollAnswers P operation0 w0 answers"
    and pending: "\<forall>x \<in> set (butlast (operation0 # map fst answers)). \<not> op_done x"
    and finished: "op_done (last (operation0 # map fst answers))"
  shows "\<exists>s3 pevs. generateVideo P prompt frame ratio (updateProgress 6) s
        = Some (fetchVideo P (updateProgress 6) (last (operation0 # map fst answers)) s3)
    \<and> emits s s3 ([videoStarting, GenerateVideos prompt frame ratio (Inr operation0),
          videoInitiated] @ pevs)
    \<and> reports pevs = map fst answers
    \<and> ticks pevs = concat (map pollTick [1..<Suc (length answers)])"
proof -
  let ?s0 = "updateProgress 6 ''Starting video generation with Veo...'' s"
  let ?s1 = "?s0\<lparr>world := w0,
      trace := trace ?s0 @ [GenerateVideos prompt frame ratio (Inr operation0)]\<rparr>"
  let ?s2 = "updateProgress 6
      ''Video processing initiated. This can take several minutes. Polling for status...'' ?s1"
  let ?last = "last (operation0 # map fst answers)"
  have e0: "emits s ?s0 [videoStarting]"
    unfolding videoStarting_def by (rule emits_updateProgress)
  have w0: "world ?s0 = world s"
    by (simp add: updateProgress_def setProgress_def)
  with submit have c: "call (generateVideos P prompt frame ratio)
      (GenerateVideos prompt frame ratio) ?s0 = (Inr operation0, ?s1)"
    by (simp add: call_def)
  have e2: "emits s ?s2 [videoStarting, GenerateVideos prompt frame ratio (Inr operation0),
      videoInitiated]"
    using emits_trans [OF emits_trans [OF e0 emits_call [OF c]] emits_updateProgress]
    by (simp add: videoInitiated_def)
  have "world ?s2 = w0"
    by (simp add: updateProgress_def setProgress_def)
  with polls have "pollAnswers P operation0 (world ?s2) answers" by simp
  from pollLoop_answers [OF this pending finished, of 1] obtain s3 pevs
    where loop: "pollLoop P (updateProgress 6) operation0 1 ?s2 = Some (Inr ?last, s3)"
      and pevs: "emits ?s2 s3 pevs" "reports pevs = map fst answers"
        "ticks pevs = concat (map pollTick [1..<1 + length answers])"
    by blast
  have "generateVideo P prompt frame ratio (updateProgress 6) s
      = Some (fetchVideo P (updateProgress 6) ?last s3)"
    using client c loop
    by (simp add: generateVideo_def bindO_def liftO_def getAiClient_def returnE_def)
  with emits_trans [OF e2 pevs(1)] pevs(2,3) show ?thesis
    by (intro exI [of _ s3] exI [of _ pevs]) simp
qed

text \<open>
  Claim C4. When the client can be built and the provider accepts the job, and the
  operation states it reports (the one returned by the submission, then one per poll) are
  not done until the last one, which is done, then \<^verbatim>\<open>generateVideo\<close> ends: it polls once
  for every state reported as not done, each time after waiting the polling interval of
  10 seconds and reporting a polling message whose counter runs 1, 2, and so on, and it
  reports success after the last poll exactly when the final operation has no error and a
  result URI. In particular a job reported as not done twice and then done gives exactly
  the polling messages 1 and 2 between the start of polling and the success message.
\<close>

theorem video_polling:
  assumes client: "clientError P (world s) = None"
    and submit: "generateVideos P prompt frame ratio (world s) = (Inr operation0, w0)"
    and polls: "pollAnswers P operation0 w0 answers"
    and pending: "\<forall>x \<in> set (butlast (operation0 # map fst answers)). \<not> op_done x"
    and finished: "op_done (last (operation0 # map fst answers))"
  shows "\<exists>r s' evs. generateVideo P prompt frame ratio (updateProgress 6) s = Some (r, s')
    \<and> trace s' = trace s @ evs
    \<and> reports evs = operation0 # map fst answers
    \<and> ticks evs = [videoStarting, videoInitiated]
        @ concat (map (\<lambda>k. [Sleep 10000, SetProgress \<lparr>step = 6,
              message = ''Polling for video status (Attempt #'' @ showNat k @ '')...''\<rparr>])
            [1..<Suc (length answers)])
        @ (if usable (last (operation0 # map fst answers)) then [videoSucceeded] else [])
    \<and> (length answers = 2 \<longrightarrow> ticks evs = [videoStarting, videoInitiated,
          Sleep 10000,
          SetProgress \<lparr>step = 6, message = ''Polling for video status (Attempt #1)...''\<rparr>,
          Sleep 10000,
          SetProgress \<lparr>step = 6, message = ''Polling for video status (Attempt #2)...''\<rparr>]
        @ (if usable (last (operation0 # map fst answers)) then [videoSucceeded] else []))"
proof -
  have tick: "pollTick = (\<lambda>k. [Sleep 10000, SetProgress \<lparr>step = 6,
      message = ''Polling for video status (Attempt #'' @ showNat k @ '')...''\<rparr>])"
    by (rule ext) (simp add: pollTick_def POLLING_INTERVAL_def)
  have t12: "pollTick 1 @ pollTick 2 = [Sleep 10000,
      SetProgress \<lparr>step = 6, message = ''Polling for video status (Attempt #1)...''\<rparr>,
      Sleep 10000,
      SetProgress \<lparr>step = 6, message = ''Polling for video status (Attempt #2)...''\<rparr>]"
    by (simp add: pollTick_def POLLING_INTERVAL_def showNat.simps)
  let ?last = "last (operation0 # map fst answers)"
  from generateVideo_polls [OF client submit polls pending finished] obtain s3 pevs
    where gv: "generateVideo P prompt frame ratio (updateProgress 6) s
        = Some (fetchVideo P (updateProgress 6) ?last s3)"
      and pre: "emits s s3 ([videoStarting, GenerateVideos prompt frame ratio (Inr operation0),
          videoInitiated] @ pevs)"
      and pevs: "reports pevs = map fst answers"
        "ticks pevs = concat (map pollTick [1..<Suc (length answers)])"
    by blast
  obtain r s' where fv: "fetchVideo P (updateProgress 6) ?last s3 = (r, s')"
    by (cases "fetchVideo P (updateProgress 6) ?last s3")
  from fetchVideo_ticks [OF fv finished] obtain dl
    where dl: "emits s3 s' dl" "reports dl = []"
      "ticks dl = (if usable ?last then [videoSucceeded] else [])"
    by blast
  from gv fv have run: "generateVideo P prompt frame ratio (updateProgress 6) s = Some (r, s')"
    by simp
  let ?evs = "[videoStarting, GenerateVideos prompt frame ratio (Inr operation0),
      videoInitiated] @ pevs @ dl"
  from emits_trans [OF pre dl(1)]
  have tr: "trace s' = trace s @ ?evs" by (simp add: emits_def)
  have rp: "reports ?evs = operation0 # map fst answers"
    using pevs(1) dl(2) by (simp add: videoStarting_def videoInitiated_def)
  have tk: "ticks ?evs = [videoStarting, videoInitiated]
      @ concat (map pollTick [1..<Suc (length answers)])
      @ (if usable ?last then [videoSucceeded] else [])"
    using pevs(2) dl(3) by (simp add: videoStarting_def videoInitiated_def del: upt_Suc)
  have two: "ticks ?evs = [videoStarting, videoInitiated] @ pollTick 1 @ pollTick 2
      @ (if usable ?last then [videoSucceeded] else [])" if "length answers = 2"
  proof -
    have "[1..<3] = [1, 2 :: nat]" by (simp add: upt_rec)
    with tk that show ?thesis by (simp add: numeral_3_eq_3 [symmetric] del: upt_Suc)
  qed
  from two t12 have two': "ticks ?evs = [videoStarting, videoInitiated,
        Sleep 10000,
        SetProgress \<lparr>step = 6, message = ''Polling for video status (Attempt #1)...''\<rparr>,
        Sleep 10000,
        SetProgress \<lparr>step = 6, message = ''Polling for video status (Attempt #2)...''\<rparr>]
      @ (if usable ?last then [videoSucceeded] else [])" if "length answers = 2"
    using that by simp
  from run tr rp tk [unfolded tick] two' show ?thesis
    by (intro exI [of _ r] exI [of _ s'] exI [of _ ?evs]) (simp del: upt_Suc)
qed

lemma retry_job:
  "clientError scriptedEnv (world (start retryScript)) = None"
  "generateVideos scriptedEnv ''One continuous scene''
      \<lparr>base64 = ''IMG14'', mimeType = ''image/jpeg''\<rparr> Portrait_9_16 (world (start retryScript))
    = (Inr pending, retryScript\<lparr>jobScript := [pending, finished]\<rparr>)"
  "pollAnswers scriptedEnv pending (retryScript\<lparr>jobScript := [pending, finished]\<rparr>)
    [(pending, retryScript\<lparr>jobScript := [finished]\<rparr>),
     (finished, retryScript\<lparr>jobScript := []\<rparr>)]"
  "\<not> op_done pending" "op_done finished" "usable finished"
  by (simp_all add: scriptedEnv_def nextJob_def retryScript_def start_def pending_def
      finished_def usable_def)

theorem video_polling_witness:
  "clientError scriptedEnv (world (start retryScript)) = None
    \<and> generateVideos scriptedEnv ''One continuous scene''
        \<lparr>base64 = ''IMG14'', mimeType = ''image/jpeg''\<rparr> Portrait_9_16
        (world (start retryScript))
      = (Inr pending, retryScript\<lparr>jobScript := [pending, finished]\<rparr>)
    \<and> pollAnswers scriptedEnv pending (retryScript\<lparr>jobScript := [pending, finished]\<rparr>)
        [(pending, retryScript\<lparr>jobScript := [finished]\<rparr>),
         (finished, retryScript\<lparr>jobScript := []\<rparr>)]
    \<and> \<not> op_done pending \<and> op_done finished \<and> usable finished
    \<and> generateVideo scriptedEnv ''One continuous scene''
        \<lparr>base64 = ''IMG14'', mimeType = ''image/jpeg''\<rparr> Portrait_9_16 (updateProgress 6)
        (start retryScript) = Some (Inr ''blob:video/mp4'', videoFinal)
    \<and> map op_done (reports (trace videoFinal)) = [False, False, True]
    \<and> ticks (trace videoFinal) =
        [videoStarting, videoInitiated,
         Sleep 10000,
         SetProgress \<lparr>step = 6, message = ''Polling for video status (Attempt #1)...''\<rparr>,
         Sleep 10000,
         SetProgress \<lparr>step = 6, message = ''Polling for video status (Attempt #2)...''\<rparr>,
         videoSucceeded]"
  using video_polling [OF retry_job(1,2,3)] video_run retry_job
  by (simp add: videoFinal_facts)

subsection \<open>The audio container of the voiceover\<close>

lemma decode_length:
  assumes "decode P b64 = Inr audioBytes"
  shows "length audioBytes \<le> maxStringLength"
proof -
  have "length (codeUnits x) \<le> maxStringLength" for x
    by transfer simp
  with assms show ?thesis
    by (auto simp: decode_def split: sum.splits)
qed

lemma generateSpeech_blob:
  assumes "generateSpeech P t s = (Inr url, s')"
  shows "\<exists>b64 audioBytes. decode P b64 = Inr audioBytes
    \<and> trace s' = trace s @ [SpeechContent t (Inr (Some b64)),
         CreateObjectURL \<lparr>blob_bytes = wavBytes audioBytes, blob_type = ''audio/wav''\<rparr> url]"
  using assms unfolding generateSpeech_def
proof (cases rule: bindE_cases)
  case (returns ai s0)
  from returns(1) have s0: "s0 = s" by (cases rule: getAiClient_cases) simp_all
  from returns(2) show ?thesis unfolding s0
  proof (cases rule: bindE_cases)
    case (returns base64Audio s1)
    note c = emits_call [OF returns(1)]
    from returns(2) obtain audioBytes
      where d: "decode P (orElse base64Audio []) = Inr audioBytes"
        "orElse base64Audio [] \<noteq> []"
        "objectURL P \<lparr>blob_bytes = wavBytes audioBytes, blob_type = ''audio/wav''\<rparr> s1
          = (Inr url, s')"
      by (auto simp: throwE_def split: if_splits sum.splits)
    from d(2) have b: "base64Audio = Some (orElse base64Audio [])"
      by (cases base64Audio) (auto split: if_splits)
    from d(3) have "trace s' = trace s1
        @ [CreateObjectURL \<lparr>blob_bytes = wavBytes audioBytes, blob_type = ''audio/wav''\<rparr> url]"
      by (auto simp: objectURL_def split: prod.splits)
    with c b d(1) show ?thesis
      by (intro exI [of _ "orElse base64Audio []"] exI [of _ audioBytes])
        (simp add: emits_def)
  qed simp
qed simp

text \<open>
  Claim C5. Whenever \<^verbatim>\<open>generateSpeech\<close> returns, the container it hands to the browser is
  built from the \<open>N\<close> sample bytes decoded from the provider's answer and is exactly
  \<open>44 + N\<close> bytes long; the little-endian 32-bit fields at offsets 4 and 40 hold \<open>36 + N\<close>
  and \<open>N\<close>, the 16-bit field at offset 20 holds the PCM tag 1, and the fixed fields sit at
  their standard offsets: the markers RIFF, WAVE, fmt and data at 0, 8, 12 and 36, the
  format chunk size 16 at 16, the channel count 1 at 22, the sample rate 24000 at 24, the
  byte rate 48000 at 28, the block alignment 2 at 32 and 16 bits per sample at 34; the
  samples follow unchanged. This holds for every byte count the program can have: the
  samples are the code units of one string, so \<open>N\<close> is at most \<open>maxStringLength\<close>, below
  the point where the 32-bit length fields would wrap.
\<close>

theorem speech_container_layout:
  assumes "generateSpeech P text s = (Inr url, s')"
  shows "\<exists>b64 audioBytes wav. decode P b64 = Inr audioBytes \<and> wav = wavBytes audioBytes
    \<and> trace s' = trace s @ [SpeechContent text (Inr (Some b64)),
         CreateObjectURL \<lparr>blob_bytes = wav, blob_type = ''audio/wav''\<rparr> url]
    \<and> length wav = 44 + length audioBytes
    \<and> getUint32 wav 4 = 36 + length audioBytes
    \<and> getUint32 wav 40 = length audioBytes
    \<and> getUint16 wav 20 = 1
    \<and> take 4 wav = ascii ''RIFF''
    \<and> take 4 (drop 8 wav) = ascii ''WAVE''
    \<and> take 4 (drop 12 wav) = ascii ''fmt ''
    \<and> getUint32 wav 16 = 16
    \<and> getUint16 wav 22 = 1
    \<and> getUint32 wav 24 = 24000
    \<and> getUint32 wav 28 = 48000
    \<and> getUint16 wav 32 = 2
    \<and> getUint16 wav 34 = 16
    \<and> take 4 (drop 36 wav) = ascii ''data''
    \<and> drop 44 wav = audioBytes"
proof -
  from generateSpeech_blob [OF assms] obtain b64 audioBytes
    where b: "decode P b64 = Inr audioBytes"
      "trace s' = trace s @ [SpeechContent text (Inr (Some b64)),
         CreateObjectURL \<lparr>blob_bytes = wavBytes audioBytes, blob_type = ''audio/wav''\<rparr> url]"
    by blast
  from decode_length [OF b(1)] have "36 + length audioBytes < 4294967296"
    by (simp add: maxStringLength_def)
  from wavBytes_layout [OF this] b show ?thesis
    by (intro exI [of _ b64] exI [of _ audioBytes] exI [of _ "wavBytes audioBytes"]) simp
qed

lemma scriptedEnv_speech:
  "clientError scriptedEnv w = None"
  "speechContent scriptedEnv t w = (Inr (Some ''AQID''), w)"
  "createObjectURL scriptedEnv b w = (''blob:'' @ blob_type b, w)"
  "decode scriptedEnv b64 = Inr [1, 2, 3]"
  by (simp_all add: decode_def scriptedEnv_def codeUnits.rep_eq jsStringOf.rep_eq
      maxStringLength_def)

lemma scripted_speech:
  "generateSpeech scriptedEnv ''Say with a playful tone: Shop now'' (start passScript)
    = (Inr ''blob:audio/wav'',
       \<lparr>app = app (start passScript), world = passScript,
        trace = [SpeechContent ''Say with a playful tone: Shop now'' (Inr (Some ''AQID'')),
          CreateObjectURL \<lparr>blob_bytes = wavBytes [1, 2, 3], blob_type = ''audio/wav''\<rparr>
            ''blob:audio/wav'']\<rparr>)"
  by (simp add: generateSpeech_def getAiClient_def bindE_def call_def returnE_def throwE_def
      objectURL_def scriptedEnv_speech start_def)

theorem speech_container_layout_witness:
  "generateSpeech scriptedEnv ''Say with a playful tone: Shop now'' (start passScript)
    = (Inr ''blob:audio/wav'',
       \<lparr>app = app (start passScript), world = passScript,
        trace = [SpeechContent ''Say with a playful tone: Shop now'' (Inr (Some ''AQID'')),
          CreateObjectURL \<lparr>blob_bytes = wavBytes [1, 2, 3], blob_type = ''audio/wav''\<rparr>
            ''blob:audio/wav'']\<rparr>)
    \<and> decode scriptedEnv ''AQID'' = Inr [1, 2, 3]
    \<and> length (wavBytes [1, 2, 3]) = 47 \<and> getUint32 (wavBytes [1, 2, 3]) 4 = 39
    \<and> getUint32 (wavBytes [1, 2, 3]) 40 = 3 \<and> getUint16 (wavBytes [1, 2, 3]) 20 = 1
    \<and> drop 44 (wavBytes [1, 2, 3]) = [1, 2, 3]"
  using speech_container_layout [OF scripted_speech] scripted_speech
    wavBytes_layout [of "[1, 2, 3 :: byte]"]
  by (simp add: scriptedEnv_speech)

subsection \<open>Stage 2 delivers when its services answer\<close>

lemma renderStage_delivers:
  assumes frame: "openingFrameData v = Some frame"
    and script: "\<forall>c s. \<exists>veo s'. generateVideoDirectorPrompt P c d s = (Inr veo, s')"
    and video: "\<forall>p f s. \<exists>url s'.
        generateVideo P p f (aspectRatio d) (updateProgress 6) s = Some (Inr url, s')"
    and voice: "generateVoiceover d \<longrightarrow> (\<forall>t s. \<exists>url s'. generateSpeech P t s = (Inr url, s'))"
    and assets: "\<forall>s. \<exists>a s'.
        generateAdAssets P (productDescription d) (cta d) (tone d) s = (Inr a, s')"
  shows "\<exists>s'. renderStage P d v s = Some (Inr (), s')"
proof -
  let ?s0 = "updateProgress 5 ''Writing video script...'' s"
  from script obtain veo s1
    where a: "generateVideoDirectorPrompt P (concept v) d ?s0 = (Inr veo, s1)" by blast
  let ?s2 = "updateProgress 6 ''Generating video (this may take a few minutes)...'' s1"
  from video obtain url s3
    where b: "generateVideo P veo frame (aspectRatio d) (updateProgress 6) ?s2
      = Some (Inr url, s3)"
    by blast
  have "\<exists>vo s4. (if generateVoiceover d then
             (\<lambda>s. bindE (generateSpeech P
                      (''Say with a '' @ tone d @ '' tone: '' @ cta d))
                    (\<lambda>url. returnE (Some url))
                    (updateProgress 7 ''Generating voiceover...'' s))
           else returnE None) s3 = (Inr vo, s4)"
  proof (cases "generateVoiceover d")
    case True
    with voice obtain vurl s4
      where "generateSpeech P (''Say with a '' @ tone d @ '' tone: '' @ cta d)
        (updateProgress 7 ''Generating voiceover...'' s3) = (Inr vurl, s4)"
      by blast
    with True show ?thesis by (simp add: bindE_def returnE_def)
  next
    case False
    then show ?thesis by (simp add: returnE_def)
  qed
  then obtain vo s4 where c: "(if generateVoiceover d then
             (\<lambda>s. bindE (generateSpeech P
                      (''Say with a '' @ tone d @ '' tone: '' @ cta d))
                    (\<lambda>url. returnE (Some url))
                    (updateProgress 7 ''Generating voiceover...'' s))
           else returnE None) s3 = (Inr vo, s4)"
    by blast
  from assets obtain x s5
    where e: "generateAdAssets P (productDescription d) (cta d) (tone d)
      (updateProgress 8 ''Generating ad assets...'' s4) = (Inr x, s5)"
    by blast
  have "\<exists>s'. finishStage P d v frame veo url s3 = (Inr (), s')"
    unfolding finishStage_def by (simp add: bindE_def c e)
  with a b frame show ?thesis
    by (auto simp: renderStage_def bindO_def liftO_def)
qed

lemma fetchVideo_succeeds:
  assumes "usable operation"
    and "\<forall>url w. \<exists>resp w' blob. fetch P url w = (Inr resp, w') \<and> resp_ok resp
        \<and> resp_blob resp = Inr blob"
  shows "\<exists>url s'. fetchVideo P (updateProgress 6) operation s = (Inr url, s')"
proof -
  let ?url = "orElse (op_videoUri operation) [] @ ''&key='' @ templateString (apiKey P)"
  let ?s1 = "updateProgress 6 ''Video generated successfully! Fetching video data...'' s"
  from assms(2) obtain resp w' blob
    where f: "fetch P ?url (world ?s1) = (Inr resp, w')" "resp_ok resp"
      "resp_blob resp = Inr blob"
    by blast
  obtain url w'' where u: "createObjectURL P blob w' = (url, w'')"
    by (cases "createObjectURL P blob w'")
  from assms(1) f u show ?thesis
    by (simp add: fetchVideo_def usable_def bindE_def call_def objectURL_def)
qed

text \<open>
  When the provider answers every call that the services of stage 2 make, these services
  return normally: the client can be built, the script call answers, every video job is
  reported done after finitely many polls, without an error and with a result URI, the
  download succeeds, the speech call (if a voiceover is asked for) answers with data that
  decodes, and the ad-asset call answers.
\<close>

lemma services_answer:
  assumes client: "\<forall>w. clientError P w = None"
    and script: "\<forall>c w. \<exists>veo w'. directorContent P c d w = (Inr veo, w')"
    and video: "\<forall>p f w. \<exists>operation0 w0 answers.
        generateVideos P p f (aspectRatio d) w = (Inr operation0, w0)
        \<and> pollAnswers P operation0 w0 answers
        \<and> (\<forall>x \<in> set (butlast (operation0 # map fst answers)). \<not> op_done x)
        \<and> usable (last (operation0 # map fst answers))"
    and download: "\<forall>url w. \<exists>resp w' blob. fetch P url w = (Inr resp, w') \<and> resp_ok resp
        \<and> resp_blob resp = Inr blob"
    and voice: "generateVoiceover d \<longrightarrow>
        (\<forall>t w. \<exists>b64 w'. speechContent P t w = (Inr (Some b64), w') \<and> b64 \<noteq> [])
        \<and> (\<forall>b64. \<exists>binaryString. atob P b64 = Inr binaryString)"
    and assets: "\<forall>x y z w. \<exists>a w'. assetsContent P x y z w = (Inr a, w')"
  shows "\<forall>c s. \<exists>veo s'. generateVideoDirectorPrompt P c d s = (Inr veo, s')"
    and "\<forall>p f s. \<exists>url s'.
        generateVideo P p f (aspectRatio d) (updateProgress 6) s = Some (Inr url, s')"
    and "generateVoiceover d \<longrightarrow> (\<forall>t s. \<exists>url s'. generateSpeech P t s = (Inr url, s'))"
    and "\<forall>s. \<exists>a s'.
        generateAdAssets P (productDescription d) (cta d) (tone d) s = (Inr a, s')"
proof -
  show "\<forall>c s. \<exists>veo s'. generateVideoDirectorPrompt P c d s = (Inr veo, s')"
  proof (intro allI)
    fix c and s :: "'a state"
    from script obtain veo w' where "directorContent P c d (world s) = (Inr veo, w')" by blast
    with client show "\<exists>veo s'. generateVideoDirectorPrompt P c d s = (Inr veo, s')"
      by (simp add: generateVideoDirectorPrompt_def getAiClient_def bindE_def call_def
          returnE_def)
  qed
  show "\<forall>p f s. \<exists>url s'.
      generateVideo P p f (aspectRatio d) (updateProgress 6) s = Some (Inr url, s')"
  proof (intro allI)
    fix p f and s :: "'a state"
    from video obtain operation0 w0 answers
      where v: "generateVideos P p f (aspectRatio d) (world s) = (Inr operation0, w0)"
        "pollAnswers P operation0 w0 answers"
        "\<forall>x \<in> set (butlast (operation0 # map fst answers)). \<not> op_done x"
        "usable (last (operation0 # map fst answers))"
      by blast
    from v(4) have dn: "op_done (last (operation0 # map fst answers))"
      by (simp add: usable_def)
    from client have "clientError P (world s) = None" by simp
    from generateVideo_polls [OF this v(1,2,3) dn] obtain s3
      where "generateVideo P p f (aspectRatio d) (updateProgress 6) s
        = Some (fetchVideo P (updateProgress 6) (last (operation0 # map fst answers)) s3)"
      by blast
    with fetchVideo_succeeds [OF v(4) download, of s3]
    show "\<exists>url s'. generateVideo P p f (aspectRatio d) (updateProgress 6) s
        = Some (Inr url, s')"
      by auto
  qed
  show "generateVoiceover d \<longrightarrow> (\<forall>t s. \<exists>url s'. generateSpeech P t s = (Inr url, s'))"
  proof (intro impI allI)
    fix t and s :: "'a state"
    assume "generateVoiceover d"
    with voice obtain b64 w' where sp: "speechContent P t (world s) = (Inr (Some b64), w')"
      "b64 \<noteq> []" and at: "\<forall>b64. \<exists>binaryString. atob P b64 = Inr binaryString"
      by blast
    from at obtain binaryString where "atob P b64 = Inr binaryString" by blast
    then have d: "decode P b64 = Inr (map of_nat (codeUnits binaryString))"
      by (simp add: decode_def)
    obtain url w'' where "createObjectURL P \<lparr>blob_bytes
        = wavBytes (map of_nat (codeUnits binaryString)), blob_type = ''audio/wav''\<rparr> w'
        = (url, w'')"
      by (cases "createObjectURL P \<lparr>blob_bytes
        = wavBytes (map of_nat (codeUnits binaryString)), blob_type = ''audio/wav''\<rparr> w'")
    with client sp d show "\<exists>url s'. generateSpeech P t s = (Inr url, s')"
      by (simp add: generateSpeech_def getAiClient_def bindE_def call_def returnE_def
          objectURL_def)
  qed
  show "\<forall>s. \<exists>a s'.
      generateAdAssets P (productDescription d) (cta d) (tone d) s = (Inr a, s')"
  proof (intro allI)
    fix s :: "'a state"
    from assets obtain a w'
      where "assetsContent P (productDescription d) (cta d) (tone d) (world s) = (Inr a, w')"
      by blast
    with client show "\<exists>a s'.
        generateAdAssets P (productDescription d) (cta d) (tone d) s = (Inr a, s')"
      by (simp add: generateAdAssets_def getAiClient_def bindE_def call_def returnE_def)
  qed
qed


text \<open>
  A run whose key check, first stage and retry loop return normally, the loop with a
  frame, and whose later services answer, ends normally with the \<^verbatim>\<open>FinalOutput\<close> built
  from the loop's variables and from the answer of the ad-asset call.
\<close>

lemma run_delivers:
  assumes key: "apiKeyCheck P (setResult None (setError None (setIsLoading True s)))
      = (Inr u, s1)"
    and stage1: "analysisStage P d s1 = (Inr (actor, c), s2)"
    and loop: "qcLoop P d actor 1 (loopEntry c) s2 = (Inr v, s3)"
    and frame: "openingFrameData v = Some frame"
    and script: "\<forall>c s. \<exists>veo s'. generateVideoDirectorPrompt P c d s = (Inr veo, s')"
    and video: "\<forall>p f s. \<exists>url s'.
        generateVideo P p f (aspectRatio d) (updateProgress 6) s = Some (Inr url, s')"
    and voice: "generateVoiceover d \<longrightarrow> (\<forall>t s. \<exists>url s'. generateSpeech P t s = (Inr url, s'))"
    and assets: "\<forall>s. \<exists>a s'.
        generateAdAssets P (productDescription d) (cta d) (tone d) s = (Inr a, s')"
  shows "\<exists>s' out a R. handleGenerateAd P d s = Some (Inr (), s')
    \<and> result (app s') = Some out \<and> error (app s') = None
    \<and> trace s' = trace s3 @ R @ [SetProgress idle] \<and> noQc R \<and> assets R = [a]
    \<and> ad_copy_variations out = adCopyVariations a \<and> hashtags out = hashtags_assets a
    \<and> qc_notes out = qcNotes v
    \<and> opening_frame_prompt out = openingFramePrompt (concept v)
    \<and> opening_frame_image_url out = frameUrl frame"
proof -
  let ?s0 = "setResult None (setError None (setIsLoading True s))"
  from renderStage_delivers [OF frame script video voice assets] obtain st
    where rs: "renderStage P d v s3 = Some (Inr (), st)" by blast
  from renderStage_run [OF rs] obtain R ro
    where R: "yields s3 (Inr ()) st R ro" "renderRun d v R ro" by blast
  from R(1) obtain out where ro: "ro = Inr out"
    by (cases ro) (simp_all add: yields_def)
  from R(1) ro have st: "trace st = trace s3 @ R" "result (app st) = Some out"
    "error (app st) = error (app s3)"
    by (simp_all add: yields_def)
  from renderRun_props [OF R(2)] ro frame obtain a
    where p: "noQc R" "assets R = [a]" "ad_copy_variations out = adCopyVariations a"
      "hashtags out = hashtags_assets a" "qc_notes out = qcNotes v"
      "opening_frame_prompt out = openingFramePrompt (concept v)"
      "opening_frame_image_url out = frameUrl frame"
    by auto
  have "error (app ?s0) = None"
    by (simp add: setResult_def setError_def)
  with apiKeyCheck_run [OF key] have "error (app s1) = None" by auto
  with analysisStage_run [OF stage1] have "error (app s2) = None" by (auto simp: emits_def)
  with qcLoop_run [OF loop] have e3: "error (app s3) = None" by (auto simp: emits_def)
  have "tryBlock P d s1 = Some (Inr (), st)"
    using stage1 loop rs by (simp add: tryBlock_def bindO_def liftO_def)
  with key have "handleGenerateAd P d s = Some (Inr (), finallyBlock st)"
    by (simp add: handleGenerateAd_def bindO_def liftO_def)
  with st e3 p show ?thesis
    by (intro exI [of _ "finallyBlock st"] exI [of _ out] exI [of _ a] exI [of _ R])
      (simp add: finallyBlock_app)
qed


text \<open>
  Claim C6 (as the code has it). Let the run reach the ad-asset stage: the key check, the
  first stage and the retry loop return normally, the loop with a frame, and the provider
  answers every call made after the loop (as in claim C2). Then the run ends with a \<^verbatim>\<open>FinalOutput\<close>
  whose ad copy variations and hashtags are exactly the two lists of the provider's
  answer to the ad-asset call, in order and unchanged. The code neither counts the
  entries nor removes a leading \<open>#\<close>.
\<close>

theorem ad_assets_passed_through:
  assumes key: "apiKeyCheck P (setResult None (setError None (setIsLoading True s)))
      = (Inr u, s1)"
    and stage1: "analysisStage P d s1 = (Inr (actor, c), s2)"
    and loop: "qcLoop P d actor 1 (loopEntry c) s2 = (Inr v, s3)"
    and frame: "openingFrameData v = Some frame"
    and client: "\<forall>w. clientError P w = None"
    and script: "\<forall>c w. \<exists>veo w'. directorContent P c d w = (Inr veo, w')"
    and video: "\<forall>p f w. \<exists>operation0 w0 answers.
        generateVideos P p f (aspectRatio d) w = (Inr operation0, w0)
        \<and> pollAnswers P operation0 w0 answers
        \<and> (\<forall>x \<in> set (butlast (operation0 # map fst answers)). \<not> op_done x)
        \<and> usable (last (operation0 # map fst answers))"
    and download: "\<forall>url w. \<exists>resp w' blob. fetch P url w = (Inr resp, w') \<and> resp_ok resp
        \<and> resp_blob resp = Inr blob"
    and voice: "generateVoiceover d \<longrightarrow>
        (\<forall>t w. \<exists>b64 w'. speechContent P t w = (Inr (Some b64), w') \<and> b64 \<noteq> [])
        \<and> (\<forall>b64. \<exists>binaryString. atob P b64 = Inr binaryString)"
    and assets: "\<forall>x y z w. \<exists>a w'. assetsContent P x y z w = (Inr a, w')"
  shows "\<exists>s' out a. handleGenerateAd P d s = Some (Inr (), s')
    \<and> result (app s') = Some out \<and> error (app s') = None
    \<and> assets (trace s') = assets (trace s3) @ [a]
    \<and> ad_copy_variations out = adCopyVariations a \<and> hashtags out = hashtags_assets a"
proof -
  note sv = services_answer [OF client script video download voice assets]
  from run_delivers [OF key stage1 loop frame sv] obtain s' out a R
    where run: "handleGenerateAd P d s = Some (Inr (), s')"
      "result (app s') = Some out" "error (app s') = None"
      "trace s' = trace s3 @ R @ [SetProgress idle]" "assets R = [a]"
      "ad_copy_variations out = adCopyVariations a" "hashtags out = hashtags_assets a"
    by blast
  then show ?thesis
    by (intro exI [of _ s'] exI [of _ out] exI [of _ a]) simp
qed

subsection \<open>The run of three rejections, stage by stage\<close>

lemma steady_check:
  "apiKeyCheck steadyEnv (setResult None (setError None (setIsLoading True (start w))))
    = (Inr (), loading w)"
  by (simp add: loading_def apiKeyCheck_def steadyEnv_def scriptedEnv_def returnE_def)

lemma steady_stage1:
  "analysisStage steadyEnv brief (loading exhaustScript)
    = (Inr (None, \<lparr>adTitle = ''Red'', adIdea = ''Walk'', adDescription = ''Silk'',
          openingFramePrompt = ''Full body shot''\<rparr>), exhaustAnalysed)"
  by (simp add: run_defs steadyEnv_def loading_def exhaustScript_def exhaustAnalysed_def)

lemma steady_loop:
  "qcLoop steadyEnv brief None 1
      (loopEntry \<lparr>adTitle = ''Red'', adIdea = ''Walk'', adDescription = ''Silk'',
          openingFramePrompt = ''Full body shot''\<rparr>) exhaustAnalysed
    = (Inr exhaustVars, exhaustLoopExit)"
  by (simp add: run_defs steadyEnv_def exhaustAnalysed_def exhaustVars_def exhaustLoopExit_def)

lemma exhaust_verdicts:
  "verdicts (trace exhaustLoopExit) = verdicts (trace exhaustAnalysed)
    @ [rejected ''feet cut off'', rejected ''hand warped'', rejected ''logo blurred'']"
  "\<not> isValid (rejected ''feet cut off'')" "\<not> isValid (rejected ''hand warped'')"
  "\<not> isValid (rejected ''logo blurred'')"
  "openingFrameData exhaustVars = Some \<lparr>base64 = ''IMG71'', mimeType = ''image/jpeg''\<rparr>"
  by (simp_all add: exhaustLoopExit_def exhaustAnalysed_def exhaustVars_def rejected_def)

lemma steadyEnv_fields:
  "clientError steadyEnv w = None"
  "directorContent steadyEnv c d w = (Inr ''One continuous scene'', w)"
  "generateVideos steadyEnv p f r w = (Inr finished, w)"
  "fetch steadyEnv url w = (Inr \<lparr>resp_ok = True, resp_statusText = ''OK'',
      resp_blob = Inr \<lparr>blob_bytes = [0, 1], blob_type = ''video/mp4''\<rparr>\<rparr>, w)"
  "createObjectURL steadyEnv b w = (''blob:'' @ blob_type b, w)"
  "assetsContent steadyEnv x y z w
    = (Inr \<lparr>adCopyVariations = [''Wear it'', ''Own it'', ''Love it''],
         hashtags_assets = [''silk'', ''dress'', ''summer'', ''red'', ''style'']\<rparr>, w)"
  by (simp_all add: steadyEnv_def scriptedEnv_def)

lemma steady_provider:
  "\<forall>w. clientError steadyEnv w = None"
  "\<forall>c w. \<exists>veo w'. directorContent steadyEnv c brief w = (Inr veo, w')"
  "\<forall>p f w. \<exists>operation0 w0 answers.
      generateVideos steadyEnv p f (aspectRatio brief) w = (Inr operation0, w0)
      \<and> pollAnswers steadyEnv operation0 w0 answers
      \<and> (\<forall>x \<in> set (butlast (operation0 # map fst answers)). \<not> op_done x)
      \<and> usable (last (operation0 # map fst answers))"
  "\<forall>url w. \<exists>resp w' blob. fetch steadyEnv url w = (Inr resp, w') \<and> resp_ok resp
      \<and> resp_blob resp = Inr blob"
  "\<not> generateVoiceover brief"
  "\<forall>x y z w. \<exists>a w'. assetsContent steadyEnv x y z w = (Inr a, w')"
proof -
  show "\<forall>p f w. \<exists>operation0 w0 answers.
      generateVideos steadyEnv p f (aspectRatio brief) w = (Inr operation0, w0)
      \<and> pollAnswers steadyEnv operation0 w0 answers
      \<and> (\<forall>x \<in> set (butlast (operation0 # map fst answers)). \<not> op_done x)
      \<and> usable (last (operation0 # map fst answers))"
    by (intro allI exI [of _ finished] exI [of _ "[]"])
      (simp add: steadyEnv_fields finished_def usable_def)
qed (simp_all add: steadyEnv_fields brief_def)


theorem ad_assets_passed_through_witness:
  "apiKeyCheck steadyEnv (setResult None (setError None (setIsLoading True
      (start exhaustScript)))) = (Inr (), loading exhaustScript)
    \<and> analysisStage steadyEnv brief (loading exhaustScript)
      = (Inr (None, \<lparr>adTitle = ''Red'', adIdea = ''Walk'', adDescription = ''Silk'',
            openingFramePrompt = ''Full body shot''\<rparr>), exhaustAnalysed)
    \<and> qcLoop steadyEnv brief None 1
        (loopEntry \<lparr>adTitle = ''Red'', adIdea = ''Walk'', adDescription = ''Silk'',
            openingFramePrompt = ''Full body shot''\<rparr>) exhaustAnalysed
      = (Inr exhaustVars, exhaustLoopExit)
    \<and> openingFrameData exhaustVars = Some \<lparr>base64 = ''IMG71'', mimeType = ''image/jpeg''\<rparr>
    \<and> (\<forall>w. clientError steadyEnv w = None)
    \<and> (\<forall>c w. \<exists>veo w'. directorContent steadyEnv c brief w = (Inr veo, w'))
    \<and> (\<forall>p f w. \<exists>operation0 w0 answers.
          generateVideos steadyEnv p f (aspectRatio brief) w = (Inr operation0, w0)
          \<and> pollAnswers steadyEnv operation0 w0 answers
          \<and> filter op_done (butlast (operation0 # map fst answers)) = []
          \<and> usable (last (operation0 # map fst answers)))
    \<and> (\<forall>url w. \<exists>resp w' blob. fetch steadyEnv url w = (Inr resp, w') \<and> resp_ok resp
          \<and> resp_blob resp = Inr blob)
    \<and> \<not> generateVoiceover brief
    \<and> (\<forall>x y z w. \<exists>a w'. assetsContent steadyEnv x y z w = (Inr a, w'))
    \<and> (\<exists>s' out a. handleGenerateAd steadyEnv brief (start exhaustScript) = Some (Inr (), s')
        \<and> result (app s') = Some out \<and> error (app s') = None
        \<and> assets (trace s') = assets (trace exhaustLoopExit) @ [a]
        \<and> ad_copy_variations out = adCopyVariations a \<and> hashtags out = hashtags_assets a)"
  using ad_assets_passed_through [OF steady_check steady_stage1 steady_loop
      exhaust_verdicts(5) steady_provider(1-4) _ steady_provider(6)]
    steady_check steady_stage1 steady_loop exhaust_verdicts steady_provider
  by (simp add: filter_empty_conv)

text \<open>
  Claim C6 as stated fails for a provider that answers within the schema of the request
  (two arrays of strings) but not as the prompt asks: with one ad copy variation and the
  hashtag \<open>#silk\<close> in the answer, the run ends without an error in a \<^verbatim>\<open>FinalOutput\<close>
  with one variation and one hashtag, which begins with \<open>#\<close>.
\<close>

theorem sloppy_assets_counterexample:
  "\<exists>s' out. handleGenerateAd sloppyEnv brief (start passScript) = Some (Inr (), s')
    \<and> result (app s') = Some out \<and> error (app s') = None
    \<and> AssetsContent ''A red silk dress'' ''Shop now'' ''playful''
        (Inr \<lparr>adCopyVariations = [''Wear it''], hashtags_assets = [''#silk'']\<rparr>)
        \<in> set (trace s')
    \<and> ad_copy_variations out = [''Wear it''] \<and> hashtags out = [''#silk'']
    \<and> length (ad_copy_variations out) \<noteq> 3 \<and> length (hashtags out) \<noteq> 5
    \<and> prefix ''#'' (hd (hashtags out))"
  by (simp add: run_defs sloppyEnv_def passScript_def)

subsection \<open>The order of the progress steps and the reset\<close>








end
